(* ===== verification/Prelude.thy ===== *)
theory Prelude
  imports Main "HOL-Library.Word"
begin

text \<open>
  Shared vocabulary of the development: the machine integers of the C code, the error values a C
  function can return, the success rule collection \<open>io_ok\<close>, and the generic facts on words and
  lists of bytes that the component theories use.
\<close>

unbundle bit_operations_syntax

section \<open>Machine integers\<close>

type_synonym u8 = "8 word"
type_synonym u16 = "16 word"
type_synonym u32 = "32 word"
type_synonym u64 = "64 word"
type_synonym bytes = "8 word list"

section \<open>Errors as values\<close>

text \<open>
  A C function of genimage reports failure by a non-zero \<open>int\<close>: a negated errno value, the
  positive exit status of a command, or (in a few handlers) a small positive code. \<open>Exit n\<close> stands
  for a call of \<open>exit(n)\<close>, and \<open>Undefined\<close> for an access outside an object, which C leaves undefined.
\<close>

datatype error = Errno nat | Status nat | Exit nat | Undefined

abbreviation ENOENT :: error where "ENOENT \<equiv> Errno 2"
abbreviation EIO :: error where "EIO \<equiv> Errno 5"
abbreviation E2BIG :: error where "E2BIG \<equiv> Errno 7"
abbreviation EINVAL :: error where "EINVAL \<equiv> Errno 22"

type_synonym 'a result = "error + 'a"

text \<open>The value the C function returns for each error.\<close>

fun ret_code :: "error \<Rightarrow> int" where
  "ret_code (Errno e) = - int e"
| "ret_code (Status s) = int s"
| "ret_code (Exit s) = int s"
| "ret_code Undefined = - 1"

definition ensure :: "bool \<Rightarrow> error \<Rightarrow> unit result" where
  "ensure b e = (if b then Inr () else Inl e)"

definition rbind :: "'a result \<Rightarrow> ('a \<Rightarrow> 'b result) \<Rightarrow> 'b result" where
  "rbind m f = (case m of Inl e \<Rightarrow> Inl e | Inr x \<Rightarrow> f x)"

named_theorems io_ok \<open>when a step of the model returns success\<close>

lemma ensure_ok [io_ok]: "ensure b e = Inr u \<longleftrightarrow> b"
  by (simp add: ensure_def)

lemma ensure_simps [simp]: "ensure True e = Inr ()" "ensure False e = Inl e"
  by (simp_all add: ensure_def)

lemma rbind_ok [io_ok]: "rbind m f = Inr y \<longleftrightarrow> (\<exists>x. m = Inr x \<and> f x = Inr y)"
  by (simp add: rbind_def split: sum.split)

lemma rbind_simps [simp]: "rbind (Inr x) f = f x" "rbind (Inl e) f = Inl e"
  by (simp_all add: rbind_def)

lemma rbindE: "rbind m f = Inr y \<Longrightarrow> (\<And>x. m = Inr x \<Longrightarrow> f x = Inr y \<Longrightarrow> P) \<Longrightarrow> P"
  by (auto simp: rbind_ok)

lemma case_prodE': "(case x of (a, b) \<Rightarrow> f a b) = y \<Longrightarrow> (\<And>a b. x = (a, b) \<Longrightarrow> f a b = y \<Longrightarrow> P) \<Longrightarrow> P"
  by (cases x) simp

section \<open>Words\<close>

lemma unat_lt64: "unat (x :: u64) < 2 ^ 64"
  using unsigned_less [where ?'a = nat, of x] by simp

lemma unat_add64:
  "unat x + unat y < 2 ^ 64 \<Longrightarrow> unat (x + y :: u64) = unat x + unat y"
  by (simp add: unat_word_ariths)

lemma unat_sub64: "unat y \<le> unat x \<Longrightarrow> unat (x - y :: u64) = unat x - unat y"
  by (simp add: unat_sub word_le_nat_alt)

lemma unat_of_nat64: "n < 2 ^ 64 \<Longrightarrow> unat (of_nat n :: u64) = n"
  by (simp add: unat_of_nat take_bit_eq_mod)

lemma unat_eq0: "unat (x :: 'a::len word) = 0 \<longleftrightarrow> x = 0"
  by (rule unat_eq_zero)

lemma unat_div64: "unat (x div y :: u64) = unat x div unat y"
  by (rule unat_div_distrib)

lemma unat_mod64: "unat (x mod y :: u64) = unat x mod unat y"
  by (rule unat_mod_distrib)

lemma u64_mod0_dvd: "(x :: u64) mod y = 0 \<longleftrightarrow> unat y dvd unat x"
  by (metis unat_mod64 mod_eq_0_iff_dvd unat_eq0)

lemma unat_ucast32: "unat (ucast (x :: u32) :: u64) = unat x"
  using unsigned_less [where ?'a = nat, of x] by (simp add: unsigned_ucast_eq take_bit_eq_mod)

section \<open>Little-endian byte strings\<close>

text \<open>
  The structs that genimage writes to disk are packed, so their bytes are the concatenation of
  the fields. The model is of a little-endian host: \<open>le n v\<close> is the \<open>n\<close> bytes that a field of
  that size occupies, for the fields converted by \<open>htole16/32/64\<close> and for those that are not.
\<close>

definition le :: "nat \<Rightarrow> nat \<Rightarrow> bytes" where
  "le n v = map (\<lambda>i. word_of_nat (v div 256 ^ i)) [0..<n]"

fun unle :: "bytes \<Rightarrow> nat" where
  "unle [] = 0"
| "unle (b # bs) = unat b + 256 * unle bs"

definition le16 :: "u16 \<Rightarrow> bytes" where "le16 x = le 2 (unat x)"
definition le32 :: "u32 \<Rightarrow> bytes" where "le32 x = le 4 (unat x)"
definition le64 :: "u64 \<Rightarrow> bytes" where "le64 x = le 8 (unat x)"

lemma length_le [simp]: "length (le n v) = n"
  by (simp add: le_def)

lemma length_le16 [simp]: "length (le16 x) = 2" by (simp add: le16_def)
lemma length_le32 [simp]: "length (le32 x) = 4" by (simp add: le32_def)
lemma length_le64 [simp]: "length (le64 x) = 8" by (simp add: le64_def)

lemma le_Suc: "le (Suc n) v = word_of_nat v # le n (v div 256)"
proof (rule nth_equalityI)
  fix i assume "i < length (le (Suc n) v)"
  then show "le (Suc n) v ! i = (word_of_nat v # le n (v div 256)) ! i"
    by (cases i) (simp_all add: le_def div_mult2_eq del: upt_Suc)
qed simp

lemma unle_le: "v < 256 ^ n \<Longrightarrow> unle (le n v) = v"
proof (induction n arbitrary: v)
  case 0
  then show ?case by (simp add: le_def)
next
  case (Suc n)
  then have "v div 256 < 256 ^ n"
    by (simp add: less_mult_imp_div_less mult.commute)
  then have "unle (le n (v div 256)) = v div 256" by (rule Suc.IH)
  moreover have "unat (word_of_nat v :: u8) = v mod 256"
    by (simp add: unat_of_nat take_bit_eq_mod)
  ultimately show ?case by (simp add: le_Suc)
qed

lemma unle_le16 [simp]: "unle (le16 x) = unat x"
  using unsigned_less [where ?'a = nat, of x] by (simp add: le16_def unle_le)

lemma unle_le32 [simp]: "unle (le32 x) = unat x"
  using unsigned_less [where ?'a = nat, of x] by (simp add: le32_def unle_le)

lemma unle_le64 [simp]: "unle (le64 x) = unat x"
  using unsigned_less [where ?'a = nat, of x] by (simp add: le64_def unle_le)

text \<open>\<open>field off len bs\<close>: the field at byte \<open>off\<close> of a struct's bytes.\<close>

definition field :: "nat \<Rightarrow> nat \<Rightarrow> bytes \<Rightarrow> bytes" where
  "field off n bs = take n (drop off bs)"

lemma field_append_right:
  "length xs \<le> off \<Longrightarrow> field off n (xs @ ys) = field (off - length xs) n ys"
  by (simp add: field_def)

lemma field_append_left: "length xs = n \<Longrightarrow> field 0 n (xs @ ys) = xs"
  by (simp add: field_def)

lemma field_all: "length xs = n \<Longrightarrow> field 0 n xs = xs"
  by (simp add: field_def)

lemmas field_simps' = field_append_right field_append_left field_all

end
