(* ===== verification/Crc32.thy ===== *)
theory Crc32
  imports Prelude
begin

text \<open>
  \<^verbatim>\<open>crc32.c\<close>: the table, \<open>crc32_next\<close> and \<open>crc32\<close>, a reference that shifts bit by bit, the proof that
  the table-driven step is the reference step, and the algebra of the checksum.
\<close>

section \<open>The code\<close>

definition crc32_tab :: "u32 list" where
  "crc32_tab = [
    0x00000000, 0x77073096, 0xee0e612c, 0x990951ba, 0x076dc419, 0x706af48f,
    0xe963a535, 0x9e6495a3, 0x0edb8832, 0x79dcb8a4, 0xe0d5e91e, 0x97d2d988,
    0x09b64c2b, 0x7eb17cbd, 0xe7b82d07, 0x90bf1d91, 0x1db71064, 0x6ab020f2,
    0xf3b97148, 0x84be41de, 0x1adad47d, 0x6ddde4eb, 0xf4d4b551, 0x83d385c7,
    0x136c9856, 0x646ba8c0, 0xfd62f97a, 0x8a65c9ec, 0x14015c4f, 0x63066cd9,
    0xfa0f3d63, 0x8d080df5, 0x3b6e20c8, 0x4c69105e, 0xd56041e4, 0xa2677172,
    0x3c03e4d1, 0x4b04d447, 0xd20d85fd, 0xa50ab56b, 0x35b5a8fa, 0x42b2986c,
    0xdbbbc9d6, 0xacbcf940, 0x32d86ce3, 0x45df5c75, 0xdcd60dcf, 0xabd13d59,
    0x26d930ac, 0x51de003a, 0xc8d75180, 0xbfd06116, 0x21b4f4b5, 0x56b3c423,
    0xcfba9599, 0xb8bda50f, 0x2802b89e, 0x5f058808, 0xc60cd9b2, 0xb10be924,
    0x2f6f7c87, 0x58684c11, 0xc1611dab, 0xb6662d3d, 0x76dc4190, 0x01db7106,
    0x98d220bc, 0xefd5102a, 0x71b18589, 0x06b6b51f, 0x9fbfe4a5, 0xe8b8d433,
    0x7807c9a2, 0x0f00f934, 0x9609a88e, 0xe10e9818, 0x7f6a0dbb, 0x086d3d2d,
    0x91646c97, 0xe6635c01, 0x6b6b51f4, 0x1c6c6162, 0x856530d8, 0xf262004e,
    0x6c0695ed, 0x1b01a57b, 0x8208f4c1, 0xf50fc457, 0x65b0d9c6, 0x12b7e950,
    0x8bbeb8ea, 0xfcb9887c, 0x62dd1ddf, 0x15da2d49, 0x8cd37cf3, 0xfbd44c65,
    0x4db26158, 0x3ab551ce, 0xa3bc0074, 0xd4bb30e2, 0x4adfa541, 0x3dd895d7,
    0xa4d1c46d, 0xd3d6f4fb, 0x4369e96a, 0x346ed9fc, 0xad678846, 0xda60b8d0,
    0x44042d73, 0x33031de5, 0xaa0a4c5f, 0xdd0d7cc9, 0x5005713c, 0x270241aa,
    0xbe0b1010, 0xc90c2086, 0x5768b525, 0x206f85b3, 0xb966d409, 0xce61e49f,
    0x5edef90e, 0x29d9c998, 0xb0d09822, 0xc7d7a8b4, 0x59b33d17, 0x2eb40d81,
    0xb7bd5c3b, 0xc0ba6cad, 0xedb88320, 0x9abfb3b6, 0x03b6e20c, 0x74b1d29a,
    0xead54739, 0x9dd277af, 0x04db2615, 0x73dc1683, 0xe3630b12, 0x94643b84,
    0x0d6d6a3e, 0x7a6a5aa8, 0xe40ecf0b, 0x9309ff9d, 0x0a00ae27, 0x7d079eb1,
    0xf00f9344, 0x8708a3d2, 0x1e01f268, 0x6906c2fe, 0xf762575d, 0x806567cb,
    0x196c3671, 0x6e6b06e7, 0xfed41b76, 0x89d32be0, 0x10da7a5a, 0x67dd4acc,
    0xf9b9df6f, 0x8ebeeff9, 0x17b7be43, 0x60b08ed5, 0xd6d6a3e8, 0xa1d1937e,
    0x38d8c2c4, 0x4fdff252, 0xd1bb67f1, 0xa6bc5767, 0x3fb506dd, 0x48b2364b,
    0xd80d2bda, 0xaf0a1b4c, 0x36034af6, 0x41047a60, 0xdf60efc3, 0xa867df55,
    0x316e8eef, 0x4669be79, 0xcb61b38c, 0xbc66831a, 0x256fd2a0, 0x5268e236,
    0xcc0c7795, 0xbb0b4703, 0x220216b9, 0x5505262f, 0xc5ba3bbe, 0xb2bd0b28,
    0x2bb45a92, 0x5cb36a04, 0xc2d7ffa7, 0xb5d0cf31, 0x2cd99e8b, 0x5bdeae1d,
    0x9b64c2b0, 0xec63f226, 0x756aa39c, 0x026d930a, 0x9c0906a9, 0xeb0e363f,
    0x72076785, 0x05005713, 0x95bf4a82, 0xe2b87a14, 0x7bb12bae, 0x0cb61b38,
    0x92d28e9b, 0xe5d5be0d, 0x7cdcefb7, 0x0bdbdf21, 0x86d3d2d4, 0xf1d4e242,
    0x68ddb3f8, 0x1fda836e, 0x81be16cd, 0xf6b9265b, 0x6fb077e1, 0x18b74777,
    0x88085ae6, 0xff0f6a70, 0x66063bca, 0x11010b5c, 0x8f659eff, 0xf862ae69,
    0x616bffd3, 0x166ccf45, 0xa00ae278, 0xd70dd2ee, 0x4e048354, 0x3903b3c2,
    0xa7672661, 0xd06016f7, 0x4969474d, 0x3e6e77db, 0xaed16a4a, 0xd9d65adc,
    0x40df0b66, 0x37d83bf0, 0xa9bcae53, 0xdebb9ec5, 0x47b2cf7f, 0x30b5ffe9,
    0xbdbdf21c, 0xcabac28a, 0x53b39330, 0x24b4a3a6, 0xbad03605, 0xcdd70693,
    0x54de5729, 0x23d967bf, 0xb3667a2e, 0xc4614ab8, 0x5d681b02, 0x2a6f2b94,
    0xb40bbe37, 0xc30c8ea1, 0x5a05df1b, 0x2d02ef8d]"

text \<open>
  One iteration: \<open>*p++\<close> is a plain (signed) \<open>char\<close>, sign-extended before the exclusive or.
\<close>

definition crc_step :: "u32 \<Rightarrow> u8 \<Rightarrow> u32" where
  "crc_step crc p = crc32_tab ! unat ((crc XOR scast p) AND 0xff) XOR drop_bit 8 crc"

fun crc_loop :: "bytes \<Rightarrow> u32 \<Rightarrow> u32" where
  "crc_loop [] crc = crc"
| "crc_loop (p # ps) crc = crc_loop ps (crc_step crc p)"

definition crc32_next :: "bytes \<Rightarrow> u32 \<Rightarrow> u32" where
  "crc32_next data last_crc = NOT (crc_loop data (NOT last_crc))"

definition crc32 :: "bytes \<Rightarrow> u32" where
  "crc32 data = crc32_next data 0"

section \<open>The reference: one bit at a time\<close>

definition crc_bit :: "u32 \<Rightarrow> u32" where
  "crc_bit c = (if bit c 0 then drop_bit 1 c XOR 0xedb88320 else drop_bit 1 c)"

definition crc_byte :: "u32 \<Rightarrow> u8 \<Rightarrow> u32" where
  "crc_byte c p = (crc_bit ^^ 8) (c XOR ucast p)"

definition ref_crc32 :: "bytes \<Rightarrow> u32" where
  "ref_crc32 data = NOT (foldl crc_byte (NOT 0) data)"

lemma crc_bit_xor: "crc_bit (a XOR b) = crc_bit a XOR crc_bit b"
  by (rule bit_word_eqI) (auto simp: crc_bit_def bit_simps)

lemma crc_bits_xor: "(crc_bit ^^ n) (a XOR b) = (crc_bit ^^ n) a XOR (crc_bit ^^ n) b"
  by (induction n) (simp_all add: crc_bit_xor)

lemma crc_bits_high: "(\<forall>i < n. \<not> bit x i) \<Longrightarrow> (crc_bit ^^ n) x = drop_bit n x"
proof (induction n)
  case (Suc n)
  then have "(crc_bit ^^ n) x = drop_bit n x" by simp
  moreover have "\<not> bit (drop_bit n x) 0" using Suc.prems by (simp add: bit_simps)
  ultimately show ?case by (simp add: crc_bit_def [of "drop_bit n x"])
qed simp

definition crc_entry :: "nat \<Rightarrow> u32" where
  "crc_entry i = (crc_bit ^^ 8) (word_of_nat i)"

lemma crc_bits8:
  "(crc_bit ^^ 8) c = crc_bit (crc_bit (crc_bit (crc_bit (crc_bit (crc_bit (crc_bit (crc_bit c)))))))"
  by (simp add: numeral_eq_Suc)

lemma word_of_nat_xor:
  assumes "j < 2 ^ k" shows "(word_of_nat (2 ^ k + j) :: u32) = word_of_nat (2 ^ k) XOR word_of_nat j"
proof -
  have "\<not> bit j n" if "k \<le> n" for n
  proof -
    have "(2 :: nat) ^ k \<le> 2 ^ n" using that by (simp add: power_increasing)
    then have "j < 2 ^ n" using assms by linarith
    then show ?thesis by (simp add: bit_iff_odd)
  qed
  then have "(2 ^ k :: nat) AND j = 0"
    by (intro bit_eqI) (auto simp: bit_simps)
  then have "(2 ^ k + j :: nat) = 2 ^ k XOR j"
    by (simp add: disjunctive_add_eq_xor)
  then show ?thesis by (simp add: of_nat_xor_eq)
qed

lemma crc_entry_add: "j < 2 ^ k \<Longrightarrow> crc_entry (2 ^ k + j) = crc_entry (2 ^ k) XOR crc_entry j"
  by (simp only: crc_entry_def word_of_nat_xor crc_bits_xor)

lemma crc_entries_double:
  "map crc_entry [0..<2 ^ Suc k] =
   map crc_entry [0..<2 ^ k] @ map (\<lambda>x. crc_entry (2 ^ k) XOR x) (map crc_entry [0..<2 ^ k])"
proof -
  have "[0..<2 ^ Suc k] = [0..<2 ^ k] @ map (\<lambda>j. 2 ^ k + j) [0..<2 ^ k]"
    by (rule nth_equalityI) (auto simp: nth_append)
  then show ?thesis by (simp add: crc_entry_add)
qed

lemma crc_entry_powers:
  "crc_entry 1 = 0x77073096" "crc_entry 2 = 0xee0e612c" "crc_entry 4 = 0x076dc419" "crc_entry 8 = 0x0edb8832"
  "crc_entry 16 = 0x1db71064" "crc_entry 32 = 0x3b6e20c8" "crc_entry 64 = 0x76dc4190" "crc_entry 128 = 0xedb88320"
  by (simp_all add: crc_entry_def crc_bits8 crc_bit_def)

lemma crc_table_ok: "map crc_entry [0..<256] = crc32_tab"
proof -
  have z: "crc_entry 0 = 0" by (simp add: crc_entry_def crc_bits8 crc_bit_def)
  note d = crc_entries_double
  have t1: "map crc_entry [0..<2] = [0, 0x77073096]"
    using d [of 0] crc_entry_powers(1) by (simp add: z del: upt_rec_numeral)
  show ?thesis
    using d [of 1] d [of 2] d [of 3] d [of 4] d [of 5] d [of 6] d [of 7]
    by (simp add: z t1 crc_entry_powers crc32_tab_def del: upt_Suc upt_rec_numeral)
qed

lemma length_crc32_tab [simp]: "length crc32_tab = 256"
  by (subst crc_table_ok [symmetric]) simp

lemma crc32_tab_nth: "i < 256 \<Longrightarrow> crc32_tab ! i = crc_entry i"
  by (subst crc_table_ok [symmetric]) simp

section \<open>The table-driven step is the reference step\<close>

lemma crc_step_crc_byte: "crc_step c p = crc_byte c p"
proof -
  define x where "x = c XOR ucast p"
  define lo where "lo = x AND 0xff"
  define hi where "hi = x AND NOT 0xff"
  have ff: "(0xff :: u32) = mask 8" by (simp add: mask_eq_exp_minus_1)
  have split: "x = hi XOR lo"
    by (rule bit_word_eqI) (auto simp: hi_def lo_def bit_simps)
  have lo_eq: "(c XOR scast p) AND 0xff = lo"
    unfolding lo_def x_def ff
  proof (rule bit_word_eqI)
    fix n :: nat
    show "bit ((c XOR scast p) AND mask 8) n = bit ((c XOR ucast p) AND mask 8) n"
      by (cases "n = 7") (auto simp: bit_simps min_def)
  qed
  have "lo \<le> 0xff" unfolding lo_def by (rule word_and_le1)
  then have "unat lo \<le> unat (0xff :: u32)" by (simp only: word_le_nat_alt)
  then have lo: "unat lo < 256" by simp
  have "\<forall>i < 8. \<not> bit hi i" unfolding hi_def ff by (simp add: bit_simps)
  then have "(crc_bit ^^ 8) hi = drop_bit 8 hi" by (rule crc_bits_high)
  also have "\<dots> = drop_bit 8 c"
    unfolding hi_def x_def ff by (rule bit_word_eqI) (auto simp: bit_simps dest: bit_imp_le_length)
  finally have "crc_byte c p = drop_bit 8 c XOR (crc_bit ^^ 8) lo"
    by (simp add: crc_byte_def split crc_bits_xor flip: x_def)
  moreover have "crc_step c p = (crc_bit ^^ 8) lo XOR drop_bit 8 c"
    unfolding crc_step_def lo_eq using lo by (simp only: crc32_tab_nth crc_entry_def) simp
  ultimately show ?thesis by (simp add: xor.commute)
qed

lemma crc_loop_foldl: "crc_loop data crc = foldl crc_byte crc data"
  by (induction data arbitrary: crc) (simp_all add: crc_step_crc_byte)

lemma crc_loop_append: "crc_loop (xs @ ys) crc = crc_loop ys (crc_loop xs crc)"
  by (induction xs arbitrary: crc) simp_all

section \<open>The step is injective in the checksum and in the byte\<close>

text \<open>The polynomial has bit 31 set and a shift never does, so the lowest bit can be recovered.\<close>

lemma crc_bit_31: "bit (crc_bit c) 31 \<longleftrightarrow> bit c 0"
  using bit_imp_le_length [of c 32] by (auto simp: crc_bit_def bit_simps)

lemma xor_cancel: "u XOR v = u XOR w \<longleftrightarrow> v = w" "v XOR u = w XOR u \<longleftrightarrow> v = w" for u v w :: u32
proof -
  have c: "u XOR (u XOR v) = v" for u v :: u32 by (simp flip: xor.assoc)
  show "u XOR v = u XOR w \<longleftrightarrow> v = w" by (metis c)
  then show "v XOR u = w XOR u \<longleftrightarrow> v = w" by (simp add: xor.commute)
qed

lemma inj_crc_bit: "inj crc_bit"
proof (rule injI)
  fix a b assume e: "crc_bit a = crc_bit b"
  then have b0: "bit a 0 \<longleftrightarrow> bit b 0" using crc_bit_31 by metis
  have "drop_bit 1 a = drop_bit 1 b"
  proof (cases "bit a 0")
    case True
    then show ?thesis using e b0 by (simp add: crc_bit_def xor_cancel)
  next
    case False
    then show ?thesis using e b0 by (simp add: crc_bit_def)
  qed
  then have "bit a n \<longleftrightarrow> bit b n" for n
    using b0 by (cases n) (simp, metis bit_drop_bit_eq comp_apply plus_1_eq_Suc)
  then show "a = b" by (rule bit_eqI)
qed

lemma inj_crc_bits: "inj (crc_bit ^^ n)"
  by (rule inj_fn [OF inj_crc_bit])

lemma crc_byte_eq_iff:
  "crc_byte c p = crc_byte c q \<longleftrightarrow> p = q"
  "crc_byte a p = crc_byte b p \<longleftrightarrow> a = b"
proof -
  have "(ucast (ucast w :: u32) :: u8) = w" for w :: u8
    by (rule bit_word_eqI) (simp add: bit_simps)
  then have "(ucast p :: u32) = ucast q \<longleftrightarrow> p = q" by metis
  then show "crc_byte c p = crc_byte c q \<longleftrightarrow> p = q"
    using inj_crc_bits [of 8] by (simp add: crc_byte_def inj_eq xor_cancel)
  show "crc_byte a p = crc_byte b p \<longleftrightarrow> a = b"
    using inj_crc_bits [of 8] by (simp add: crc_byte_def inj_eq xor_cancel)
qed

lemma crc_loop_eq_iff: "crc_loop ps a = crc_loop ps b \<longleftrightarrow> a = b"
  by (induction ps arbitrary: a b) (simp_all add: crc_step_crc_byte crc_byte_eq_iff)

section \<open>Properties\<close>

text \<open>
  C37: \<open>crc32\<close>, computed with the 256-entry table of the source, is the reflected CRC with polynomial
  \<open>0xedb88320\<close>, initial value and final complement of all ones, computed bit by bit.
\<close>

theorem crc32_is_reference: "crc32 data = ref_crc32 data"
  by (simp add: crc32_def crc32_next_def ref_crc32_def crc_loop_foldl)

text \<open>
  The checksum can be computed in pieces: \<open>crc32_next\<close> of a second piece, started with the checksum
  of the first, is the checksum of both.
\<close>

lemma crc32_next_append: "crc32_next (xs @ ys) c = crc32_next ys (crc32_next xs c)"
  by (simp add: crc32_next_def crc_loop_append)

text \<open>C38: the checksum changes whenever a single byte of the data does, wherever it is.\<close>

theorem crc32_detects_byte: "crc32 (xs @ a # ys) = crc32 (xs @ b # ys) \<longleftrightarrow> a = b"
  by (simp add: crc32_def crc32_next_def crc_loop_append crc_loop_eq_iff crc_step_crc_byte crc_byte_eq_iff)

end
