(* ===== verification/Arith.thy ===== *)
theory Arith
  imports Prelude
begin

text \<open>
  The arithmetic helpers of \<^verbatim>\<open>util.c\<close> (\<open>roundup\<close>, \<open>rounddown\<close>, \<open>min_ull\<close>, \<open>max_ull\<close>,
  \<open>ROUND_UP\<close>) at their width of 64 bits, and when they compute the multiple they are meant to.
\<close>

definition roundup :: "u64 \<Rightarrow> u64 \<Rightarrow> u64" where
  "roundup value align = ((value - 1) div align + 1) * align"

definition rounddown :: "u64 \<Rightarrow> u64 \<Rightarrow> u64" where
  "rounddown value align = value - (value mod align)"

definition min_ull :: "u64 \<Rightarrow> u64 \<Rightarrow> u64" where
  "min_ull x y = (if x < y then x else y)"

definition max_ull :: "u64 \<Rightarrow> u64 \<Rightarrow> u64" where
  "max_ull x y = (if x > y then x else y)"

text \<open>The macro \<open>ROUND_UP(num, align)\<close>, for a power of two \<open>align\<close>.\<close>

definition ROUND_UP :: "u64 \<Rightarrow> u64 \<Rightarrow> u64" where
  "ROUND_UP num align = (num + (align - 1)) AND NOT (align - 1)"

lemma unat_min_ull [simp]: "unat (min_ull x y) = min (unat x) (unat y)"
  by (simp add: min_ull_def min_def word_less_nat_alt)

lemma unat_max_ull [simp]: "unat (max_ull x y) = max (unat x) (unat y)"
  by (simp add: max_ull_def max_def word_less_nat_alt)

lemma unat_rounddown: "unat (rounddown v a) = unat v - unat v mod unat a"
  by (simp add: rounddown_def unat_sub64 unat_mod64)

lemma rounddown_dvd: "unat a dvd unat (rounddown v a)"
  by (simp add: unat_rounddown minus_mod_eq_mult_div)

lemma rounddown_le: "rounddown v a \<le> v"
  by (simp add: word_le_nat_alt unat_rounddown)

text \<open>For a positive value that does not overflow, \<open>roundup\<close> is the ceiling multiple.\<close>

definition ceil_mult :: "nat \<Rightarrow> nat \<Rightarrow> nat" where
  "ceil_mult v a = (v + a - 1) div a * a"

lemma unat_pred: "v \<noteq> 0 \<Longrightarrow> unat (v - 1 :: u64) = unat v - 1"
  using unat_sub64 [of 1 v] unat_eq0 [of v] by (cases "unat v") auto

lemma roundup_unat:
  assumes "v \<noteq> 0" and "a \<noteq> 0" and "ceil_mult (unat v) (unat a) < 2 ^ 64"
  shows "unat (roundup v a) = ceil_mult (unat v) (unat a)"
proof -
  let ?v = "unat v" and ?a = "unat a"
  have pos: "0 < ?a" "0 < ?v" using assms(1,2) unat_eq0 by blast+
  have q: "(?v + ?a - 1) div ?a = (?v - 1) div ?a + 1"
  proof -
    have "?v + ?a - 1 = (?v - 1) + ?a" using pos by simp
    moreover have "(?v - 1 + ?a) div ?a = (?v - 1) div ?a + 1"
      using pos(1) by (simp only: div_add_self2)
    ultimately show ?thesis by (simp only:)
  qed
  have "unat (roundup v a) = ((unat (v - 1) div ?a + 1) * ?a) mod 2 ^ 64"
    by (simp add: roundup_def unat_word_ariths unat_div64 mod_simps)
  also have "\<dots> = ceil_mult ?v ?a mod 2 ^ 64"
    by (simp only: unat_pred [OF assms(1)] ceil_mult_def q)
  finally show ?thesis using assms(3) by simp
qed

lemma ceil_mult_ge: "0 < a \<Longrightarrow> v \<le> ceil_mult v a"
proof -
  assume a: "0 < a"
  have "v + a - 1 = ceil_mult v a + (v + a - 1) mod a"
    by (simp add: ceil_mult_def)
  moreover have "(v + a - 1) mod a < a" using a by simp
  ultimately show ?thesis by linarith
qed

lemma ceil_mult_lt: "0 < a \<Longrightarrow> ceil_mult v a < v + a"
proof -
  assume a: "0 < a"
  have "ceil_mult v a \<le> v + a - 1" by (simp add: ceil_mult_def)
  then show ?thesis using a by linarith
qed

lemma ceil_mult_dvd [simp]: "a dvd ceil_mult v a"
  by (simp add: ceil_mult_def)

lemma ceil_mult_eq: "0 < a \<Longrightarrow> a dvd v \<Longrightarrow> ceil_mult v a = v"
proof -
  assume a: "0 < a" and d: "a dvd v"
  obtain k where v: "v = a * k" using d by blast
  have "(v + a - 1) div a = k"
    by (rule div_nat_eqI) (use a v in simp_all)
  then show ?thesis by (simp add: ceil_mult_def v)
qed

text \<open>
  The value 0 is special: \<open>value - 1\<close> wraps to \<open>2 ^ 64 - 1\<close>, and the sum wraps back to 0 only when
  the alignment divides \<open>2 ^ 64\<close>, that is, when it is a power of two.
\<close>

lemma roundup_zero:
  assumes "a \<noteq> 0"
  shows "unat (roundup 0 a) = (if unat a dvd 2 ^ 64 then 0 else unat a - 2 ^ 64 mod unat a)"
proof -
  let ?a = "unat a" and ?r = "(2 ^ 64 :: nat) mod unat a" and ?q = "(2 ^ 64 - 1 :: nat) div unat a"
  have a0: "0 < ?a" using assms unat_eq0 by blast
  have lt: "?a < 2 ^ 64" by (rule unat_lt64)
  have "unat (- 1 :: u64) = 2 ^ 64 - 1" by (simp add: unsigned_minus_1_eq_mask mask_eq_exp_minus_1)
  then have e: "unat (roundup 0 a) = ((?q + 1) * ?a) mod 2 ^ 64"
    by (simp add: roundup_def unat_word_ariths unat_div64 mod_simps)
  have split: "(2 ^ 64 :: nat) = 2 ^ 64 div ?a * ?a + ?r" by simp
  show ?thesis
  proof (cases "?r = 0")
    case True
    then have d: "?a dvd 2 ^ 64" by blast
    then obtain k where k: "2 ^ 64 = ?a * k" by blast
    then have "0 < k" by (cases k) simp_all
    have "?q = k - 1"
    proof (rule div_nat_eqI)
      show "?a * (k - 1) \<le> 2 ^ 64 - 1"
        using k a0 \<open>0 < k\<close> by (cases k) (simp_all add: algebra_simps)
      show "2 ^ 64 - 1 < ?a * Suc (k - 1)"
        using k \<open>0 < k\<close> by simp
    qed
    then have "(?q + 1) * ?a = 2 ^ 64" using k \<open>0 < k\<close> by (simp add: mult.commute)
    then show ?thesis using e d by simp
  next
    case False
    define q where "q = (2 ^ 64 :: nat) div ?a"
    define r where "r = (2 ^ 64 :: nat) mod ?a"
    have N: "q * ?a + r = 2 ^ 64" unfolding q_def r_def by (rule div_mult_mod_eq)
    have r: "0 < r" "r < ?a" using False a0 unfolding r_def by simp_all
    have "?q = q"
      by (rule div_nat_eqI) (use N r in \<open>simp_all add: algebra_simps\<close>)
    then have "(?q + 1) * ?a = 2 ^ 64 + (?a - r)"
      using N r by (simp add: algebra_simps)
    moreover have "?a - r < 2 ^ 64" using lt by linarith
    ultimately have "((?q + 1) * ?a) mod 2 ^ 64 = ?a - r" by simp
    moreover have "\<not> ?a dvd 2 ^ 64" using False by (metis dvd_imp_mod_0)
    ultimately show ?thesis using e unfolding r_def by simp
  qed
qed

end
