(* ===== verification/CString.thy ===== *)
theory CString
  imports Arith
begin

text \<open>
  The C string functions that genimage relies on, and its own parsers built on them
  (\<^verbatim>\<open>util.c\<close>, \<^verbatim>\<open>config.c\<close>): \<open>strtoul_suffix\<close>, the UUID functions, \<open>parse_holes\<close>, and
  \<open>sanitize_path\<close> of \<^verbatim>\<open>genimage.c\<close>. A C string is a list of characters without the final NUL.
\<close>

section \<open>The library's conversions\<close>

definition isspace :: "char \<Rightarrow> bool" where
  "isspace c = (c = CHR '' '' \<or> 9 \<le> (of_char c :: nat) \<and> (of_char c :: nat) \<le> 13)"

text \<open>The value of a digit in the bases up to 36, as \<open>strtoull\<close> reads it.\<close>

definition digit_val :: "char \<Rightarrow> nat option" where
  "digit_val c = (let n = of_char c :: nat in
     if 48 \<le> n \<and> n \<le> 57 then Some (n - 48)
     else if 97 \<le> n \<and> n \<le> 122 then Some (n - 87)
     else if 65 \<le> n \<and> n \<le> 90 then Some (n - 55)
     else None)"

definition is_digit :: "nat \<Rightarrow> char \<Rightarrow> bool" where
  "is_digit base c = (case digit_val c of None \<Rightarrow> False | Some d \<Rightarrow> d < base)"

definition isxdigit :: "char \<Rightarrow> bool" where
  "isxdigit c = is_digit 16 c"

definition digits_val :: "nat \<Rightarrow> string \<Rightarrow> int" where
  "digits_val base ds = foldl (\<lambda>a c. a * int base + int (the (digit_val c))) 0 ds"

definition has_0x :: "string \<Rightarrow> bool" where
  "has_0x s = (case s of a # b # c # _ \<Rightarrow> a = CHR ''0'' \<and> (b = CHR ''x'' \<or> b = CHR ''X'') \<and> isxdigit c
     | _ \<Rightarrow> False)"

text \<open>
  \<open>strtoull(s, &end, base)\<close> for the bases 0 and 16: the value and the rest of the string. With no
  digits the rest is the whole string; a value of 2 ^ 64 or more becomes \<open>ULLONG_MAX\<close>; a minus
  sign negates modulo 2 ^ 64. On a 64-bit host \<open>strtoul\<close> is the same function.
\<close>

definition strtoull :: "nat \<Rightarrow> string \<Rightarrow> u64 \<times> string" where
  "strtoull base s =
     (let s1 = dropWhile isspace s;
          neg = (s1 \<noteq> [] \<and> hd s1 = CHR ''-'');
          s2 = (if s1 \<noteq> [] \<and> (hd s1 = CHR ''-'' \<or> hd s1 = CHR ''+'') then tl s1 else s1);
          b = (if base = 0 then (if has_0x s2 then 16 else if s2 \<noteq> [] \<and> hd s2 = CHR ''0'' then 8 else 10)
               else base);
          s3 = (if b = 16 \<and> has_0x s2 then drop 2 s2 else s2);
          ds = takeWhile (is_digit b) s3;
          n = digits_val b ds
      in if ds = [] then (0, s)
         else (if 18446744073709551616 \<le> n then - 1 else if neg then - word_of_int n else word_of_int n,
               dropWhile (is_digit b) s3))"

section \<open>Sizes with a suffix\<close>

text \<open>
  \<open>strtoul_suffix\<close>: \<open>want_percent\<close> says whether the caller passes a \<open>percent\<close> pointer. The result
  is the value, what \<open>*percent\<close> becomes, and where \<open>*endp\<close> would point. Nothing after the suffix
  is looked at. An unknown suffix ends the program with status 1.
\<close>

definition strtoul_suffix :: "bool \<Rightarrow> string \<Rightarrow> (u64 \<times> bool \<times> string) result" where
  "strtoul_suffix want_percent str =
     (case strtoull 0 str of (val, end) \<Rightarrow>
       (case end of
          [] \<Rightarrow> Inr (val, False, end)
        | c # rest \<Rightarrow>
            if c = CHR ''G'' then Inr (val * 1024 * 1024 * 1024, False, rest)
            else if c = CHR ''M'' then Inr (val * 1024 * 1024, False, rest)
            else if c = CHR ''k'' \<or> c = CHR ''K'' then Inr (val * 1024, False, rest)
            else if c = CHR ''s'' then Inr (val * 512, False, rest)
            else if c = CHR ''%'' \<and> want_percent then Inr (val, True, end)
            else Inl (Exit 1)))"

text \<open>\<open>cfg_getint_suffix\<close>: the string is what \<open>cfg_getstr\<close> returns, \<open>None\<close> for \<open>NULL\<close>.\<close>

definition cfg_getint_suffix :: "string option \<Rightarrow> u64 result" where
  "cfg_getint_suffix v =
     (case v of None \<Rightarrow> Inr 0
      | Some str \<Rightarrow> rbind (strtoul_suffix False str) (\<lambda>(val, _, _). Inr val))"

text \<open>
  \<open>cfg_getint_suffix_percent\<close>: the second component is what \<open>*percent\<close> holds afterwards, from the
  value \<open>p\<close> before; it is not written when the option is absent.
\<close>

definition cfg_getint_suffix_percent :: "string option \<Rightarrow> bool \<Rightarrow> (u64 \<times> bool) result" where
  "cfg_getint_suffix_percent v p =
     (case v of None \<Rightarrow> Inr (0, p)
      | Some str \<Rightarrow> rbind (strtoul_suffix True str) (\<lambda>(val, percent, _). Inr (val, percent)))"

section \<open>printf of numbers\<close>

fun dec :: "nat \<Rightarrow> string" where
  "dec n = (if n < 10 then [char_of (48 + n)] else dec (n div 10) @ [char_of (48 + n mod 10)])"

declare dec.simps [simp del]

text \<open>\<open>%04u\<close>: at least four characters, padded with zeros on the left.\<close>

definition dec_pad :: "nat \<Rightarrow> nat \<Rightarrow> string" where
  "dec_pad w n = replicate (w - length (dec n)) (CHR ''0'') @ dec n"

text \<open>\<open>%02x\<close>.\<close>

definition hex_digit :: "nat \<Rightarrow> char" where
  "hex_digit d = (if d < 10 then char_of (48 + d) else char_of (87 + d))"

definition hex2 :: "u8 \<Rightarrow> string" where
  "hex2 b = [hex_digit (unat b div 16), hex_digit (unat b mod 16)]"

section \<open>UUIDs\<close>

text \<open>\<open>uuid_validate\<close>: \<open>True\<close> for the return value 0, \<open>False\<close> for -1.\<close>

fun uuid_chars :: "nat \<Rightarrow> string \<Rightarrow> bool" where
  "uuid_chars i [] = True"
| "uuid_chars i (c # cs) =
     (if i = 8 \<or> i = 13 \<or> i = 18 \<or> i = 23
      then (if c \<noteq> CHR ''-'' then False else uuid_chars (Suc i) cs)
      else if \<not> isxdigit c then False else uuid_chars (Suc i) cs)"

definition uuid_validate :: "string \<Rightarrow> bool" where
  "uuid_validate str = (if length str \<noteq> 36 then False else uuid_chars 0 str)"

text \<open>\<open>uuid_byte\<close>: two characters, converted by \<open>strtoul\<close> in base 16; a NUL ends the buffer.\<close>

definition char_at :: "string \<Rightarrow> nat \<Rightarrow> string" where
  "char_at s i = (if i < length s then [s ! i] else [])"

definition uuid_byte :: "string \<Rightarrow> nat \<Rightarrow> u8" where
  "uuid_byte s i = ucast (fst (strtoull 16 (char_at s i @ (if i < length s then char_at s (Suc i) else []))))"

text \<open>
  \<open>uuid_parse\<close> reads the characters up to index 35 whatever the length of the string, so a string
  shorter than 35 characters is read out of bounds.
\<close>

definition uuid_parse :: "string \<Rightarrow> bytes result" where
  "uuid_parse s = (if length s < 35 then Inl Undefined else Inr
     [uuid_byte s 6, uuid_byte s 4, uuid_byte s 2, uuid_byte s 0,
      uuid_byte s 11, uuid_byte s 9,
      uuid_byte s 16, uuid_byte s 14,
      uuid_byte s 19, uuid_byte s 21,
      uuid_byte s 24, uuid_byte s 26, uuid_byte s 28, uuid_byte s 30, uuid_byte s 32, uuid_byte s 34])"

section \<open>Holes\<close>

record extent =
  ext_start :: u64
  ext_end :: u64

definition hole_char :: "char \<Rightarrow> bool" where
  "hole_char c = (c \<in> set ''0123456789skKMG'')"

definition expect :: "char \<Rightarrow> string \<Rightarrow> string option" where
  "expect c s = (case s of [] \<Rightarrow> None | x # xs \<Rightarrow> if x = c then Some xs else None)"

definition skip_ws :: "string \<Rightarrow> string" where
  "skip_ws s = dropWhile isspace s"

text \<open>
  The \<open>sscanf\<close> of \<open>parse_holes\<close>, format \<open>" ( %m[0-9skKMG] ; %m[0-9skKMG] ) %n"\<close>: \<open>None\<close> when fewer
  than two items are converted, otherwise the items and the rest after \<open>%n\<close>. The rest is \<open>None\<close> when
  the closing parenthesis is missing: two items are converted but \<open>%n\<close> is not reached.
\<close>

definition scan_hole :: "string \<Rightarrow> (string \<times> string \<times> string option) option" where
  "scan_hole s =
     (case expect (CHR ''('') (skip_ws s) of None \<Rightarrow> None | Some s1 \<Rightarrow>
       let s2 = skip_ws s1; a = takeWhile hole_char s2; s3 = skip_ws (dropWhile hole_char s2) in
       if a = [] then None else
       (case expect (CHR '';'') s3 of None \<Rightarrow> None | Some s4 \<Rightarrow>
         let s5 = skip_ws s4; b = takeWhile hole_char s5; s6 = skip_ws (dropWhile hole_char s5) in
         if b = [] then None else
         (case expect (CHR '')'') s6 of None \<Rightarrow> Some (a, b, None)
          | Some s7 \<Rightarrow> Some (a, b, Some (skip_ws s7)))))"

text \<open>One iteration of the loop. Without \<open>%n\<close> the test reads \<open>len\<close> uninitialised.\<close>

definition parse_hole :: "string \<Rightarrow> extent result" where
  "parse_hole s =
     (case scan_hole s of
        None \<Rightarrow> Inl EINVAL
      | Some (a, b, rest) \<Rightarrow>
          (case rest of
             None \<Rightarrow> Inl Undefined
           | Some r \<Rightarrow>
               if r \<noteq> [] then Inl EINVAL
               else rbind (strtoul_suffix False a) (\<lambda>(x, _, _).
                    rbind (strtoul_suffix False b) (\<lambda>(y, _, _).
                    Inr \<lparr>ext_start = x, ext_end = y\<rparr>))))"

text \<open>
  The loop over \<open>image->holes\<close>: the return value and the array. After an error the entries from the
  failing one on are still zero, and \<open>n_holes\<close> counts them.
\<close>

fun parse_holes_loop :: "string list \<Rightarrow> unit result \<times> extent list" where
  "parse_holes_loop [] = (Inr (), [])"
| "parse_holes_loop (s # ss) =
     (case parse_hole s of
        Inl e \<Rightarrow> (Inl e, replicate (Suc (length ss)) \<lparr>ext_start = 0, ext_end = 0\<rparr>)
      | Inr h \<Rightarrow> (case parse_holes_loop ss of (r, hs) \<Rightarrow> (r, h # hs)))"

text \<open>
  \<open>parse_holes\<close>: \<open>old\<close> is the image's array (\<open>n_holes\<close> its length), \<open>specs\<close> the strings of the
  option \<open>holes\<close> (\<open>None\<close> for \<open>cfg == NULL\<close>).
\<close>

definition parse_holes :: "extent list \<Rightarrow> string list option \<Rightarrow> unit result \<times> extent list" where
  "parse_holes old specs =
     (if old \<noteq> [] then (Inr (), old)
      else case specs of None \<Rightarrow> (Inr (), []) | Some ss \<Rightarrow> parse_holes_loop ss)"

section \<open>Paths\<close>

text \<open>\<open>sanitize_path\<close>: each pass of the loop replaces the next slash, found by \<open>strchr\<close>.\<close>

fun sanitize_path :: "string \<Rightarrow> string" where
  "sanitize_path [] = []"
| "sanitize_path (c # cs) = (if c = CHR ''/'' then CHR ''-'' # sanitize_path cs else c # sanitize_path cs)"

section \<open>Digits\<close>

lemma code_hex_digit: "d < 16 \<Longrightarrow> (of_char (hex_digit d) :: nat) = (if d < 10 then 48 + d else 87 + d)"
  by (simp add: hex_digit_def)

lemma char_neq_code: "(of_char c :: nat) \<noteq> of_char c' \<Longrightarrow> c \<noteq> c'"
  by blast

lemma hex_digit_facts:
  assumes "d < 16"
  shows "digit_val (hex_digit d) = Some d" "\<not> isspace (hex_digit d)" "hex_digit d \<noteq> CHR ''-''"
    "hex_digit d \<noteq> CHR ''+''" "hex_digit d \<noteq> CHR ''x''" "hex_digit d \<noteq> CHR ''X''"
proof -
  note c = code_hex_digit [OF assms]
  show "digit_val (hex_digit d) = Some d" using assms by (simp add: digit_val_def Let_def c)
  have "hex_digit d \<noteq> CHR '' ''" by (rule char_neq_code) (simp add: c)
  then show "\<not> isspace (hex_digit d)" by (simp add: isspace_def c)
  show "hex_digit d \<noteq> CHR ''-''" "hex_digit d \<noteq> CHR ''+''" "hex_digit d \<noteq> CHR ''x''"
    "hex_digit d \<noteq> CHR ''X''" by (rule char_neq_code, use assms in \<open>simp add: c\<close>)+
qed

lemma int_div_mod: "int (n div k) * int k + int (n mod k) = int n"
  by (metis div_mult_mod_eq of_nat_add of_nat_mult)

lemma isxdigit_hex_digit [simp]: "d < 16 \<Longrightarrow> isxdigit (hex_digit d)"
  by (simp add: isxdigit_def is_digit_def hex_digit_facts)

lemma dec_unfold:
  "dec n = (if n < 10 then [hex_digit n] else dec (n div 10) @ [hex_digit (n mod 10)])"
  by (subst dec.simps) (simp add: hex_digit_def)

lemma dec_nonempty [simp]: "dec n \<noteq> []"
  by (subst dec_unfold) simp

lemma dec_digits: "c \<in> set (dec n) \<Longrightarrow> \<exists>d < 10. c = hex_digit d"
proof (induction n rule: dec.induct)
  case (1 n)
  then show ?case
    by (cases "n < 10") (auto simp: dec_unfold [of n], metis mod_less_divisor zero_less_numeral)
qed

lemma dec_value: "digits_val 10 (dec n) = int n"
proof (induction n rule: dec.induct)
  case (1 n)
  show ?case
  proof (cases "n < 10")
    case True
    then show ?thesis by (subst dec_unfold) (simp add: digits_val_def hex_digit_facts)
  next
    case False
    then have "digits_val 10 (dec (n div 10)) = int (n div 10)" by (rule 1)
    with False show ?thesis
      using int_div_mod [of n 10] by (subst dec_unfold) (simp add: digits_val_def hex_digit_facts)
  qed
qed

lemma hd_dec: "hd (dec n) = hex_digit 0 \<longleftrightarrow> n = 0"
proof (induction n rule: dec.induct)
  case (1 n)
  show ?case
  proof (cases "n < 10")
    case True
    have inj: "hex_digit n = hex_digit 0 \<longleftrightarrow> n = 0"
      using hex_digit_facts(1) [of n] hex_digit_facts(1) [of 0] True by auto
    show ?thesis using True inj by (subst dec_unfold) simp
  next
    case False
    then have "hd (dec n) = hd (dec (n div 10))" by (subst dec_unfold) simp
    moreover have "n div 10 \<noteq> 0" "n \<noteq> 0" using False by auto
    ultimately show ?thesis using 1 False by simp
  qed
qed

lemma hex_digit_0: "hex_digit 0 = CHR ''0''"
  by code_simp

lemma is_digit_dec: "c \<in> set (dec n) \<Longrightarrow> is_digit 10 c"
  using dec_digits [of c n] by (auto simp: is_digit_def hex_digit_facts)

text \<open>A decimal number that does not start a hexadecimal one is read back.\<close>

lemma strtoull_dec:
  assumes suf: "suf = [] \<or> \<not> is_digit 10 (hd suf) \<and> hd suf \<noteq> CHR ''x'' \<and> hd suf \<noteq> CHR ''X''"
    and n: "n < 2 ^ 64"
  shows "strtoull 0 (dec n @ suf) = (word_of_nat n, suf)"
proof -
  obtain c cs where cs: "dec n = c # cs" by (cases "dec n") simp_all
  then obtain d where d: "d < 10" "c = hex_digit d" using dec_digits [of c n] by auto
  have c: "\<not> isspace c" "c \<noteq> CHR ''-''" "c \<noteq> CHR ''+''" using d hex_digit_facts [of d] by simp_all
  have hd0: "c = CHR ''0'' \<longleftrightarrow> n = 0" using hd_dec [of n] cs by (simp add: hex_digit_0)
  have all10: "list_all (is_digit 10) (dec n)" using is_digit_dec by (simp add: list_all_iff)
  have no0x: "\<not> has_0x (dec n @ suf)"
  proof
    assume h: "has_0x (dec n @ suf)"
    then have "c = CHR ''0''" by (simp add: has_0x_def cs split: list.splits)
    then have "n = 0" using hd0 by simp
    then have "dec n = [CHR ''0'']" by (subst dec_unfold) (simp add: hex_digit_0)
    with h suf show False by (auto simp: has_0x_def split: list.splits)
  qed
  define b where "b = (if n = 0 then 8 else 10 :: nat)"
  have allb: "list_all (is_digit b) (dec n)"
  proof (cases "n = 0")
    case True
    then show ?thesis
      by (simp add: b_def) (subst dec_unfold, simp add: is_digit_def hex_digit_facts)
  qed (use all10 in \<open>simp add: b_def\<close>)
  have sufb: "suf = [] \<or> \<not> is_digit b (hd suf)"
    using suf by (auto simp: b_def is_digit_def split: option.splits)
  have tk: "takeWhile (is_digit b) (dec n @ suf) = dec n"
    using allb sufb by (cases suf) (simp_all add: list_all_iff)
  have dr: "dropWhile (is_digit b) (dec n @ suf) = suf"
    using allb sufb by (cases suf) (simp_all add: list_all_iff)
  have val: "digits_val b (dec n) = int n"
  proof (cases "n = 0")
    case True
    then show ?thesis
      by (simp add: b_def) (subst dec_unfold, simp add: digits_val_def hex_digit_facts)
  qed (simp add: b_def dec_value)
  show ?thesis
    using tk dr val no0x c hd0 n cs by (simp add: strtoull_def Let_def b_def)
qed

text \<open>The factor of each accepted suffix.\<close>

definition size_unit :: "string \<Rightarrow> nat option" where
  "size_unit suf = (if suf = [] then Some 1 else if suf = ''s'' then Some 512
     else if suf = ''k'' \<or> suf = ''K'' then Some (2 ^ 10)
     else if suf = ''M'' then Some (2 ^ 20) else if suf = ''G'' then Some (2 ^ 30) else None)"

section \<open>Hexadecimal bytes\<close>

lemma nibbles: "unat (b :: u8) div 16 < 16" "unat (b :: u8) mod 16 < 16"
  using unsigned_less [where ?'a = nat, of b] by (simp_all add: less_mult_imp_div_less)

lemma strtoull_hex2: "strtoull 16 (hex2 b) = (word_of_nat (unat b), [])"
proof -
  let ?h = "hex_digit (unat b div 16)" and ?l = "hex_digit (unat b mod 16)"
  note f = nibbles [of b]
  have v: "digits_val 16 [?h, ?l] = int (unat b)"
    using int_div_mod [of "unat b" 16] by (simp add: digits_val_def hex_digit_facts f)
  have lt: "uint b < 18446744073709551616"
    using unsigned_less [where ?'a = int, of b] by simp
  have d: "is_digit 16 ?h" "is_digit 16 ?l"
    using f by (simp_all add: is_digit_def hex_digit_facts)
  have nox: "\<not> has_0x [?h, ?l]" by (simp add: has_0x_def)
  show ?thesis
    using v d nox lt hex_digit_facts [OF f(1)]
    by (simp add: strtoull_def hex2_def Let_def)
qed

lemma ucast_ucast_byte: "ucast (ucast b :: u64) = (b :: u8)"
  by (rule bit_word_eqI) (simp add: bit_simps)

lemma uuid_byte_hex2:
  "Suc i < length s \<Longrightarrow> s ! i = hex_digit (unat b div 16) \<Longrightarrow> s ! Suc i = hex_digit (unat b mod 16) \<Longrightarrow>
   uuid_byte s i = b"
  using strtoull_hex2 [of b] ucast_ucast_byte [of b] by (simp add: uuid_byte_def char_at_def hex2_def)

text \<open>The canonical text of a UUID whose first three groups are stored little-endian.\<close>

definition uuid_text :: "bytes \<Rightarrow> string" where
  "uuid_text u =
     hex2 (u ! 3) @ hex2 (u ! 2) @ hex2 (u ! 1) @ hex2 (u ! 0) @ ''-'' @
     hex2 (u ! 5) @ hex2 (u ! 4) @ ''-'' @ hex2 (u ! 7) @ hex2 (u ! 6) @ ''-'' @
     hex2 (u ! 8) @ hex2 (u ! 9) @ ''-'' @
     hex2 (u ! 10) @ hex2 (u ! 11) @ hex2 (u ! 12) @ hex2 (u ! 13) @ hex2 (u ! 14) @ hex2 (u ! 15)"

lemma length_hex2 [simp]: "length (hex2 b) = 2"
  by (simp add: hex2_def)

lemma length_uuid_text [simp]: "length (uuid_text u) = 36"
  by (simp add: uuid_text_def)

lemma uuid_validate_text: "uuid_validate (uuid_text u)"
  by (simp add: uuid_validate_def) (simp add: uuid_text_def hex2_def nibbles)

lemma uuid_parse_text_bytes:
  "uuid_parse (uuid_text u) = Inr
     [u ! 0, u ! 1, u ! 2, u ! 3, u ! 4, u ! 5, u ! 6, u ! 7,
      u ! 8, u ! 9, u ! 10, u ! 11, u ! 12, u ! 13, u ! 14, u ! 15]"
proof -
  have t: "uuid_text u ! i = (hex2 (u ! 3) @ hex2 (u ! 2) @ hex2 (u ! 1) @ hex2 (u ! 0) @ ''-'' @
     hex2 (u ! 5) @ hex2 (u ! 4) @ ''-'' @ hex2 (u ! 7) @ hex2 (u ! 6) @ ''-'' @
     hex2 (u ! 8) @ hex2 (u ! 9) @ ''-'' @
     hex2 (u ! 10) @ hex2 (u ! 11) @ hex2 (u ! 12) @ hex2 (u ! 13) @ hex2 (u ! 14) @ hex2 (u ! 15)) ! i"
    for i by (simp add: uuid_text_def)
  have b: "uuid_byte (uuid_text u) i = u ! k"
    if "Suc i < 36" "uuid_text u ! i = hex_digit (unat (u ! k) div 16)"
      "uuid_text u ! Suc i = hex_digit (unat (u ! k) mod 16)" for i k
    using that by (intro uuid_byte_hex2) simp_all
  show ?thesis
    by (simp add: uuid_parse_def) (intro conjI b; simp add: t hex2_def)
qed

lemma list16:
  "length u = 16 \<Longrightarrow>
   u = [u ! 0, u ! 1, u ! 2, u ! 3, u ! 4, u ! 5, u ! 6, u ! 7,
      u ! 8, u ! 9, u ! 10, u ! 11, u ! 12, u ! 13, u ! 14, u ! 15]"
  by (rule nth_equalityI) (auto simp: less_Suc_eq numeral_eq_Suc)

end
