(* ===== verification/Random32.thy ===== *)
theory Random32
  imports Crc32 CString
begin

text \<open>
  \<^verbatim>\<open>random32.c\<close>: the xorwow generator, its seeding, and the switch between it and the C library's
  \<open>random()\<close>; and \<open>uuid_random\<close> of \<^verbatim>\<open>util.c\<close>, which draws from it.
\<close>

section \<open>The generator\<close>

record prng_state =
  lane0 :: u32
  lane1 :: u32
  lane2 :: u32
  lane3 :: u32
  lane4 :: u32
  counter :: u32

definition prng_getrandom :: "prng_state \<Rightarrow> u32 \<times> prng_state" where
  "prng_getrandom st =
     (let b0 = lane4 st;
          b1 = b0 XOR drop_bit 2 b0;
          b2 = b1 XOR push_bit 1 b1;
          b3 = b2 XOR (lane0 st XOR push_bit 4 (lane0 st));
          cnt = counter st + 0x587C5
      in (b3 + cnt,
          \<lparr>lane0 = b3, lane1 = lane0 st, lane2 = lane1 st, lane3 = lane2 st, lane4 = lane3 st,
           counter = cnt\<rparr>))"

definition prng_step :: "prng_state \<Rightarrow> prng_state" where
  "prng_step st = snd (prng_getrandom st)"

definition prng_seed :: "u32 \<Rightarrow> prng_state" where
  "prng_seed seed =
     (prng_step ^^ 8)
       \<lparr>lane0 = 1 + (seed AND 0x0FFFFFFF),
        lane1 = 2 + (seed AND 0xFF0FFFFF),
        lane2 = 3 + (seed AND 0xFFF00FFF),
        lane3 = 4 + (seed AND 0xFFFFF0FF),
        lane4 = 5 + (seed AND 0xFFFFFFF0),
        counter = seed\<rparr>"

text \<open>
  The static state of the file, with the C library's generator: \<open>libc_random s i\<close> is the \<open>i\<close>-th value
  that \<open>random()\<close> returns after \<open>srandom(s)\<close>.
\<close>

record rng =
  prng :: prng_state
  prng_active :: bool
  libc_seed :: u32
  libc_pos :: nat
  libc_random :: "u32 \<Rightarrow> nat \<Rightarrow> u32"

text \<open>A generator for concrete runs.\<close>

definition demo_rng :: rng where
  "demo_rng = \<lparr>prng = prng_seed 1, prng_active = False, libc_seed = 0, libc_pos = 0, libc_random = (\<lambda>_ _. 7)\<rparr>"

definition random32_init :: "u32 \<Rightarrow> rng \<Rightarrow> rng" where
  "random32_init tv_usec g = g\<lparr>libc_seed := tv_usec, libc_pos := 0, prng_active := False\<rparr>"

definition random32_enable_prng :: "bytes \<Rightarrow> rng \<Rightarrow> rng" where
  "random32_enable_prng seed g = g\<lparr>prng := prng_seed (crc32 seed), prng_active := True\<rparr>"

definition random32 :: "rng \<Rightarrow> u32 \<times> rng" where
  "random32 g =
     (if prng_active g
      then (case prng_getrandom (prng g) of (r, st) \<Rightarrow> (r, g\<lparr>prng := st\<rparr>))
      else (libc_random g (libc_seed g) (libc_pos g), g\<lparr>libc_pos := Suc (libc_pos g)\<rparr>))"

section \<open>uuid_random\<close>

text \<open>
  \<open>uuid_random\<close> formats eight draws with \<open>"%04ux%04ux-%04ux-%04ux-%04ux-%04ux%04ux%04ux"\<close>: each
  conversion is decimal and is followed by the letter x. C leaves the order in which the eight
  arguments are evaluated open; the model evaluates them from left to right.
\<close>

definition ux :: "u32 \<Rightarrow> string" where
  "ux v = dec_pad 4 (unat v) @ ''x''"

definition uuid_format :: "u32 list \<Rightarrow> string" where
  "uuid_format r =
     ux (r ! 0 AND 0xffff) @ ux (r ! 1 AND 0xffff) @ ''-'' @
     ux (r ! 2 AND 0xffff) @ ''-'' @
     ux ((r ! 3 AND 0x0fff) OR 0x4000) @ ''-'' @
     ux ((r ! 4 AND 0x3fff) OR 0x8000) @ ''-'' @
     ux (r ! 5 AND 0xffff) @ ux (r ! 6 AND 0xffff) @ ux (r ! 7 AND 0xffff)"

fun draws :: "nat \<Rightarrow> rng \<Rightarrow> u32 list \<times> rng" where
  "draws 0 g = ([], g)"
| "draws (Suc n) g =
     (case random32 g of (r, g1) \<Rightarrow> (case draws n g1 of (rs, g2) \<Rightarrow> (r # rs, g2)))"

definition uuid_random :: "rng \<Rightarrow> string \<times> rng" where
  "uuid_random g = (case draws 8 g of (rs, g') \<Rightarrow> (uuid_format rs, g'))"

section \<open>The lanes never all become zero\<close>

definition lanes_ok :: "prng_state \<Rightarrow> bool" where
  "lanes_ok st \<longleftrightarrow> \<not> (lane0 st = 0 \<and> lane1 st = 0 \<and> lane2 st = 0 \<and> lane3 st = 0 \<and> lane4 st = 0)"

lemma xor_eq_0: "x XOR y = 0 \<longleftrightarrow> x = (y :: u32)"
  using xor_cancel(1) [of y x y] by (auto simp: xor.commute)

lemma shift_fix:
  assumes "push_bit 1 x = (x :: u32)" shows "x = 0"
proof (rule bit_word_eqI)
  fix n assume "n < LENGTH(32)"
  have "\<not> bit x n"
  proof (induction n)
    case 0
    have "bit x 0 = bit (push_bit 1 x) 0" by (simp only: assms)
    then show ?case by (simp only: bit_push_bit_iff) simp
  next
    case (Suc n)
    have "bit x (Suc n) = bit (push_bit 1 x) (Suc n)" by (simp only: assms)
    then show ?case using Suc by (simp only: bit_push_bit_iff) simp
  qed
  then show "bit x n = bit 0 n" by simp
qed

lemma drop_fix:
  assumes "drop_bit 2 x = (x :: u32)" shows "x = 0"
proof (rule ccontr)
  assume "x \<noteq> 0"
  then have "0 < unat x" using unat_eq0 by blast
  moreover have "unat x = unat x div 4"
    using arg_cong [OF assms, of unat] by (simp add: drop_bit_eq_div unat_div_distrib)
  ultimately show False by linarith
qed

lemma prng_step_lanes_ok: "lanes_ok st \<Longrightarrow> lanes_ok (prng_step st)"
proof (rule ccontr)
  assume ok: "lanes_ok st" and "\<not> lanes_ok (prng_step st)"
  then have z: "lane0 st = 0" "lane1 st = 0" "lane2 st = 0" "lane3 st = 0"
    and t: "(lane4 st XOR drop_bit 2 (lane4 st)) XOR push_bit 1 (lane4 st XOR drop_bit 2 (lane4 st)) = 0"
    by (auto simp: lanes_ok_def prng_step_def prng_getrandom_def Let_def simp del: push_bit_xor push_bit_numeral)
  have "lane4 st XOR drop_bit 2 (lane4 st) = 0"
    using t by (intro shift_fix) (metis xor_eq_0)
  then have "lane4 st = 0" by (intro drop_fix) (metis xor_eq_0)
  with ok z show False by (simp add: lanes_ok_def)
qed

lemma seed_lane0: "1 + (seed AND 0x0FFFFFFF :: u32) \<noteq> 0"
proof
  assume z: "1 + (seed AND 0x0FFFFFFF :: u32) = 0"
  then have "seed AND 0x0FFFFFFF = - 1" by (metis add.inverse_unique)
  then have "unat (seed AND 0x0FFFFFFF) = unat (- 1 :: u32)" by (rule arg_cong)
  moreover have "unat (seed AND 0x0FFFFFFF) \<le> unat (0x0FFFFFFF :: u32)"
    unfolding word_le_nat_alt [symmetric] by (rule word_and_le1)
  ultimately show False by (simp add: unsigned_minus_1_eq_mask mask_eq_exp_minus_1)
qed

lemma funpow_lanes_ok: "lanes_ok st \<Longrightarrow> lanes_ok ((prng_step ^^ n) st)"
  by (induction n) (simp_all add: prng_step_lanes_ok)

lemma length_dec_pad: "w \<le> length (dec_pad w n)"
  by (simp add: dec_pad_def)

lemma length_uuid_format: "44 \<le> length (uuid_format r)"
proof -
  have u: "5 \<le> length (ux v)" for v using length_dec_pad [of 4 "unat v"] by (simp add: ux_def)
  have "length (uuid_format r) = 4 +
     (length (ux (r ! 0 AND 0xffff)) + length (ux (r ! 1 AND 0xffff)) + length (ux (r ! 2 AND 0xffff))
      + length (ux ((r ! 3 AND 0x0fff) OR 0x4000)) + length (ux ((r ! 4 AND 0x3fff) OR 0x8000))
      + length (ux (r ! 5 AND 0xffff)) + length (ux (r ! 6 AND 0xffff)) + length (ux (r ! 7 AND 0xffff)))"
    by (simp add: uuid_format_def)
  then show ?thesis
    using u [of "r ! 0 AND 0xffff"] u [of "r ! 1 AND 0xffff"] u [of "r ! 2 AND 0xffff"]
      u [of "(r ! 3 AND 0x0fff) OR 0x4000"] u [of "(r ! 4 AND 0x3fff) OR 0x8000"]
      u [of "r ! 5 AND 0xffff"] u [of "r ! 6 AND 0xffff"] u [of "r ! 7 AND 0xffff"]
    by linarith
qed

section \<open>Properties\<close>

text \<open>
  C39: whatever the seed, after seeding and after any number of draws the five lanes of the xorwow
  generator are not all zero, the one state from which it would only count.
\<close>

theorem prng_never_stuck: "lanes_ok ((prng_step ^^ n) (prng_seed seed))"
proof -
  have "lanes_ok \<lparr>lane0 = 1 + (seed AND 0x0FFFFFFF), lane1 = 2 + (seed AND 0xFF0FFFFF),
     lane2 = 3 + (seed AND 0xFFF00FFF), lane3 = 4 + (seed AND 0xFFFFF0FF),
     lane4 = 5 + (seed AND 0xFFFFFFF0), counter = seed\<rparr>"
    using seed_lane0 [of seed] by (simp add: lanes_ok_def)
  then show ?thesis
    unfolding prng_seed_def by (intro funpow_lanes_ok)
qed

text \<open>
  C40: no string that \<open>uuid_random\<close> produces is a UUID: the format prints decimal numbers each followed
  by an x, at least 44 characters in all, and \<open>uuid_validate\<close> rejects every such string.
\<close>

theorem uuid_random_never_valid: "\<not> uuid_validate (fst (uuid_random g))"
proof -
  obtain rs g' where "draws 8 g = (rs, g')" by (cases "draws 8 g")
  then show ?thesis
    using length_uuid_format [of rs] by (simp add: uuid_random_def uuid_validate_def)
qed

end
