(* ===== verification/Files.thy ===== *)
theory Files
  imports Random32
begin

text \<open>
  The files that genimage writes, and the system calls it uses on them. A file is its length and
  its bytes; the calls may fail or transfer fewer bytes than asked for, as the \<open>script\<close> of the world
  says, so every error path of the code is a branch of the model. The last part is the interface
  \<open>byte_store\<close> (reading back what was written), interpreted on the files of the model.
\<close>

section \<open>Files and the world\<close>

datatype fkind = Regular | BlockDev

record inode =
  fkind :: fkind
  fsize :: nat
  fdata :: "nat \<Rightarrow> u8"

text \<open>
  What happens at a system call: it succeeds, it fails and sets \<open>errno\<close> to \<open>Suc n\<close> (never 0), or it
  transfers at most \<open>Suc n\<close> bytes.
\<close>

datatype fault = Pass | Fail nat | Short nat

text \<open>
  \<open>fs\<close> maps a path to its file; \<open>errno\<close> is the C variable; \<open>script\<close> and \<open>clock\<close> give the fate of the
  next system call; \<open>cmds\<close> records the shell commands run so far; \<open>rand\<close> is the state of the random number
  generator.
\<close>

record world =
  fs :: "string \<Rightarrow> inode option"
  errno :: nat
  clock :: nat
  script :: "nat \<Rightarrow> fault"
  cmds :: "string list"
  rand :: rng

type_synonym 'a io = "world \<Rightarrow> 'a result \<times> world"

definition ret :: "'a \<Rightarrow> 'a io" where
  "ret x w = (Inr x, w)"

definition throw :: "error \<Rightarrow> 'a io" where
  "throw e w = (Inl e, w)"

definition bind_io :: "'a io \<Rightarrow> ('a \<Rightarrow> 'b io) \<Rightarrow> 'b io" where
  "bind_io m f w = (case m w of (Inl e, w') \<Rightarrow> (Inl e, w') | (Inr x, w') \<Rightarrow> f x w')"

definition lift_io :: "'a result \<Rightarrow> 'a io" where
  "lift_io r w = (r, w)"

text \<open>Run \<open>m\<close>, then the clean-up \<open>c\<close>, whose result is ignored; the result is that of \<open>m\<close>.\<close>

definition finally_io :: "'a io \<Rightarrow> unit io \<Rightarrow> 'a io" where
  "finally_io m c w = (case m w of (r, w') \<Rightarrow> (r, snd (c w')))"

text \<open>Run \<open>m\<close> and hand its outcome, success or error, to \<open>f\<close>.\<close>

definition try_io :: "'a io \<Rightarrow> ('a result \<Rightarrow> 'b io) \<Rightarrow> 'b io" where
  "try_io m f w = (case m w of (r, w') \<Rightarrow> f r w')"

lemma ret_ok [io_ok]: "ret x w = (Inr y, w') \<longleftrightarrow> y = x \<and> w' = w"
  by (auto simp: ret_def)

lemma throw_ok [io_ok]: "throw e w = (Inr y, w') \<longleftrightarrow> False"
  by (simp add: throw_def)

lemma lift_io_ok [io_ok]: "lift_io r w = (Inr y, w') \<longleftrightarrow> r = Inr y \<and> w' = w"
  by (auto simp: lift_io_def)

lemma bind_io_ok [io_ok]:
  "bind_io m f w = (Inr y, w') \<longleftrightarrow> (\<exists>x w1. m w = (Inr x, w1) \<and> f x w1 = (Inr y, w'))"
  by (auto simp: bind_io_def split: prod.splits sum.splits)

lemma finally_io_ok [io_ok]:
  "finally_io m c w = (r, w') \<longleftrightarrow> (\<exists>w1. m w = (r, w1) \<and> w' = snd (c w1))"
  by (auto simp: finally_io_def split: prod.splits)

lemma try_io_ok [io_ok]:
  "try_io m f w = (r, w') \<longleftrightarrow> (\<exists>x w1. m w = (x, w1) \<and> f x w1 = (r, w'))"
  by (auto simp: try_io_def split: prod.splits)

section \<open>System calls\<close>

definition the_fault :: "world \<Rightarrow> fault" where
  "the_fault w = script w (clock w)"

definition tick :: "world \<Rightarrow> world" where
  "tick w = w\<lparr>clock := Suc (clock w)\<rparr>"

definition fail :: "nat \<Rightarrow> 'a io" where
  "fail e w = (Inl (Errno e), w\<lparr>errno := e\<rparr>)"

definition syscall :: "'a io \<Rightarrow> 'a io" where
  "syscall act w = (case the_fault w of Fail n \<Rightarrow> fail (Suc n) (tick w) | _ \<Rightarrow> act (tick w))"

definition with_file :: "string \<Rightarrow> (inode \<Rightarrow> 'a io) \<Rightarrow> 'a io" where
  "with_file path f w = (case fs w path of None \<Rightarrow> fail 2 w | Some x \<Rightarrow> f x w)"

definition set_file :: "string \<Rightarrow> inode \<Rightarrow> world \<Rightarrow> world" where
  "set_file path x w = w\<lparr>fs := (fs w)(path \<mapsto> x)\<rparr>"

text \<open>The number of bytes a transfer of \<open>n\<close> bytes moves when \<open>room\<close> are possible.\<close>

definition amount :: "fault \<Rightarrow> nat \<Rightarrow> nat \<Rightarrow> nat" where
  "amount f room n = (case f of Short k \<Rightarrow> min (Suc k) (min room n) | _ \<Rightarrow> min room n)"

definition sys_stat :: "string \<Rightarrow> inode io" where
  "sys_stat path = syscall (with_file path ret)"

text \<open>A file offset is a signed 64-bit number; a file does not grow beyond the largest one.\<close>

definition off_max :: nat where "off_max = 2 ^ 63 - 1"

text \<open>A 64-bit value whose top bit is set is negative as an \<open>off_t\<close>.\<close>

definition neg_off :: "u64 \<Rightarrow> bool" where "neg_off off = (off_max < unat off)"

definition limit :: "inode \<Rightarrow> nat" where
  "limit x = (case fkind x of Regular \<Rightarrow> off_max | BlockDev \<Rightarrow> fsize x)"

definition write_at :: "nat \<Rightarrow> bytes \<Rightarrow> inode \<Rightarrow> inode" where
  "write_at off bs x =
     (if bs = [] then x
      else x\<lparr>fsize := max (fsize x) (off + length bs),
             fdata := (\<lambda>i. if off \<le> i \<and> i < off + length bs then bs ! (i - off) else fdata x i)\<rparr>)"

text \<open>\<open>pwrite\<close>: EINVAL for a negative offset; EFBIG (or ENOSPC on a device) when no byte fits.\<close>

definition sys_pwrite :: "string \<Rightarrow> bytes \<Rightarrow> u64 \<Rightarrow> nat io" where
  "sys_pwrite path bs off w =
     syscall (with_file path (\<lambda>x w'.
       if neg_off off then fail 22 w'
       else let room = limit x - unat off; n = amount (the_fault w) room (length bs) in
         if bs \<noteq> [] \<and> room = 0 then fail (if fkind x = Regular then 27 else 28) w'
         else (Inr n, set_file path (write_at (unat off) (take n bs) x) w'))) w"

text \<open>\<open>pread\<close>: the bytes read; an empty result at or after the end of the file.\<close>

definition sys_pread :: "string \<Rightarrow> nat \<Rightarrow> u64 \<Rightarrow> bytes io" where
  "sys_pread path n off w =
     syscall (with_file path (\<lambda>x w'.
       if neg_off off then fail 22 w'
       else let k = amount (the_fault w) (fsize x - unat off) n in
         (Inr (map (fdata x) [unat off..<unat off + k]), w'))) w"

definition resize :: "nat \<Rightarrow> inode \<Rightarrow> inode" where
  "resize n x = x\<lparr>fsize := n, fdata := (\<lambda>i. if i < n \<and> i < fsize x then fdata x i else 0)\<rparr>"

definition sys_ftruncate :: "string \<Rightarrow> u64 \<Rightarrow> unit io" where
  "sys_ftruncate path sz = syscall (with_file path (\<lambda>x w.
     if fkind x \<noteq> Regular \<or> neg_off sz then fail 22 w
     else (Inr (), set_file path (resize (unat sz) x) w)))"

text \<open>\<open>fallocate(FALLOC_FL_PUNCH_HOLE | FALLOC_FL_KEEP_SIZE)\<close>.\<close>

definition punch :: "nat \<Rightarrow> nat \<Rightarrow> inode \<Rightarrow> inode" where
  "punch off n x = x\<lparr>fdata := (\<lambda>i. if off \<le> i \<and> i < off + n then 0 else fdata x i)\<rparr>"

definition sys_punch_hole :: "string \<Rightarrow> u64 \<Rightarrow> u64 \<Rightarrow> unit io" where
  "sys_punch_hole path off sz = syscall (with_file path (\<lambda>x w.
     if neg_off off \<or> neg_off sz \<or> sz = 0 then fail 22 w
     else (Inr (), set_file path (punch (unat off) (unat sz) x) w)))"

definition empty_file :: inode where
  "empty_file = \<lparr>fkind = Regular, fsize = 0, fdata = (\<lambda>_. 0)\<rparr>"

text \<open>
  \<open>open\<close> for writing, with \<open>O_CREAT\<close> and \<open>O_TRUNC\<close>. The permission and \<open>O_EXCL\<close> checks are among the
  failures of the script.
\<close>

definition sys_open_w :: "string \<Rightarrow> bool \<Rightarrow> bool \<Rightarrow> unit io" where
  "sys_open_w path creat trunc = syscall (\<lambda>w.
     (case fs w path of
        None \<Rightarrow> if creat then (Inr (), set_file path empty_file w) else fail 2 w
      | Some x \<Rightarrow> (Inr (), if trunc \<and> fkind x = Regular then set_file path (resize 0 x) w else w)))"

definition sys_open_r :: "string \<Rightarrow> unit io" where
  "sys_open_r path = syscall (with_file path (\<lambda>_. ret ()))"

text \<open>\<open>lseek(fd, off, SEEK_SET)\<close> as a check of the offset; the position is a variable of the caller.\<close>

definition sys_seek :: "u64 \<Rightarrow> unit io" where
  "sys_seek off = syscall (\<lambda>w. if neg_off off then fail 22 w else (Inr (), w))"

definition sys_seek_end :: "string \<Rightarrow> u64 io" where
  "sys_seek_end path = syscall (with_file path (\<lambda>x. ret (word_of_nat (fsize x))))"

definition sys_unlink :: "string \<Rightarrow> unit io" where
  "sys_unlink path = syscall (with_file path (\<lambda>_ w. (Inr (), w\<lparr>fs := (fs w)(path := None)\<rparr>)))"

text \<open>Appending to an open file, with \<open>dprintf\<close> or \<open>fprintf\<close>; the callers ignore failures and short writes.\<close>

definition sys_append :: "string \<Rightarrow> bytes \<Rightarrow> unit io" where
  "sys_append path bs w = try_io (syscall (with_file path (\<lambda>x w'.
     let n = amount (the_fault w) (limit x - fsize x) (length bs) in
     (Inr (), set_file path (write_at (fsize x) (take n bs) x) w')))) (\<lambda>_. ret ()) w"

text \<open>\<open>fsync\<close> and \<open>close\<close> have no effect on the bytes; both are tried, as in \<open>fsync_close\<close>.\<close>

definition fsync_close :: "unit io" where
  "fsync_close = try_io (syscall (ret ())) (\<lambda>a. try_io (syscall (ret ())) (\<lambda>b.
     case (a, b) of (Inr _, Inr _) \<Rightarrow> ret () | _ \<Rightarrow> throw (Errno 1)))"

section \<open>Writes to a file\<close>

definition wf_inode :: "inode \<Rightarrow> bool" where
  "wf_inode x \<longleftrightarrow> fsize x \<le> off_max \<and> (\<forall>i \<ge> fsize x. fdata x i = 0)"

lemma inode_eqI:
  "fkind x = fkind y \<Longrightarrow> fsize x = fsize y \<Longrightarrow> (\<And>i. fdata x i = fdata y i) \<Longrightarrow> x = (y :: inode)"
  by (rule inode.equality) (auto simp: fun_eq_iff)

lemma resize_simps [simp]: "fkind (resize n x) = fkind x" "fsize (resize n x) = n"
  "fdata (resize n x) i = (if i < n \<and> i < fsize x then fdata x i else 0)"
  by (simp_all add: resize_def)

lemma punch_simps [simp]: "fkind (punch off n x) = fkind x" "fsize (punch off n x) = fsize x"
  "fdata (punch off n x) i = (if off \<le> i \<and> i < off + n then 0 else fdata x i)"
  by (simp_all add: punch_def)

lemma write_at_Nil [simp]: "write_at off [] x = x"
  by (simp add: write_at_def)

lemma fkind_write_at [simp]: "fkind (write_at off bs x) = fkind x"
  by (simp add: write_at_def)

lemma fsize_write_at: "fsize (write_at off bs x) = (if bs = [] then fsize x else max (fsize x) (off + length bs))"
  by (simp add: write_at_def)

lemma fdata_write_at:
  "fdata (write_at off bs x) i = (if off \<le> i \<and> i < off + length bs then bs ! (i - off) else fdata x i)"
  by (auto simp: write_at_def)

lemma limit_write_at: "off + length bs \<le> limit x \<Longrightarrow> limit (write_at off bs x) = limit x"
  by (simp add: limit_def fsize_write_at split: fkind.splits)

text \<open>Two writes that follow each other are one write of both.\<close>

lemma write_at_append:
  "write_at (off + length a) b (write_at off a x) = write_at off (a @ b) x"
  by (rule inode_eqI) (auto simp: fsize_write_at fdata_write_at nth_append)

lemma wf_write_at: "wf_inode x \<Longrightarrow> off + length bs \<le> off_max \<Longrightarrow> wf_inode (write_at off bs x)"
  by (auto simp: wf_inode_def fsize_write_at fdata_write_at)

text \<open>
  Growing a file and punching out what was there is writing zeros, for a file whose bytes beyond its
  end are zero.
\<close>

lemma resize_is_write:
  "wf_inode x \<Longrightarrow> fsize x \<le> off \<Longrightarrow> 0 < n \<Longrightarrow> resize (off + n) x = write_at off (replicate n 0) x"
  by (rule inode_eqI) (auto simp: fsize_write_at fdata_write_at wf_inode_def)

lemma punch_is_write: "off + n \<le> fsize x \<Longrightarrow> punch off n x = write_at off (replicate n 0) x"
  by (rule inode_eqI) (auto simp: fsize_write_at fdata_write_at max_def)

lemma resize_punch_is_write:
  "wf_inode x \<Longrightarrow> off < fsize x \<Longrightarrow> fsize x < off + n \<Longrightarrow>
   punch off (fsize x - off) (resize (off + n) x) = write_at off (replicate n 0) x"
  by (rule inode_eqI) (auto simp: fsize_write_at fdata_write_at wf_inode_def)

lemma resize_write_is_write:
  "wf_inode x \<Longrightarrow> off < fsize x \<Longrightarrow> fsize x < off + n \<Longrightarrow>
   write_at off (replicate (fsize x - off) 0) (resize (off + n) x) = write_at off (replicate n 0) x"
  by (rule inode_eqI) (auto simp: fsize_write_at fdata_write_at wf_inode_def)

section \<open>The interface of a byte store\<close>

text \<open>
  What the image writers rely on: a byte that a write covers reads back as written, every other byte
  is unchanged. The lemmas about several writes (tables that must not destroy one another) are proved
  from these two laws.
\<close>

locale byte_store =
  fixes wr :: "nat \<Rightarrow> bytes \<Rightarrow> 'f \<Rightarrow> 'f"
    and rd :: "'f \<Rightarrow> nat \<Rightarrow> u8"
  assumes rd_wr_in: "off \<le> i \<Longrightarrow> i < off + length bs \<Longrightarrow> rd (wr off bs f) i = bs ! (i - off)"
    and rd_wr_out: "i < off \<or> off + length bs \<le> i \<Longrightarrow> rd (wr off bs f) i = rd f i"
begin

lemma rd_wr: "rd (wr off bs f) i = (if off \<le> i \<and> i < off + length bs then bs ! (i - off) else rd f i)"
  by (cases "off \<le> i \<and> i < off + length bs") (auto intro: rd_wr_in rd_wr_out)

lemma read_back: "map (rd (wr off bs f)) [off..<off + length bs] = bs"
  by (rule nth_equalityI) (simp_all add: rd_wr)

lemma read_part:
  "off \<le> a \<Longrightarrow> a + n \<le> off + length bs \<Longrightarrow>
   map (rd (wr off bs f)) [a..<a + n] = take n (drop (a - off) bs)"
  by (rule nth_equalityI) (auto simp: rd_wr)

lemma read_other:
  "a + n \<le> off \<or> off + length bs \<le> a \<Longrightarrow>
   map (rd (wr off bs f)) [a..<a + n] = map (rd f) [a..<a + n]"
  by (rule nth_equalityI) (auto simp: rd_wr)

lemma writes_commute:
  "a + length as \<le> b \<or> b + length bs \<le> a \<Longrightarrow>
   rd (wr a as (wr b bs f)) i = rd (wr b bs (wr a as f)) i"
  by (auto simp: rd_wr)

end

interpretation disk: byte_store write_at fdata
  by unfold_locales (auto simp: fdata_write_at)

section \<open>When a system call succeeds\<close>

lemma fs_tick [simp]: "fs (tick w) = fs w"
  by (simp add: tick_def)

lemma fs_set_file [simp]: "fs (set_file p x w) = (fs w)(p \<mapsto> x)"
  by (simp add: set_file_def)

lemma fail_ok [io_ok]: "fail e w = (Inr y, w') \<longleftrightarrow> False"
  by (simp add: fail_def)

lemma fs_fail [simp]: "fs (snd (fail e w)) = fs w"
  by (simp add: fail_def)

lemma syscall_ok [io_ok]:
  "syscall act w = (Inr y, w') \<longleftrightarrow> (\<forall>n. the_fault w \<noteq> Fail n) \<and> act (tick w) = (Inr y, w')"
  by (auto simp: syscall_def fail_def split: fault.splits)

lemma with_file_ok [io_ok]:
  "with_file path f w = (Inr y, w') \<longleftrightarrow> (\<exists>x. fs w path = Some x \<and> f x w = (Inr y, w'))"
  by (auto simp: with_file_def fail_def split: option.splits)

lemma amount_bounds: "amount f room n \<le> n" "amount f room n \<le> room"
  "0 < room \<Longrightarrow> 0 < n \<Longrightarrow> 0 < amount f room n"
  by (auto simp: amount_def split: fault.splits)

lemma sys_pwrite_ok:
  assumes "sys_pwrite path bs off w = (Inr n, w')"
  obtains x where "fs w path = Some x" "unat off \<le> off_max" "n \<le> length bs" "bs \<noteq> [] \<Longrightarrow> 0 < n"
    "n = 0 \<or> unat off + n \<le> limit x" "fs w' = (fs w)(path \<mapsto> write_at (unat off) (take n bs) x)"
proof -
  from assms obtain x where x: "fs w path = Some x" and s: "\<not> neg_off off"
    and r: "bs = [] \<or> limit x - unat off \<noteq> 0"
    and n: "n = amount (the_fault w) (limit x - unat off) (length bs)"
    and w': "w' = set_file path (write_at (unat off) (take n bs) x) (tick w)"
    unfolding sys_pwrite_def by (auto simp: io_ok Let_def split: if_splits)
  show thesis
  proof (rule that [OF x])
    show "unat off \<le> off_max" using s by (simp add: neg_off_def)
    show "n \<le> length bs" unfolding n by (rule amount_bounds)
    show "0 < n" if "bs \<noteq> []" unfolding n using r that by (intro amount_bounds) auto
    show "n = 0 \<or> unat off + n \<le> limit x"
      using amount_bounds(2) [of "the_fault w" "limit x - unat off" "length bs"] unfolding n [symmetric] by linarith
    show "fs w' = (fs w)(path \<mapsto> write_at (unat off) (take n bs) x)" by (simp add: w')
  qed
qed

end
