(* ===== verification/FileOps.thy ===== *)
theory FileOps
  imports Files
begin

text \<open>
  The file operations of \<^verbatim>\<open>util.c\<close> that every image handler uses: \<open>is_block_device\<close>, \<open>open_file\<close>,
  \<open>map_file_extents\<close>, \<open>write_bytes\<close>, \<open>insert_image\<close>, \<open>prepare_image\<close>, \<open>insert_data\<close>, \<open>extend_file\<close>,
  \<open>block_device_size\<close> and \<open>reload_partitions\<close>. An image is given here by the path of its output file;
  a file descriptor is the path it was opened with.
\<close>

section \<open>Opening\<close>

definition is_block_device :: "string \<Rightarrow> bool io" where
  "is_block_device path = try_io (sys_stat path) (\<lambda>r.
     case r of Inl _ \<Rightarrow> ret False | Inr x \<Rightarrow> ret (fkind x = BlockDev))"

definition open_file :: "string \<Rightarrow> bool \<Rightarrow> unit io" where
  "open_file path trunc = bind_io (is_block_device path) (\<lambda>blk. sys_open_w path (\<not> blk) trunc)"

section \<open>Extents\<close>

definition whole_file_exent :: "u64 \<Rightarrow> extent list" where
  "whole_file_exent sz = [\<lparr>ext_start = 0, ext_end = sz\<rparr>]"

text \<open>
  The kernel's answer to \<open>FS_IOC_FIEMAP\<close> is the parameter \<open>fm\<close>: for a file, the list of its extents
  (\<open>fe_logical\<close>, \<open>fe_length\<close>).
\<close>

type_synonym fiemap = "inode \<Rightarrow> (u64 \<times> u64) list"

definition to_extents :: "(u64 \<times> u64) list \<Rightarrow> extent list" where
  "to_extents fes = map (\<lambda>(l, n). \<lparr>ext_start = l, ext_end = l + n\<rparr>) fes"

text \<open>The last extent is cut at the size.\<close>

definition clip_last :: "u64 \<Rightarrow> extent list \<Rightarrow> extent list" where
  "clip_last sz es =
     (if es \<noteq> [] \<and> ext_end (last es) > sz then butlast es @ [(last es)\<lparr>ext_end := sz\<rparr>] else es)"

text \<open>
  Both calls of the ioctl may fail; \<open>EOPNOTSUPP\<close> (95) and \<open>ENOTTY\<close> (25) give one extent for the whole
  file. A build without \<open>HAVE_FIEMAP\<close> behaves as if the first call failed with \<open>EOPNOTSUPP\<close>.
\<close>

definition map_file_extents :: "fiemap \<Rightarrow> string \<Rightarrow> u64 \<Rightarrow> extent list io" where
  "map_file_extents fm path sz =
     try_io (bind_io (syscall (with_file path ret)) (\<lambda>_. syscall (with_file path ret)))
       (\<lambda>r. case r of
          Inr x \<Rightarrow> ret (clip_last sz (to_extents (fm x)))
        | Inl e \<Rightarrow> if e = Errno 95 \<or> e = Errno 25 then ret (whole_file_exent sz) else throw e)"

section \<open>write_bytes\<close>

lemma min_4096_bounds: "sz \<noteq> 0 \<Longrightarrow> 0 < unat (min_ull sz 4096)" "unat (min_ull sz 4096) \<le> unat sz"
  using unat_eq0 [of sz] by auto

text \<open>The loop; a \<open>pwrite\<close> of at least one byte that does not fail writes at least one byte.\<close>

function write_loop :: "string \<Rightarrow> u8 \<Rightarrow> u64 \<Rightarrow> u64 \<Rightarrow> unit io" where
  "write_loop path byte sz off w =
     (if sz = 0 then (Inr (), w)
      else (case sys_pwrite path (replicate (unat (min_ull sz 4096)) byte) off w of
              (Inl e, w1) \<Rightarrow> (Inl e, w1)
            | (Inr r, w1) \<Rightarrow> write_loop path byte (sz - word_of_nat r) (off + word_of_nat r) w1))"
  by pat_completeness auto
termination
proof (relation "measure (\<lambda>(path, byte, sz, off, w). unat sz)", goal_cases)
  case (2 path byte sz off w x w1 r)
  then have "sys_pwrite path (replicate (unat (min_ull sz 4096)) byte) off w = (Inr r, w1)" by simp
  then have r: "r \<le> unat (min_ull sz 4096)" "0 < r"
    using min_4096_bounds [of sz] 2(1) by (auto elim!: sys_pwrite_ok)
  then have "r \<le> unat sz" using min_4096_bounds(2) [of sz] by linarith
  moreover have "unat (word_of_nat r :: u64) = r"
    using \<open>r \<le> unat sz\<close> unat_lt64 [of sz] by (intro unat_of_nat64) linarith
  ultimately show ?case using r by (simp add: unat_sub64)
qed simp

declare write_loop.simps [simp del]

text \<open>The tail shared by both sparse cases: punch a hole; if that fails, write the bytes.\<close>

definition punch_or_write :: "string \<Rightarrow> u8 \<Rightarrow> u64 \<Rightarrow> u64 \<Rightarrow> unit io" where
  "punch_or_write path byte sz off =
     try_io (sys_punch_hole path off sz) (\<lambda>r.
       case r of Inr _ \<Rightarrow> ret () | Inl _ \<Rightarrow> write_loop path byte sz off)"

text \<open>
  \<open>write_bytes\<close>, with the part after \<open>fstat\<close> on its own. \<open>offset\<close> is an \<open>off_t\<close>: the first comparison is
  unsigned, the second signed. The size is reduced to what lies before the old end of the file.
\<close>

definition write_bytes_st :: "string \<Rightarrow> u64 \<Rightarrow> u64 \<Rightarrow> u8 \<Rightarrow> bool \<Rightarrow> inode \<Rightarrow> unit io" where
  "write_bytes_st path sz off byte sparse st =
     (let st_size = word_of_nat (fsize st) in
      if fkind st = Regular \<and> byte = 0 \<and> sparse then
        if off + sz > st_size then
          bind_io (sys_ftruncate path (off + sz)) (\<lambda>_.
            if sint off \<ge> sint st_size then ret () else punch_or_write path byte (st_size - off) off)
        else punch_or_write path byte sz off
      else write_loop path byte sz off)"

definition write_bytes :: "string \<Rightarrow> u64 \<Rightarrow> u64 \<Rightarrow> u8 \<Rightarrow> bool \<Rightarrow> unit io" where
  "write_bytes path sz off byte sparse =
     (if sz = 0 then ret () else bind_io (sys_stat path) (write_bytes_st path sz off byte sparse))"

section \<open>insert_image\<close>

text \<open>The three running variables \<open>size\<close>, \<open>offset\<close> and \<open>in_pos\<close>.\<close>

type_synonym copy_state = "u64 \<times> u64 \<times> u64"

text \<open>The inner loop: copy the bytes of one extent in blocks of at most 4096.\<close>

function copy_extent :: "string \<Rightarrow> string \<Rightarrow> u64 \<Rightarrow> copy_state \<Rightarrow> copy_state io" where
  "copy_extent infile outf ee (sz, off, pos) w =
     (if \<not> (pos < ee \<and> sz > 0) then (Inr (sz, off, pos), w)
      else (case sys_pread infile (unat (min_ull (min_ull (ee - pos) 4096) sz)) pos w of
              (Inl e, w1) \<Rightarrow> (Inl e, w1)
            | (Inr buf, w1) \<Rightarrow>
                if buf = [] then (Inr (sz, off, pos), w1)
                else (case sys_pwrite outf buf off w1 of
                        (Inl e, w2) \<Rightarrow> (Inl e, w2)
                      | (Inr n, w2) \<Rightarrow>
                          if n < length buf then (Inl EIO, w2)
                          else copy_extent infile outf ee
                                 (sz - word_of_nat n, off + word_of_nat n, pos + word_of_nat n) w2)))"
  by pat_completeness auto

lemma sys_pread_ok:
  assumes "sys_pread path n off w = (Inr bs, w')"
  obtains x where "fs w path = Some x" "unat off \<le> off_max" "length bs \<le> n"
    "bs = map (fdata x) [unat off..<unat off + length bs]" "bs = [] \<or> unat off + length bs \<le> fsize x"
    "bs = [] \<Longrightarrow> 0 < n \<Longrightarrow> fsize x \<le> unat off" "fs w' = fs w"
proof -
  from assms obtain x where x: "fs w path = Some x" and s: "\<not> neg_off off"
    and b: "bs = map (fdata x) [unat off..<unat off + amount (the_fault w) (fsize x - unat off) n]"
    and w': "w' = tick w"
    unfolding sys_pread_def by (auto simp: io_ok Let_def split: if_splits)
  define k where "k = amount (the_fault w) (fsize x - unat off) n"
  have l: "length bs = k" by (simp add: b k_def)
  note a = amount_bounds [where f = "the_fault w" and room = "fsize x - unat off" and n = n, folded k_def]
  show thesis
  proof (rule that [OF x])
    show "unat off \<le> off_max" using s by (simp add: neg_off_def)
    show "length bs \<le> n" using a(1) l by simp
    show "bs = map (fdata x) [unat off..<unat off + length bs]" using b l by (simp add: k_def)
    show "bs = [] \<or> unat off + length bs \<le> fsize x" using a(2) l by (cases bs) auto
    show "fsize x \<le> unat off" if "bs = []" "0 < n"
      using a(3) l that by (metis list.size(3) neq0_conv zero_less_diff not_le)
    show "fs w' = fs w" by (simp add: w')
  qed
qed

termination copy_extent
proof (relation "measure (\<lambda>(infile, outf, ee, (sz, off, pos), w). unat sz)", goal_cases)
  case (2 infile outf ee sz off pos w x w1 buf y w2 n)
  then have rd: "sys_pread infile (unat (min_ull (min_ull (ee - pos) 4096) sz)) pos w = (Inr buf, w1)"
    and wr: "sys_pwrite outf buf off w1 = (Inr n, w2)" by simp_all
  from rd have "length buf \<le> unat sz" by (auto elim!: sys_pread_ok)
  with wr 2 have n: "n \<le> unat sz" "0 < n" by (auto elim!: sys_pwrite_ok)
  then have "unat (word_of_nat n :: u64) = n"
    using unat_lt64 [of sz] by (intro unat_of_nat64) linarith
  then show ?case using n by (simp add: unat_sub64)
qed simp

declare copy_extent.simps [simp del]

text \<open>One iteration of the outer loop: the hole before the extent, then the extent.\<close>

definition copy_step :: "string \<Rightarrow> string \<Rightarrow> bool \<Rightarrow> extent \<Rightarrow> copy_state \<Rightarrow> copy_state io" where
  "copy_step infile outf sparse ext = (\<lambda>(sz, off, pos).
     if pos < ext_start ext then
       let len = min_ull (ext_start ext - pos) sz in
       bind_io (write_bytes outf len off 0 sparse)
         (\<lambda>_. copy_extent infile outf (ext_end ext) (sz - len, off + len, pos + len))
     else copy_extent infile outf (ext_end ext) (sz, off, pos))"

fun copy_extents :: "string \<Rightarrow> string \<Rightarrow> bool \<Rightarrow> extent list \<Rightarrow> copy_state \<Rightarrow> copy_state io" where
  "copy_extents infile outf sparse [] st = ret st"
| "copy_extents infile outf sparse (ext # es) st =
     (if fst st > 0 then bind_io (copy_step infile outf sparse ext st) (copy_extents infile outf sparse es)
      else ret st)"

text \<open>\<open>insert_image\<close>: \<open>sub\<close> is the output file of the image to insert, \<open>None\<close> for \<open>NULL\<close>.\<close>

definition insert_image ::
  "fiemap \<Rightarrow> string \<Rightarrow> string option \<Rightarrow> u64 \<Rightarrow> u64 \<Rightarrow> u64 \<Rightarrow> u8 \<Rightarrow> bool \<Rightarrow> unit io" where
  "insert_image fm outf sub sz off imageoffset byte sparse =
     bind_io (open_file outf False) (\<lambda>_. finally_io
       (bind_io (sys_seek off) (\<lambda>_.
          case sub of
            None \<Rightarrow> write_bytes outf sz off byte sparse
          | Some infile \<Rightarrow>
              bind_io (sys_open_r infile) (\<lambda>_.
              bind_io (map_file_extents fm infile (sz + imageoffset)) (\<lambda>exts.
              bind_io (copy_extents infile outf sparse exts (sz, off, imageoffset)) (\<lambda>(sz', off', _).
              write_bytes outf sz' off' byte sparse)))))
       fsync_close)"

section \<open>prepare_image, insert_data, extend_file\<close>

text \<open>
  The value of \<open>ret = -errno\<close>. It is success when \<open>errno\<close> is 0, which it can be after a short write:
  that is no failed call, so \<open>errno\<close> is whatever an earlier call left there.
\<close>

definition neg_errno :: "unit io" where
  "neg_errno w = (if errno w = 0 then (Inr (), w) else (Inl (Errno (errno w)), w))"

definition prepare_image :: "fiemap \<Rightarrow> string \<Rightarrow> u64 \<Rightarrow> unit io" where
  "prepare_image fm outf sz =
     bind_io (is_block_device outf) (\<lambda>blk.
       if blk then try_io (insert_image fm outf None 2048 0 0 0 False) (\<lambda>_. ret ())
       else if sz = 0 then
         try_io (sys_unlink outf) (\<lambda>r. case r of
             Inl e \<Rightarrow> if e \<noteq> ENOENT then throw e else ret ()
           | Inr _ \<Rightarrow> ret ())
       else bind_io (open_file outf True) (\<lambda>_. try_io (sys_ftruncate outf sz) (\<lambda>r.
         try_io fsync_close (\<lambda>_. case r of Inl _ \<Rightarrow> neg_errno | Inr _ \<Rightarrow> ret ()))))"

text \<open>The loop of \<open>insert_data\<close>: blocks of at most 4096 bytes.\<close>

function insert_data_loop :: "string \<Rightarrow> bytes \<Rightarrow> u64 \<Rightarrow> unit io" where
  "insert_data_loop outfile data off w =
     (if data = [] then (Inr (), w)
      else let now = min (length data) 4096 in
        (case sys_pwrite outfile (take now data) off w of
           (Inl _, w1) \<Rightarrow> neg_errno w1
         | (Inr r, w1) \<Rightarrow>
             if r < now then neg_errno w1
             else insert_data_loop outfile (drop now data) (off + word_of_nat now) w1))"
  by pat_completeness auto
termination
  by (relation "measure (\<lambda>(outfile, data, off, w). length data)") auto

declare insert_data_loop.simps [simp del]

definition insert_data :: "string \<Rightarrow> bytes \<Rightarrow> u64 \<Rightarrow> unit io" where
  "insert_data outfile data off =
     bind_io (open_file outfile False) (\<lambda>_. finally_io
       (bind_io (sys_seek off) (\<lambda>_. insert_data_loop outfile data off)) fsync_close)"

definition extend_file :: "string \<Rightarrow> u64 \<Rightarrow> unit io" where
  "extend_file outf sz =
     bind_io (open_file outf False) (\<lambda>_. finally_io
       (bind_io (sys_seek_end outf) (\<lambda>off.
          if off > sz then throw EINVAL
          else if off = sz then ret ()
          else sys_ftruncate outf sz)) fsync_close)"

text \<open>\<open>block_device_size\<close>: \<open>*size\<close> on success.\<close>

definition block_device_size :: "string \<Rightarrow> u64 io" where
  "block_device_size blkdev =
     bind_io (sys_open_r blkdev) (\<lambda>_. bind_io (sys_stat blkdev) (\<lambda>st.
       if fkind st \<noteq> BlockDev then throw EINVAL else sys_seek_end blkdev))"

text \<open>\<open>reload_partitions\<close>: a failing \<open>ioctl(BLKRRPART)\<close> is not an error.\<close>

definition reload_partitions :: "string \<Rightarrow> unit io" where
  "reload_partitions outf =
     bind_io (is_block_device outf) (\<lambda>blk.
       if \<not> blk then ret ()
       else bind_io (sys_open_w outf False False) (\<lambda>_. try_io (syscall (ret ())) (\<lambda>_. ret ())))"

end
