(* ===== verification/FileProps.thy ===== *)
theory FileProps
  imports FileOps
begin

text \<open>
  What the file operations of \<^verbatim>\<open>util.c\<close> do to the bytes of the files, on every run that returns
  success: each of them is one \<open>write_at\<close> on its output file, and no other file changes.
\<close>

section \<open>One write to one file\<close>

definition wrote :: "string \<Rightarrow> nat \<Rightarrow> bytes \<Rightarrow> world \<Rightarrow> world \<Rightarrow> bool" where
  "wrote path off bs w w' \<longleftrightarrow>
     (\<exists>x. fs w path = Some x \<and> fs w' = (fs w)(path \<mapsto> write_at off bs x) \<and>
          (bs = [] \<or> off + length bs \<le> limit x))"

definition wf_fs :: "world \<Rightarrow> bool" where
  "wf_fs w \<longleftrightarrow> (\<forall>p x. fs w p = Some x \<longrightarrow> wf_inode x)"

lemma wroteI:
  "fs w path = Some x \<Longrightarrow> fs w' = (fs w)(path \<mapsto> write_at off bs x) \<Longrightarrow>
   bs = [] \<or> off + length bs \<le> limit x \<Longrightarrow> wrote path off bs w w'"
  by (auto simp: wrote_def)

lemma wrote_refl: "fs w path = Some x \<Longrightarrow> fs w' = fs w \<Longrightarrow> wrote path off [] w w'"
  by (auto simp: wrote_def fun_eq_iff)

lemma wrote_trans:
  assumes "wrote path off a w w1" and "wrote path (off + length a) b w1 w2"
  shows "wrote path off (a @ b) w w2"
proof -
  obtain x where x: "fs w path = Some x" "fs w1 = (fs w)(path \<mapsto> write_at off a x)"
    "a = [] \<or> off + length a \<le> limit x" using assms(1) by (auto simp: wrote_def)
  then have y: "fs w1 path = Some (write_at off a x)" by simp
  obtain b2: "fs w2 = (fs w1)(path \<mapsto> write_at (off + length a) b (write_at off a x))"
    "b = [] \<or> off + length a + length b \<le> limit (write_at off a x)"
    using assms(2) y by (auto simp: wrote_def)
  have "limit (write_at off a x) = limit x" using x(3) limit_write_at [of off a x] by auto
  then show ?thesis using x b2 by (intro wroteI [OF x(1)]) (auto simp: write_at_append)
qed

lemma wrote_frame: "wrote path off bs w w' \<Longrightarrow> q \<noteq> path \<Longrightarrow> fs w' q = fs w q"
  by (auto simp: wrote_def)

lemma wrote_Some: "wrote path off bs w w' \<Longrightarrow> \<exists>x. fs w' path = Some x"
  by (auto simp: wrote_def)

lemma limit_off_max: "wf_inode x \<Longrightarrow> limit x \<le> off_max"
  by (simp add: limit_def wf_inode_def split: fkind.split)

lemma wrote_wf: "wrote path off bs w w' \<Longrightarrow> wf_fs w \<Longrightarrow> wf_fs w'"
  unfolding wrote_def wf_fs_def
  by (auto split: if_splits intro!: wf_write_at dest: limit_off_max) (metis limit_off_max le_trans write_at_Nil)+

lemma wrote_fs_eq: "fs u = fs w \<Longrightarrow> fs u' = fs w' \<Longrightarrow> wrote path off bs u u' \<longleftrightarrow> wrote path off bs w w'"
  by (simp add: wrote_def)

section \<open>64-bit offsets\<close>

lemma unat_word_of_nat_le: "n \<le> unat (x :: u64) \<Longrightarrow> unat (word_of_nat n :: u64) = n"
  using unat_lt64 [of x] by (intro unat_of_nat64) linarith

lemma sint_small: "unat (x :: u64) \<le> off_max \<Longrightarrow> sint x = int (unat x)"
proof -
  assume "unat x \<le> off_max"
  then have "unat x < 2 ^ 63" by (simp add: off_max_def)
  then have "int (unat x) < int (2 ^ 63)" by (simp only: of_nat_less_iff)
  then have "uint x < 2 ^ 63" by simp
  then show ?thesis using signed_take_bit_int_eq_self [of 63 "uint x"] uint_ge_0 [of x]
    by (simp add: sint_uint)
qed

lemma off_max_lt: "n \<le> off_max \<Longrightarrow> n < 2 ^ 64"
  by (simp add: off_max_def)

lemma word_gt0_unat: "(x :: u64) > 0 \<longleftrightarrow> unat x \<noteq> 0"
  by (simp add: word_less_nat_alt)

section \<open>write_bytes\<close>

lemma write_loop_0: "write_loop path byte 0 off w = (Inr (), w)"
  by (simp add: write_loop.simps)

lemma write_loop_ok:
  "write_loop path byte sz off w = (Inr u, w') \<Longrightarrow> fs w path = Some x \<Longrightarrow>
   unat off + unat sz < 2 ^ 64 \<Longrightarrow> wrote path (unat off) (replicate (unat sz) byte) w w'"
proof (induction path byte sz off w arbitrary: x rule: write_loop.induct)
  case (1 path byte sz off w)
  show ?case
  proof (cases "sz = 0")
    case True
    then show ?thesis using 1(2,3) by (auto simp: write_loop_0 intro: wrote_refl)
  next
    case False
    let ?now = "unat (min_ull sz 4096)"
    obtain r w1 where wr: "sys_pwrite path (replicate ?now byte) off w = (Inr r, w1)"
      and rest: "write_loop path byte (sz - word_of_nat r) (off + word_of_nat r) w1 = (Inr u, w')"
      using 1(2) False
      by (auto simp: write_loop.simps [of path byte sz off w] split: prod.splits sum.splits)
    from wr obtain y where y: "fs w path = Some y" "r \<le> ?now" "r = 0 \<or> unat off + r \<le> limit y"
      "fs w1 = (fs w)(path \<mapsto> write_at (unat off) (replicate r byte) y)"
      by (rule sys_pwrite_ok) (auto simp: min_def)
    then have r: "r \<le> unat sz" using min_4096_bounds(2) [of sz] by linarith
    have w1: "wrote path (unat off) (replicate r byte) w w1" using y by (intro wroteI) auto
    note ur = unat_word_of_nat_le [OF r]
    have o: "unat (off + word_of_nat r) = unat off + r" using r 1(4) ur by (simp add: unat_add64)
    have s: "unat (sz - word_of_nat r) = unat sz - r" using r ur by (simp add: unat_sub64)
    have "wrote path (unat (off + word_of_nat r)) (replicate (unat (sz - word_of_nat r)) byte) w1 w'"
      using wrote_Some [OF w1] rest r o s 1(4)
      by (elim exE, intro 1(1) [OF False wr [symmetric] refl]) auto
    then have "wrote path (unat off) (replicate r byte @ replicate (unat sz - r) byte) w w'"
      using w1 o s by (intro wrote_trans) auto
    then show ?thesis using r by (simp flip: replicate_add)
  qed
qed

lemma sys_stat_ok: "sys_stat path w = (Inr x, w') \<Longrightarrow> fs w path = Some x \<and> fs w' = fs w"
  by (auto simp: sys_stat_def io_ok)

lemma sys_ftruncate_ok:
  "sys_ftruncate path sz w = (Inr u, w') \<Longrightarrow> \<exists>x. fs w path = Some x \<and> fkind x = Regular \<and>
     unat sz \<le> off_max \<and> fs w' = (fs w)(path \<mapsto> resize (unat sz) x)"
  by (auto simp: sys_ftruncate_def io_ok neg_off_def split: if_splits)

lemma sys_punch_hole_cases:
  assumes "sys_punch_hole path off sz w = (r, w')"
  shows "(\<exists>e. r = Inl e \<and> fs w' = fs w) \<or>
     (\<exists>x. r = Inr () \<and> fs w path = Some x \<and> fs w' = (fs w)(path \<mapsto> punch (unat off) (unat sz) x))"
  using assms
  by (auto simp: sys_punch_hole_def syscall_def with_file_def fail_def split: fault.splits option.splits if_splits)

text \<open>Zeroing a range inside the file, by punching or, when that fails, by writing.\<close>

lemma zero_range_ok:
  assumes "punch_or_write path 0 sz off w = (Inr u, w')"
    and x: "fs w path = Some x" and fit: "unat off + unat sz \<le> fsize x" and wf: "wf_inode x"
  shows "wrote path (unat off) (replicate (unat sz) 0) w w'"
proof -
  obtain r w1 where p: "sys_punch_hole path off sz w = (r, w1)"
    and c: "(case r of Inr _ \<Rightarrow> ret () | Inl _ \<Rightarrow> write_loop path 0 sz off) w1 = (Inr u, w')"
    using assms(1) by (auto simp: punch_or_write_def io_ok)
  have lim: "fsize x \<le> limit x" using wf by (simp add: limit_def wf_inode_def split: fkind.split)
  from sys_punch_hole_cases [OF p] show ?thesis
  proof (elim disjE exE conjE)
    fix e assume "r = Inl e" and f: "fs w1 = fs w"
    then have "write_loop path 0 sz off w1 = (Inr u, w')" using c by simp
    then have "wrote path (unat off) (replicate (unat sz) 0) w1 w'"
      using x f fit wf off_max_lt by (intro write_loop_ok) (auto simp: wf_inode_def)
    then show ?thesis using f wrote_fs_eq by blast
  next
    fix y assume r: "r = Inr ()" and "fs w path = Some y"
      and f: "fs w1 = (fs w)(path \<mapsto> punch (unat off) (unat sz) y)"
    then have "fs w' = (fs w)(path \<mapsto> write_at (unat off) (replicate (unat sz) 0) x)"
      using c x fit by (simp add: io_ok punch_is_write)
    then show ?thesis using x fit lim by (intro wroteI) auto
  qed
qed

lemma write_bytes_ok:
  assumes ok: "write_bytes path sz off byte sparse w = (Inr u, w')"
    and x: "fs w path = Some x" and wf: "wf_inode x" and nov: "unat off + unat sz < 2 ^ 64"
  shows "wrote path (unat off) (replicate (unat sz) byte) w w'"
proof (cases "sz = 0")
  case True
  then show ?thesis using ok x by (auto simp: write_bytes_def io_ok intro: wrote_refl)
next
  case False
  let ?st = "word_of_nat (fsize x) :: u64"
  have st: "unat ?st = fsize x" using wf off_max_lt by (intro unat_of_nat64) (auto simp: wf_inode_def)
  obtain w1 where w1: "fs w1 = fs w" and body: "write_bytes_st path sz off byte sparse x w1 = (Inr u, w')"
    using ok False x by (auto simp: write_bytes_def io_ok dest!: sys_stat_ok)
  note def = write_bytes_st_def Let_def
  have os: "unat (off + sz) = unat off + unat sz" using nov by (simp add: unat_add64)
  have spos: "0 < unat sz" using False unat_eq0 [of sz] by simp
  show ?thesis
  proof (cases "fkind x = Regular \<and> byte = 0 \<and> sparse")
    case no: False
    then have "write_loop path byte sz off w1 = (Inr u, w')" using body by (simp add: def split: if_splits)
    then have "wrote path (unat off) (replicate (unat sz) byte) w1 w'"
      using x w1 nov by (intro write_loop_ok) auto
    then show ?thesis using w1 wrote_fs_eq by blast
  next
    case yes: True
    show ?thesis
    proof (cases "off + sz > ?st")
      case inside: False
      then have "unat off + unat sz \<le> fsize x" using os st by (simp add: word_less_nat_alt)
      then have "wrote path (unat off) (replicate (unat sz) 0) w1 w'"
        using body yes inside x w1 wf by (intro zero_range_ok [of path sz off w1 u w' x]) (simp_all add: def)
      then show ?thesis using yes w1 wrote_fs_eq by blast
    next
      case grow: True
      then have gt: "fsize x < unat off + unat sz" using os st by (simp add: word_less_nat_alt)
      obtain w2 where tr: "sys_ftruncate path (off + sz) w1 = (Inr (), w2)"
        and rest: "(if sint off \<ge> sint ?st then ret () else punch_or_write path byte (?st - off) off) w2
          = (Inr u, w')"
        using body yes grow by (auto simp: def io_ok)
      from sys_ftruncate_ok [OF tr] have w2: "fs w2 = (fs w)(path \<mapsto> resize (unat off + unat sz) x)"
        and fit: "unat off + unat sz \<le> off_max" using x w1 os by auto
      have "sint ?st = int (fsize x)" using sint_small [of ?st] wf st by (simp add: wf_inode_def)
      moreover have "sint off = int (unat off)" using fit by (intro sint_small) simp
      ultimately have sge: "sint off \<ge> sint ?st \<longleftrightarrow> fsize x \<le> unat off" by (simp only: of_nat_le_iff)
      have lim: "limit x = off_max" using yes by (simp add: limit_def)
      show ?thesis
      proof (cases "fsize x \<le> unat off")
        case True
        then have "fs w' = fs w2" using rest sge by (simp add: io_ok)
        then show ?thesis
          using w2 x resize_is_write [OF wf True spos] yes fit lim by (intro wroteI) auto
      next
        case before: False
        have d: "unat (?st - off) = fsize x - unat off" using before st by (simp add: unat_sub64)
        have wf2: "wf_inode (resize (unat off + unat sz) x)"
          using wf fit by (simp add: wf_inode_def)
        have "punch_or_write path 0 (?st - off) off w2 = (Inr u, w')"
          using rest sge before yes by simp
        then have "wrote path (unat off) (replicate (fsize x - unat off) 0) w2 w'"
          using zero_range_ok [of path "?st - off" off w2 u w'] w2 wf2 d before gt by simp
        then have "fs w' = (fs w)(path \<mapsto> write_at (unat off) (replicate (unat sz) 0) x)"
          using w2 resize_write_is_write [OF wf _ gt] before by (auto simp: wrote_def)
        then show ?thesis using x yes fit lim by (intro wroteI) auto
      qed
    qed
  qed
qed


section \<open>copy_extent\<close>

lemma min_ull_le: "unat (min_ull x y) \<le> unat x" "unat (min_ull x y) \<le> unat y"
  by simp_all

lemma map_upt_append: "map f [a..<a + n] @ map f [a + n..<a + n + m] = map f [a..<a + (n + m)]"
  using upt_add_eq_append [of a "a + n" m] by (simp add: add.assoc)

lemma copy_extent_cases:
  assumes "copy_extent infile outf ee (sz, off, pos) w = (Inr st', w')"
  obtains (stop) "\<not> (pos < ee \<and> sz > 0)" "st' = (sz, off, pos)" "w' = w"
  | (eof) "pos < ee" "sz > 0" "st' = (sz, off, pos)"
      "sys_pread infile (unat (min_ull (min_ull (ee - pos) 4096) sz)) pos w = (Inr [], w')"
  | (step) buf w1 n w2 where "pos < ee" "sz > 0" "buf \<noteq> []" "\<not> n < length buf"
      "sys_pread infile (unat (min_ull (min_ull (ee - pos) 4096) sz)) pos w = (Inr buf, w1)"
      "sys_pwrite outf buf off w1 = (Inr n, w2)"
      "copy_extent infile outf ee (sz - word_of_nat n, off + word_of_nat n, pos + word_of_nat n) w2
        = (Inr st', w')"
  using assms unfolding copy_extent.simps [of infile outf ee sz off pos w]
  by (simp only: split: if_splits prod.splits sum.splits) blast+


lemma copy_extent_ok:
  "copy_extent infile outf ee st w = (Inr st', w') \<Longrightarrow> st = (sz, off, pos) \<Longrightarrow>
   infile \<noteq> outf \<Longrightarrow> fs w infile = Some src \<Longrightarrow> fs w outf = Some x \<Longrightarrow>
   unat off + unat sz < 2 ^ 64 \<Longrightarrow> unat pos + unat sz < 2 ^ 64 \<Longrightarrow>
   \<exists>k sz' off' pos'. st' = (sz', off', pos') \<and> k \<le> unat sz \<and>
     wrote outf (unat off) (map (fdata src) [unat pos..<unat pos + k]) w w' \<and>
     unat sz' = unat sz - k \<and> unat off' = unat off + k \<and> unat pos' = unat pos + k \<and>
     (sz' = 0 \<or> ee \<le> pos' \<or> fsize src \<le> unat pos')"
proof (induction infile outf ee st w arbitrary: sz off pos x rule: copy_extent.induct)
  case (1 infile outf ee sz0 off0 pos0 w)
  then have eq: "sz0 = sz" "off0 = off" "pos0 = pos" by simp_all
  note IH = 1(1) [unfolded eq] and in_out = 1(4) and src = 1(5) and x = 1(6)
    and no = 1(7) and np = 1(8)
  have stop: ?case if "st' = (sz, off, pos)" "fs w' = fs w"
    "sz = 0 \<or> ee \<le> pos \<or> fsize src \<le> unat pos"
    using that by (intro exI [of _ "0 :: nat"]) (auto intro: wrote_refl [OF x])
  show ?case
  proof (cases rule: copy_extent_cases [OF 1(2) [unfolded eq]])
    case 1
    then show ?thesis by (intro stop) (auto simp: word_gt0_unat unat_eq0)
  next
    case 2
    then have "0 < unat (min_ull (min_ull (ee - pos) 4096) sz)"
      by (auto simp: word_less_nat_alt unat_sub64)
    then have "fs w' = fs w" "fsize src \<le> unat pos" using sys_pread_ok [OF 2(4)] src by auto
    then show ?thesis using 2(3) by (intro stop) auto
  next
    case (3 buf w1 n w2)
    obtain sx where sx: "fs w infile = Some sx" "length buf \<le> unat (min_ull (min_ull (ee - pos) 4096) sz)"
      "buf = map (fdata sx) [unat pos..<unat pos + length buf]" and w1: "fs w1 = fs w"
      using 3(5) by (rule sys_pread_ok) blast
    have buf: "buf = map (fdata src) [unat pos..<unat pos + length buf]" using sx(1,3) src by simp
    obtain y where y: "fs w1 outf = Some y" "n \<le> length buf" "n = 0 \<or> unat off + n \<le> limit y"
      "fs w2 = (fs w1)(outf \<mapsto> write_at (unat off) (take n buf) y)"
      using 3(6) by (rule sys_pwrite_ok) blast
    have n: "n = length buf" using y(2) 3(4) by simp
    have ks: "n \<le> unat sz" using sx(2) n min_ull_le(2) [of "min_ull (ee - pos) 4096" sz] by linarith
    note uk = unat_word_of_nat_le [OF ks]
    have o: "unat (off + word_of_nat n) = unat off + n" using ks no uk by (simp add: unat_add64)
    have p: "unat (pos + word_of_nat n) = unat pos + n" using ks np uk by (simp add: unat_add64)
    have s: "unat (sz - word_of_nat n) = unat sz - n" using ks uk by (simp add: unat_sub64)
    have a: "wrote outf (unat off) buf w w2" using y w1 n by (intro wroteI [of _ _ y]) auto
    have src2: "fs w2 infile = Some src" using wrote_frame [OF a in_out] src by simp
    obtain y2 where y2: "fs w2 outf = Some y2" using wrote_Some [OF a] by blast
    have run: "\<not> \<not> (pos < ee \<and> 0 < sz)" using 3(1,2) by simp
    have B: "\<exists>j sz' off' pos'. st' = (sz', off', pos') \<and> j \<le> unat sz - n \<and>
        wrote outf (unat off + n) (map (fdata src) [unat pos + n..<unat pos + n + j]) w2 w' \<and>
        unat sz' = unat sz - n - j \<and> unat off' = unat off + n + j \<and> unat pos' = unat pos + n + j \<and>
        (sz' = 0 \<or> ee \<le> pos' \<or> fsize src \<le> unat pos')"
      using IH [OF run 3(5) [symmetric] refl 3(3) 3(6) [symmetric] refl 3(4) 3(7) refl in_out src2 y2]
        ks no np unfolding o p s by simp
    then obtain j sz' off' pos' where j: "st' = (sz', off', pos')" "j \<le> unat sz - n"
      "wrote outf (unat off + n) (map (fdata src) [unat pos + n..<unat pos + n + j]) w2 w'"
      "unat sz' = unat sz - n - j" "unat off' = unat off + n + j" "unat pos' = unat pos + n + j"
      "sz' = 0 \<or> ee \<le> pos' \<or> fsize src \<le> unat pos'" by blast
    have cat: "buf @ map (fdata src) [unat pos + n..<unat pos + n + j]
        = map (fdata src) [unat pos..<unat pos + (n + j)]"
      by (subst buf) (simp only: n map_upt_append)
    have "wrote outf (unat off) (map (fdata src) [unat pos..<unat pos + (n + j)]) w w'"
      unfolding cat [symmetric] using a j(3) n by (intro wrote_trans) auto
    then show ?thesis using j ks by (intro exI [of _ "n + j"]) auto
  qed
qed


section \<open>copy_extents\<close>

text \<open>
  What the extents must say about the bytes before \<open>hi\<close>: they are in the order of their start, and a
  byte outside all of them is zero.
\<close>

definition covers :: "nat \<Rightarrow> extent list \<Rightarrow> inode \<Rightarrow> bool" where
  "covers hi es x \<longleftrightarrow> sorted (map (\<lambda>e. unat (ext_start e)) es) \<and>
     (\<forall>i < hi. fdata x i \<noteq> 0 \<longrightarrow> (\<exists>e \<in> set es. unat (ext_start e) \<le> i \<and> i < unat (ext_end e)))"

definition covers_from :: "nat \<Rightarrow> nat \<Rightarrow> extent list \<Rightarrow> inode \<Rightarrow> bool" where
  "covers_from lo hi es x \<longleftrightarrow> sorted (map (\<lambda>e. unat (ext_start e)) es) \<and>
     (\<forall>i. lo \<le> i \<and> i < hi \<and> fdata x i \<noteq> 0 \<longrightarrow>
        (\<exists>e \<in> set es. unat (ext_start e) \<le> i \<and> i < unat (ext_end e)))"

lemma covers_imp_from: "covers hi es x \<Longrightarrow> covers_from lo hi es x"
  by (auto simp: covers_def covers_from_def)

lemma covers_from_gap:
  "covers_from lo hi (e # es) x \<Longrightarrow> lo \<le> i \<Longrightarrow> i < hi \<Longrightarrow> i < unat (ext_start e) \<Longrightarrow> fdata x i = 0"
  unfolding covers_from_def by force

lemma covers_from_next:
  "covers_from lo hi (e # es) x \<Longrightarrow> wf_inode x \<Longrightarrow> lo \<le> lo' \<Longrightarrow>
   hi \<le> lo' \<or> unat (ext_end e) \<le> lo' \<or> fsize x \<le> lo' \<Longrightarrow> covers_from lo' hi es x"
proof -
  assume c: "covers_from lo hi (e # es) x" and wf: "wf_inode x" and l: "lo \<le> lo'"
    and d: "hi \<le> lo' \<or> unat (ext_end e) \<le> lo' \<or> fsize x \<le> lo'"
  have "\<exists>e' \<in> set es. unat (ext_start e') \<le> i \<and> i < unat (ext_end e')"
    if i: "lo' \<le> i" "i < hi" "fdata x i \<noteq> 0" for i
  proof -
    have "i < fsize x" using wf i(3) by (meson not_le wf_inode_def)
    then have "\<not> i < unat (ext_end e)" using d i by linarith
    then show ?thesis using c i l by (auto simp: covers_from_def dest!: spec [of _ i])
  qed
  then show ?thesis using c by (simp add: covers_from_def)
qed

text \<open>Where a copy got to: \<open>k\<close> bytes of the source are in the output, \<open>sz'\<close> of the size are left.\<close>

definition copied :: "inode \<Rightarrow> string \<Rightarrow> copy_state \<Rightarrow> copy_state \<Rightarrow> world \<Rightarrow> world \<Rightarrow> nat \<Rightarrow> bool" where
  "copied src outf = (\<lambda>(sz, off, pos) (sz', off', pos') w w' k. k \<le> unat sz \<and>
     wrote outf (unat off) (map (fdata src) [unat pos..<unat pos + k]) w w' \<and>
     unat sz' = unat sz - k \<and> unat off' = unat off + k \<and> unat pos' = unat pos + k)"

lemma copied_trans:
  assumes "copied src outf st st1 w w1 k" and "copied src outf st1 st2 w1 w2 m"
  shows "copied src outf st st2 w w2 (k + m)"
proof -
  obtain sz off pos sz1 off1 pos1 sz2 off2 pos2 where
    [simp]: "st = (sz, off, pos)" "st1 = (sz1, off1, pos1)" "st2 = (sz2, off2, pos2)"
    by (metis prod_cases3)
  note d = assms [unfolded copied_def, simplified]
  have "wrote outf (unat off) (map (fdata src) [unat pos..<unat pos + k]
      @ map (fdata src) [unat pos + k..<unat pos + k + m]) w w2"
    by (rule wrote_trans [of _ _ _ _ w1]) (use d in simp_all)
  moreover have "k + m \<le> unat sz" using d by linarith
  ultimately show ?thesis using d by (simp add: copied_def map_upt_append)
qed

lemma copied_same: "fs w outf = Some x \<Longrightarrow> fs w' = fs w \<Longrightarrow> copied src outf st st w w' 0"
  by (cases st) (simp add: copied_def wrote_refl)

lemma copied_extent:
  assumes "copy_extent infile outf ee (sz, off, pos) w = (Inr st', w')"
    "infile \<noteq> outf" "fs w infile = Some src" "fs w outf = Some x"
    "unat off + unat sz < 2 ^ 64" "unat pos + unat sz < 2 ^ 64"
  obtains k sz' off' pos' where "st' = (sz', off', pos')" "copied src outf (sz, off, pos) st' w w' k"
    "sz' = 0 \<or> ee \<le> pos' \<or> fsize src \<le> unat pos'"
  using copy_extent_ok [OF assms(1) refl assms(2-6)] by (fastforce simp: copied_def)

lemma map_zero: "(\<And>i. a \<le> i \<Longrightarrow> i < a + n \<Longrightarrow> f i = 0) \<Longrightarrow> map f [a..<a + n] = replicate n 0"
  by (rule nth_equalityI) auto

lemma copy_step_ok:
  assumes ok: "copy_step infile outf sparse e (sz, off, pos) w = (Inr st', w')"
    and io: "infile \<noteq> outf" and src: "fs w infile = Some src" and x: "fs w outf = Some x"
    and no: "unat off + unat sz < 2 ^ 64" and np: "unat pos + unat sz < 2 ^ 64"
    and wf: "wf_inode x" and cov: "covers_from (unat pos) (unat pos + unat sz) (e # es) src"
  obtains k sz' off' pos' where "st' = (sz', off', pos')" "copied src outf (sz, off, pos) st' w w' k"
    "sz' = 0 \<or> ext_end e \<le> pos' \<or> fsize src \<le> unat pos'"
proof (cases "pos < ext_start e")
  case False
  then have "copy_extent infile outf (ext_end e) (sz, off, pos) w = (Inr st', w')"
    using ok by (simp add: copy_step_def)
  then show thesis using that by (rule copied_extent [OF _ io src x no np])
next
  case True
  let ?len = "min_ull (ext_start e - pos) sz"
  obtain w1 where wb: "write_bytes outf ?len off 0 sparse w = (Inr (), w1)"
    and ce: "copy_extent infile outf (ext_end e) (sz - ?len, off + ?len, pos + ?len) w1 = (Inr st', w')"
    using ok True by (auto simp: copy_step_def Let_def io_ok)
  have len: "unat ?len \<le> unat sz" "unat ?len \<le> unat (ext_start e) - unat pos"
    using True by (auto simp: unat_sub64 word_less_nat_alt)
  then have u: "unat (sz - ?len) = unat sz - unat ?len" "unat (off + ?len) = unat off + unat ?len"
    "unat (pos + ?len) = unat pos + unat ?len" using no np by (simp_all add: unat_sub64 unat_add64 del: unat_min_ull)
  have z: "map (fdata src) [unat pos..<unat pos + unat ?len] = replicate (unat ?len) 0"
    using len by (intro map_zero covers_from_gap [OF cov]) linarith+
  have wr: "wrote outf (unat off) (replicate (unat ?len) 0) w w1"
    using write_bytes_ok [OF wb x wf] no len(1) by linarith
  have c1: "copied src outf (sz, off, pos) (sz - ?len, off + ?len, pos + ?len) w w1 (unat ?len)"
    using wr z u len(1) by (simp add: copied_def del: unat_min_ull)
  obtain y where y: "fs w1 outf = Some y" using wrote_Some [OF wr] by blast
  have "fs w1 infile = Some src" using wrote_frame [OF wr io] src by simp
  moreover have "unat (off + ?len) + unat (sz - ?len) < 2 ^ 64" "unat (pos + ?len) + unat (sz - ?len) < 2 ^ 64"
    unfolding u using len(1) no np by linarith+
  ultimately obtain k sz' off' pos' where
    "st' = (sz', off', pos')" "copied src outf (sz - ?len, off + ?len, pos + ?len) st' w1 w' k"
    "sz' = 0 \<or> ext_end e \<le> pos' \<or> fsize src \<le> unat pos'"
    by (rule copied_extent [OF ce io _ y])
  then show thesis using that copied_trans [OF c1] by blast
qed


lemma copy_extents_ok:
  assumes "copy_extents infile outf sparse es (sz, off, pos) w = (Inr st', w')"
    and "infile \<noteq> outf" "fs w infile = Some src" "fs w outf = Some x" "wf_fs w"
    and "unat off + unat sz < 2 ^ 64" "unat pos + unat sz < 2 ^ 64"
    and "covers_from (unat pos) (unat pos + unat sz) es src"
  obtains k sz' off' pos' where "st' = (sz', off', pos')" "copied src outf (sz, off, pos) st' w w' k"
    "\<And>i. unat pos + k \<le> i \<Longrightarrow> i < unat pos + unat sz \<Longrightarrow> fdata src i = 0"
  using assms
proof (induction es arbitrary: sz off pos w x thesis)
  case Nil
  have "st' = (sz, off, pos)" "w' = w" using Nil.prems(2) by (simp_all add: io_ok)
  then show ?case
    using Nil.prems(9) copied_same [OF Nil.prems(5)]
    by (intro Nil.prems(1) [of sz off pos 0]) (auto simp: covers_from_def)
next
  case (Cons e es)
  note prems = Cons.prems
  show ?case
  proof (cases "sz > 0")
    case False
    then have "st' = (sz, off, pos)" "w' = w" "unat sz = 0"
      using prems(2) by (simp_all add: io_ok word_gt0_unat)
    then show ?thesis using copied_same [OF prems(5)] by (intro prems(1) [of sz off pos 0]) auto
  next
    case True
    obtain st1 w1 where s: "copy_step infile outf sparse e (sz, off, pos) w = (Inr st1, w1)"
      and r: "copy_extents infile outf sparse es st1 w1 = (Inr st', w')"
      using prems(2) True by (auto simp: io_ok)
    have wfs: "wf_inode src" "wf_inode x" using prems(4-6) by (auto simp: wf_fs_def)
    obtain k sz1 off1 pos1 where st1: "st1 = (sz1, off1, pos1)"
      and c: "copied src outf (sz, off, pos) st1 w w1 k"
      and e: "sz1 = 0 \<or> ext_end e \<le> pos1 \<or> fsize src \<le> unat pos1"
      by (rule copy_step_ok [OF s prems(3-5,7,8) wfs(2) prems(9)]) blast
    have wr: "wrote outf (unat off) (map (fdata src) [unat pos..<unat pos + k]) w w1"
      and u: "k \<le> unat sz" "unat sz1 = unat sz - k" "unat off1 = unat off + k" "unat pos1 = unat pos + k"
      using c by (simp_all add: copied_def st1)
    have cov: "covers_from (unat pos1) (unat pos1 + unat sz1) es src"
    proof -
      have eq: "unat pos1 + unat sz1 = unat pos + unat sz" using u by simp
      have "unat pos + unat sz \<le> unat pos1 \<or> unat (ext_end e) \<le> unat pos1 \<or> fsize src \<le> unat pos1"
        using e u by (auto simp: word_le_nat_alt)
      then show ?thesis
        unfolding eq using covers_from_next [OF prems(9) wfs(1), of "unat pos1"] u(4) by simp
    qed
    obtain y where y: "fs w1 outf = Some y" using wrote_Some [OF wr] by blast
    have src1: "fs w1 infile = Some src" using wrote_frame [OF wr prems(3)] prems(4) by simp
    have n1: "unat off1 + unat sz1 < 2 ^ 64" "unat pos1 + unat sz1 < 2 ^ 64" using u prems(7,8) by linarith+
    show ?thesis
    proof (rule Cons.IH [OF _ r [unfolded st1] prems(3) src1 y wrote_wf [OF wr prems(6)] n1 cov])
      fix m sz' off' pos' assume "st' = (sz', off', pos')" and m: "copied src outf (sz1, off1, pos1) st' w1 w' m"
        and z: "\<And>i. unat pos1 + m \<le> i \<Longrightarrow> i < unat pos1 + unat sz1 \<Longrightarrow> fdata src i = 0"
      then show thesis
        using u copied_trans [OF c [unfolded st1] m]
        by (intro prems(1) [of sz' off' pos' "k + m"]) (simp_all add: add.assoc)
    qed
  qed
qed


section \<open>insert_image\<close>

text \<open>The file that \<open>open_file\<close> leaves at a path: the one that is there, or a new empty one.\<close>

definition file_at :: "world \<Rightarrow> string \<Rightarrow> inode" where
  "file_at w path = (case fs w path of None \<Rightarrow> empty_file | Some x \<Rightarrow> x)"

lemma is_block_device_ok: "is_block_device path w = (Inr b, w') \<Longrightarrow> fs w' = fs w"
  by (auto simp: is_block_device_def sys_stat_def try_io_def syscall_def with_file_def fail_def ret_def
      split: fault.splits option.splits sum.splits)

lemma sys_open_w_ok:
  "sys_open_w path creat False w = (Inr u, w') \<Longrightarrow> fs w' = (fs w)(path \<mapsto> file_at w path)"
  by (cases "fs w path"; cases creat) (auto simp: sys_open_w_def file_at_def io_ok set_file_def)

lemma open_file_ok:
  "open_file path False w = (Inr u, w') \<Longrightarrow> fs w' = (fs w)(path \<mapsto> file_at w path)"
  using sys_open_w_ok
  by (fastforce simp: open_file_def bind_io_ok file_at_def dest: is_block_device_ok)

lemma wf_empty_file: "wf_inode empty_file"
  by (simp add: empty_file_def wf_inode_def off_max_def)

lemma wf_file_at: "wf_fs w \<Longrightarrow> wf_inode (file_at w path)"
  by (auto simp: file_at_def wf_fs_def wf_empty_file split: option.split)

lemma open_file_wf: "open_file path False w = (Inr u, w') \<Longrightarrow> wf_fs w \<Longrightarrow> wf_fs w'"
  using open_file_ok [of path w u w'] wf_file_at [of w path] by (auto simp: wf_fs_def split: if_splits)

lemma fsync_close_fs [simp]: "fs (snd (fsync_close w)) = fs w"
  by (simp add: fsync_close_def try_io_def syscall_def ret_def throw_def fail_def
      split: fault.splits sum.splits prod.splits)

lemma sys_seek_ok: "sys_seek off w = (Inr u, w') \<Longrightarrow> fs w' = fs w"
  by (auto simp: sys_seek_def io_ok split: if_splits)

lemma sys_open_r_ok: "sys_open_r path w = (Inr u, w') \<Longrightarrow> fs w' = fs w \<and> (\<exists>x. fs w path = Some x)"
  by (auto simp: sys_open_r_def io_ok)

lemma wrote_opened:
  "fs w1 = (fs w)(p \<mapsto> file_at w p) \<Longrightarrow> wrote p off bs w1 w' \<Longrightarrow>
   fs w' = (fs w)(p \<mapsto> write_at off bs (file_at w p))"
  by (auto simp: wrote_def)

lemma covers_clip_last: "covers (unat hi) es x \<Longrightarrow> covers (unat hi) (clip_last hi es) x"
proof (cases "es = []")
  case False
  then obtain l e where es: "es = l @ [e]" by (metis append_butlast_last_id)
  assume "covers (unat hi) es x"
  then show ?thesis
    by (auto simp: es covers_def clip_last_def sorted_append word_less_nat_alt)
qed (simp add: clip_last_def)

lemma covers_whole_file: "covers (unat hi) (whole_file_exent hi) x"
  by (simp add: covers_def whole_file_exent_def)

lemma map_file_extents_ok:
  assumes "map_file_extents fm path hi w = (Inr es, w')" and "fs w path = Some x"
    and "covers (unat hi) (to_extents (fm x)) x"
  shows "covers (unat hi) es x" "fs w' = fs w"
proof -
  have "fs w' = fs w \<and> covers (unat hi) es x"
    using assms unfolding map_file_extents_def try_io_def bind_io_def syscall_def with_file_def fail_def
    by (auto simp: io_ok ret_def throw_def covers_clip_last covers_whole_file tick_def
        split: fault.splits option.splits sum.splits if_splits)
  then show "covers (unat hi) es x" "fs w' = fs w" by simp_all
qed


lemma insert_image_steps:
  assumes "insert_image fm outf (Some infile) sz off ioff byte sparse w = (Inr u, w')"
  obtains w1 w2 w3 w4 es sz' off' pos' w5 w6 where "open_file outf False w = (Inr (), w1)"
    "sys_seek off w1 = (Inr (), w2)" "sys_open_r infile w2 = (Inr (), w3)"
    "map_file_extents fm infile (sz + ioff) w3 = (Inr es, w4)"
    "copy_extents infile outf sparse es (sz, off, ioff) w4 = (Inr (sz', off', pos'), w5)"
    "write_bytes outf sz' off' byte sparse w5 = (Inr (), w6)" "fs w' = fs w6"
  using assms unfolding insert_image_def bind_io_ok finally_io_ok
  by (clarsimp simp: bind_io_ok)

lemma insert_image_ok:
  assumes ok: "insert_image fm outf (Some infile) sz off ioff byte sparse w = (Inr u, w')"
    and io: "infile \<noteq> outf" and wf: "wf_fs w"
    and no: "unat off + unat sz < 2 ^ 64" and np: "unat ioff + unat sz < 2 ^ 64"
    and cov: "\<forall>x. fs w infile = Some x \<longrightarrow> covers (unat (sz + ioff)) (to_extents (fm x)) x"
  shows "\<exists>src k. fs w infile = Some src \<and> k \<le> unat sz \<and>
    (\<forall>i. unat ioff + k \<le> i \<and> i < unat ioff + unat sz \<longrightarrow> fdata src i = 0) \<and>
    fs w' = (fs w)(outf \<mapsto> write_at (unat off)
      (map (fdata src) [unat ioff..<unat ioff + k] @ replicate (unat sz - k) byte) (file_at w outf))"
proof -
  obtain w1 w2 w3 w4 es sz' off' pos' w5 w6 where o: "open_file outf False w = (Inr (), w1)"
    and w2: "sys_seek off w1 = (Inr (), w2)" and r: "sys_open_r infile w2 = (Inr (), w3)"
    and m: "map_file_extents fm infile (sz + ioff) w3 = (Inr es, w4)"
    and c: "copy_extents infile outf sparse es (sz, off, ioff) w4 = (Inr (sz', off', pos'), w5)"
    and t: "write_bytes outf sz' off' byte sparse w5 = (Inr (), w6)" and w': "fs w' = fs w6"
    using ok by (rule insert_image_steps)
  note f1 = open_file_ok [OF o] and f2 = sys_seek_ok [OF w2]
  obtain src where src: "fs w infile = Some src" and f3: "fs w3 = fs w1"
    using sys_open_r_ok [OF r] unfolding f2 f1 using io by auto
  have e: "covers (unat (sz + ioff)) es src" "fs w4 = fs w1"
    using map_file_extents_ok [OF m, of src] src cov io unfolding f3 f1 by simp_all
  have wf4: "wf_fs w4" using open_file_wf [OF o wf] e(2) by (simp add: wf_fs_def)
  have "unat (sz + ioff) = unat ioff + unat sz" using np by (simp add: unat_add64 add.commute)
  then have cf: "covers_from (unat ioff) (unat ioff + unat sz) es src"
    using covers_imp_from [OF e(1)] by simp
  have s4: "fs w4 infile = Some src" "fs w4 outf = Some (file_at w outf)"
    unfolding e(2) f1 using src io by simp_all
  obtain k where k: "copied src outf (sz, off, ioff) (sz', off', pos') w4 w5 k"
    "\<And>i. unat ioff + k \<le> i \<Longrightarrow> i < unat ioff + unat sz \<Longrightarrow> fdata src i = 0"
    using copy_extents_ok [OF c io s4 wf4 no np cf, of thesis] by blast
  have wr: "wrote outf (unat off) (map (fdata src) [unat ioff..<unat ioff + k]) w4 w5"
    and u: "k \<le> unat sz" "unat sz' = unat sz - k" "unat off' = unat off + k"
    using k(1) by (simp_all add: copied_def)
  obtain y where y: "fs w5 outf = Some y" using wrote_Some [OF wr] by blast
  have "wf_inode y" using y wrote_wf [OF wr wf4] by (auto simp: wf_fs_def)
  then have "wrote outf (unat off') (replicate (unat sz') byte) w5 w6"
    using u no by (intro write_bytes_ok [OF t y]) auto
  then have "wrote outf (unat off)
      (map (fdata src) [unat ioff..<unat ioff + k] @ replicate (unat sz - k) byte) w4 w6"
    by (intro wrote_trans [OF wr]) (simp add: u)
  then have "fs w6 = (fs w)(outf \<mapsto> write_at (unat off)
      (map (fdata src) [unat ioff..<unat ioff + k] @ replicate (unat sz - k) byte) (file_at w outf))"
    by (rule wrote_opened [rotated]) (simp only: e(2) f1)
  then show ?thesis using src u(1) k(2) w' by (intro exI [of _ src] exI [of _ k] conjI) simp_all
qed

lemma insert_image_fill:
  assumes ok: "insert_image fm outf None sz off ioff byte sparse w = (Inr u, w')" and wf: "wf_fs w"
    and no: "unat off + unat sz < 2 ^ 64"
  shows "fs w' = (fs w)(outf \<mapsto> write_at (unat off) (replicate (unat sz) byte) (file_at w outf))"
proof -
  obtain w1 w2 w3 where o: "open_file outf False w = (Inr (), w1)" and s: "sys_seek off w1 = (Inr (), w2)"
    and b: "write_bytes outf sz off byte sparse w2 = (Inr (), w3)" and w': "fs w' = fs w3"
    using ok unfolding insert_image_def bind_io_ok finally_io_ok by (clarsimp simp: bind_io_ok)
  have f2: "fs w2 = (fs w)(outf \<mapsto> file_at w outf)" using sys_seek_ok [OF s] open_file_ok [OF o] by simp
  have "wrote outf (unat off) (replicate (unat sz) byte) w2 w3"
    by (rule write_bytes_ok [OF b _ wf_file_at [OF wf] no]) (simp add: f2)
  then show ?thesis using wrote_opened [OF f2] w' by simp
qed



definition demo_src :: inode where
  "demo_src = \<lparr>fkind = Regular, fsize = 3, fdata = (\<lambda>i. if i = 0 then 17 else if i = 1 then 34 else 0)\<rparr>"

definition demo_world :: "string \<Rightarrow> world" where
  "demo_world path = \<lparr>fs = [path \<mapsto> demo_src], errno = 0, clock = 0, script = (\<lambda>_. Pass), cmds = [],
     rand = demo_rng\<rparr>"

lemma wf_demo_world: "wf_fs (demo_world path)"
  by (simp add: wf_fs_def demo_world_def demo_src_def wf_inode_def off_max_def)

lemmas eval_io = bind_io_def ret_def throw_def finally_io_def try_io_def syscall_def with_file_def the_fault_def
  tick_def fail_def set_file_def sys_pwrite_def sys_pread_def sys_stat_def sys_seek_def sys_open_r_def
  sys_open_w_def sys_ftruncate_def sys_punch_hole_def fsync_close_def amount_def limit_def neg_off_def
  off_max_def empty_file_def Let_def



section \<open>insert_data and extend_file\<close>

lemma neg_errno_ok [io_ok]: "neg_errno w = (Inr u, w') \<longleftrightarrow> errno w = 0 \<and> w' = w"
  by (auto simp: neg_errno_def)

lemma sys_pwrite_errno:
  "sys_pwrite path bs off w = (r, w') \<Longrightarrow> (case r of Inl _ \<Rightarrow> errno w' \<noteq> 0 | Inr _ \<Rightarrow> errno w' = errno w)"
  by (auto simp: sys_pwrite_def syscall_def with_file_def fail_def tick_def set_file_def Let_def
      split: fault.splits option.splits if_splits)

lemma insert_data_loop_ok:
  "insert_data_loop path data off w = (Inr u, w') \<Longrightarrow> fs w path = Some x \<Longrightarrow>
   unat off + length data < 2 ^ 64 \<Longrightarrow>
   \<exists>k \<le> length data. wrote path (unat off) (take k data) w w' \<and> (k = length data \<or> errno w = 0)"
proof (induction path data off w arbitrary: x rule: insert_data_loop.induct)
  case (1 path data off w)
  let ?now = "min (length data) 4096"
  show ?case
  proof (cases "data = []")
    case True
    then show ?thesis using 1(2,3) by (simp add: insert_data_loop.simps [of path "[]" off w] wrote_refl)
  next
    case False
    obtain r w1 where pw: "sys_pwrite path (take ?now data) off w = (r, w1)" by fastforce
    note eq = 1(2) [unfolded insert_data_loop.simps [of path data]]
    show ?thesis
    proof (cases r)
      case (Inl e)
      then show ?thesis using eq False pw sys_pwrite_errno [OF pw] by (simp add: Let_def io_ok)
    next
      case (Inr n)
      have e: "errno w1 = errno w" using sys_pwrite_errno [OF pw] Inr by simp
      obtain y where y: "fs w path = Some y" "n \<le> ?now" "n = 0 \<or> unat off + n \<le> limit y"
        "fs w1 = (fs w)(path \<mapsto> write_at (unat off) (take n (take ?now data)) y)"
        using pw unfolding Inr by (rule sys_pwrite_ok) auto
      have wr: "wrote path (unat off) (take n data) w w1"
        using y by (intro wroteI [of _ _ y]) (auto simp: min_def split: if_splits)
      show ?thesis
      proof (cases "n < ?now")
        case True
        then have "errno w1 = 0" "w' = w1" using eq False pw Inr by (simp_all add: Let_def io_ok)
        then show ?thesis using wr y(2) e by auto
      next
        case full: False
        then have n: "n = ?now" using y(2) by linarith
        have l: "insert_data_loop path (drop ?now data) (off + word_of_nat ?now) w1 = (Inr u, w')"
          using eq False pw Inr full by (auto simp: Let_def split: if_splits)
        have un: "unat (word_of_nat ?now :: u64) = ?now" using 1(4) by (intro unat_of_nat64) linarith
        have o: "unat (off + word_of_nat ?now) = unat off + ?now" using 1(4) un by (simp add: unat_add64)
        obtain y1 where y1: "fs w1 path = Some y1" using wrote_Some [OF wr] by blast
        have "\<exists>k \<le> length (drop ?now data). wrote path (unat (off + word_of_nat ?now)) (take k (drop ?now data)) w1 w'
            \<and> (k = length (drop ?now data) \<or> errno w1 = 0)"
          using 1(4) o by (intro 1(1) [OF False refl pw [symmetric] Inr _ l y1]) (use full in auto)
        then obtain k where k: "k \<le> length data - ?now" "k = length data - ?now \<or> errno w1 = 0"
          "wrote path (unat off + ?now) (take k (drop ?now data)) w1 w'" unfolding o by auto
        have "wrote path (unat off) (take n data @ take k (drop n data)) w w'"
          using k(3) n by (intro wrote_trans [OF wr]) simp
        then show ?thesis using k n by (intro exI [of _ "n + k"]) (auto simp: take_add e)
      qed
    qed
  qed
qed


lemma errno_mono_open: "open_file path trunc w = (r, w') \<Longrightarrow> errno w \<noteq> 0 \<Longrightarrow> errno w' \<noteq> 0"
  by (auto simp: open_file_def is_block_device_def sys_stat_def sys_open_w_def try_io_def bind_io_def syscall_def
      with_file_def fail_def ret_def tick_def set_file_def
      split: fault.splits option.splits sum.splits if_splits prod.splits)

lemma sys_seek_errno: "sys_seek off w = (Inr u, w') \<Longrightarrow> errno w' = errno w"
  by (auto simp: sys_seek_def io_ok tick_def split: if_splits)

lemma insert_data_ok:
  assumes ok: "insert_data path data off w = (Inr u, w')" and no: "unat off + length data < 2 ^ 64"
  shows "\<exists>k \<le> length data. (k = length data \<or> errno w = 0) \<and>
    fs w' = (fs w)(path \<mapsto> write_at (unat off) (take k data) (file_at w path))"
proof -
  obtain w1 w2 w3 where o: "open_file path False w = (Inr (), w1)" and s: "sys_seek off w1 = (Inr (), w2)"
    and l: "insert_data_loop path data off w2 = (Inr (), w3)" and w': "fs w' = fs w3"
    using ok unfolding insert_data_def bind_io_ok finally_io_ok by (clarsimp simp: bind_io_ok)
  have f2: "fs w2 = (fs w)(path \<mapsto> file_at w path)" using sys_seek_ok [OF s] open_file_ok [OF o] by simp
  obtain k where k: "k \<le> length data" "k = length data \<or> errno w2 = 0"
    "wrote path (unat off) (take k data) w2 w3"
    using insert_data_loop_ok [OF l, of "file_at w path"] f2 no by auto
  have "errno w2 = 0 \<Longrightarrow> errno w = 0" using errno_mono_open [OF o] sys_seek_errno [OF s] by auto
  then show ?thesis using k w' wrote_opened [OF f2 k(3)] by auto
qed

text \<open>
  C32: an insertion of data that returns success has written a prefix of the data at the offset and
  changed nothing else. The prefix is all of the data, unless \<open>errno\<close> was 0 before: a short write sets
  no \<open>errno\<close>, and the code then returns \<open>-errno\<close>, which is success.
\<close>

theorem insert_data_writes:
  assumes ok: "insert_data path data off w = (Inr u, w')" and no: "unat off + length data < 2 ^ 64"
  shows "\<exists>k \<le> length data. (k = length data \<or> errno w = 0) \<and>
    fs w' = (fs w)(path \<mapsto> write_at (unat off) (take k data) (file_at w path))"
  by (rule insert_data_ok [OF assms])

lemma insert_data_writes_witness:
  "\<exists>k \<le> 3. (k = 3 \<or> errno (demo_world ''out'') = 0) \<and>
     fs (snd (insert_data ''out'' [1, 2, 3] 1 (demo_world ''out'')))
       = (fs (demo_world ''out''))(''out'' \<mapsto> write_at 1 (take k [1, 2, 3]) demo_src)"
proof -
  let ?r = "insert_data ''out'' [1, 2, 3] 1 (demo_world ''out'')"
  have "fst ?r = Inr ()"
    by (simp add: insert_data_def open_file_def is_block_device_def demo_world_def eval_io demo_src_def
      insert_data_loop.simps)
  then have "?r = (Inr (), snd ?r)" by (metis prod.collapse)
  from insert_data_writes [OF this] show ?thesis by (simp add: demo_world_def file_at_def numeral_3_eq_3)
qed


text \<open>Runs in which no call fails.\<close>

definition no_faults :: "world \<Rightarrow> bool" where
  "no_faults w \<longleftrightarrow> (\<forall>n. script w n = Pass)"

lemma no_faults_simps [simp]: "no_faults (tick w) = no_faults w" "no_faults (set_file p x w) = no_faults w"
  "no_faults w \<Longrightarrow> the_fault w = Pass"
  by (simp_all add: no_faults_def tick_def set_file_def the_fault_def)

lemma open_file_succeeds:
  assumes "no_faults w" "fkind (file_at w path) = Regular"
  shows "\<exists>w'. open_file path False w = (Inr (), w') \<and> no_faults w'"
  using assms
  by (cases "fs w path") (auto simp: open_file_def is_block_device_def sys_stat_def sys_open_w_def try_io_def
    bind_io_def syscall_def with_file_def fail_def ret_def file_at_def no_faults_def tick_def set_file_def the_fault_def)

lemma sys_pwrite_succeeds:
  assumes "no_faults w" "fs w path = Some x" "fkind x = Regular" "unat off + length bs \<le> off_max"
  shows "sys_pwrite path bs off w = (Inr (length bs), set_file path (write_at (unat off) bs x) (tick w))"
  using assms
  by (cases bs; cases "off_max \<le> unat off")
    (auto simp: sys_pwrite_def syscall_def with_file_def neg_off_def limit_def amount_def Let_def)

lemma insert_data_loop_succeeds:
  "no_faults w \<Longrightarrow> fs w path = Some x \<Longrightarrow> fkind x = Regular \<Longrightarrow> unat off + length data \<le> off_max \<Longrightarrow>
   \<exists>w'. insert_data_loop path data off w = (Inr (), w') \<and>
        fs w' = (fs w)(path \<mapsto> write_at (unat off) data x)"
proof (induction path data off w arbitrary: x rule: insert_data_loop.induct)
  case (1 path data off w)
  let ?now = "min (length data) 4096"
  show ?case
  proof (cases "data = []")
    case True
    then show ?thesis using 1(3) by (simp add: insert_data_loop.simps [of path "[]" off w] fun_upd_idem)
  next
    case False
    let ?w1 = "set_file path (write_at (unat off) (take ?now data) x) (tick w)"
    have pw: "sys_pwrite path (take ?now data) off w = (Inr ?now, ?w1)"
      using 1(2-5) by (subst sys_pwrite_succeeds) auto
    have "unat (word_of_nat ?now :: u64) = ?now"
      using 1(5) by (intro unat_of_nat64) (simp add: off_max_def)
    then have o: "unat (off + word_of_nat ?now) = unat off + ?now"
      using 1(5) by (simp add: unat_add64 off_max_def)
    have "\<exists>w'. insert_data_loop path (drop ?now data) (off + word_of_nat ?now) ?w1 = (Inr (), w') \<and>
        fs w' = (fs ?w1)(path \<mapsto> write_at (unat (off + word_of_nat ?now)) (drop ?now data)
          (write_at (unat off) (take ?now data) x))"
      using 1(2,4,5) o by (intro 1(1) [OF False refl pw [symmetric] refl]) auto
    then obtain w' where l: "insert_data_loop path (drop ?now data) (off + word_of_nat ?now) ?w1 = (Inr (), w')"
      and f: "fs w' = (fs w)(path \<mapsto> write_at (unat (off + word_of_nat ?now)) (drop ?now data)
          (write_at (unat off) (take ?now data) x))" by auto
    have "write_at (unat off + ?now) (drop ?now data) (write_at (unat off) (take ?now data) x)
        = write_at (unat off) data x"
      using write_at_append [of "unat off" "take ?now data" "drop ?now data" x] by simp
    then have "fs w' = (fs w)(path \<mapsto> write_at (unat off) data x)" using f o by simp
    moreover have "insert_data_loop path data off w = (Inr (), w')"
      using l False by (simp add: insert_data_loop.simps [of path data off w] pw Let_def del: take_eq_Nil)
    ultimately show ?thesis by blast
  qed
qed

text \<open>
  C33: when no call fails, an insertion of data into a regular or a new file succeeds, and the file has
  the data at the offset; everything else is as it was.
\<close>

theorem insert_data_succeeds:
  assumes w: "no_faults w" and reg: "fkind (file_at w path) = Regular"
    and fit: "unat off + length data \<le> off_max"
  shows "\<exists>w'. insert_data path data off w = (Inr (), w') \<and>
    fs w' = (fs w)(path \<mapsto> write_at (unat off) data (file_at w path))"
proof -
  obtain w1 where o: "open_file path False w = (Inr (), w1)" "no_faults w1"
    using open_file_succeeds [OF w reg] by blast
  note f1 = open_file_ok [OF o(1)]
  have s: "sys_seek off w1 = (Inr (), tick w1)" using o(2) fit by (simp add: sys_seek_def syscall_def neg_off_def)
  obtain w3 where l: "insert_data_loop path data off (tick w1) = (Inr (), w3)"
    and f3: "fs w3 = (fs w)(path \<mapsto> write_at (unat off) data (file_at w path))"
    using insert_data_loop_succeeds [of "tick w1" path "file_at w path" off data] o(2) f1 reg fit by auto
  have "insert_data path data off w = (Inr (), snd (fsync_close w3))"
    by (simp add: insert_data_def bind_io_def finally_io_def o(1) s l)
  then show ?thesis using f3 by simp
qed

lemma insert_data_succeeds_witness:
  "\<exists>w'. insert_data ''out'' [1, 2, 3] 1 (demo_world ''out'') = (Inr (), w') \<and>
     fs w' = [''out'' \<mapsto> write_at 1 [1, 2, 3] demo_src]"
  using insert_data_succeeds [of "demo_world ''out''" "''out''" 1 "[1, 2, 3]"]
  by (simp add: no_faults_def demo_world_def file_at_def demo_src_def off_max_def)

lemma extend_file_ok:
  assumes "extend_file path sz w = (Inr u, w')" and wf: "wf_fs w"
  shows "fsize (file_at w path) \<le> unat sz \<and> fs w' = (fs w)(path \<mapsto> (file_at w path)\<lparr>fsize := unat sz\<rparr>)"
proof -
  obtain w1 off w2 w3 where o: "open_file path False w = (Inr (), w1)" and s: "sys_seek_end path w1 = (Inr off, w2)"
    and r: "(if off > sz then throw EINVAL else if off = sz then ret () else sys_ftruncate path sz) w2 = (Inr (), w3)"
    and w': "fs w' = fs w3"
    using assms(1) unfolding extend_file_def bind_io_ok finally_io_ok by (clarsimp simp: bind_io_ok)
  let ?x = "file_at w path"
  note f1 = open_file_ok [OF o]
  have x: "off = word_of_nat (fsize ?x)" and f2: "fs w2 = fs w1"
    using s f1 by (auto simp: sys_seek_end_def io_ok)
  have wfx: "wf_inode ?x" by (rule wf_file_at [OF wf])
  then have u: "unat off = fsize ?x" unfolding x by (intro unat_of_nat64) (auto simp: wf_inode_def off_max_def)
  have le: "fsize ?x \<le> unat sz" using r u by (auto simp: io_ok word_less_nat_alt split: if_splits)
  have "fs w3 = (fs w)(path \<mapsto> ?x\<lparr>fsize := unat sz\<rparr>)"
  proof (cases "off = sz")
    case True
    then have "fs w3 = fs w2" using r by (simp add: io_ok)
    moreover have "?x\<lparr>fsize := unat sz\<rparr> = ?x" using True u by simp
    ultimately show ?thesis using f1 f2 by simp
  next
    case False
    then have "sys_ftruncate path sz w2 = (Inr (), w3)" using r le u by (simp add: word_less_nat_alt)
    from sys_ftruncate_ok [OF this] have "fs w3 = (fs w)(path \<mapsto> resize (unat sz) ?x)" using f1 f2 by auto
    moreover have "resize (unat sz) ?x = ?x\<lparr>fsize := unat sz\<rparr>"
      using wfx le by (intro inode_eqI) (auto simp: wf_inode_def)
    ultimately show ?thesis by simp
  qed
  then show ?thesis using le w' by simp
qed

text \<open>
  C35: a file that \<open>extend_file\<close> has extended with success has the requested size, its old bytes, and
  zeros after them; a file that is already longer is an error, never a truncation.
\<close>

theorem extend_file_extends:
  assumes "extend_file path sz w = (Inr u, w')" and wf: "wf_fs w"
  shows "fsize (file_at w path) \<le> unat sz \<and> fs w' = (fs w)(path \<mapsto> (file_at w path)\<lparr>fsize := unat sz\<rparr>)"
  by (rule extend_file_ok [OF assms])

lemma extend_file_extends_witness:
  "fs (snd (extend_file ''out'' 5 (demo_world ''out''))) = [''out'' \<mapsto> demo_src\<lparr>fsize := 5\<rparr>]"
proof -
  let ?r = "extend_file ''out'' 5 (demo_world ''out'')"
  have "fst ?r = Inr ()"
    by (simp add: extend_file_def open_file_def is_block_device_def demo_world_def eval_io demo_src_def
      sys_seek_end_def)
  then have "?r = (Inr (), snd ?r)" by (metis prod.collapse)
  from extend_file_extends [OF this wf_demo_world] show ?thesis by (simp add: demo_world_def file_at_def)
qed

end
