(* ===== verification/FileRuns.thy ===== *)
theory FileRuns
  imports FileProps
begin

text \<open>
  Runs of several file operations: the script of the system calls does not change, a write without short
  transfers is whole, and a file that is written piece by piece reads back as the last write that covers
  a byte.
\<close>

section \<open>Relations that every run keeps\<close>

text \<open>
  \<open>keeps Q m\<close>: the operation \<open>m\<close> takes every world to one that is related to it by \<open>Q\<close>, whether it
  succeeds or not.
\<close>

definition keeps :: "(world \<Rightarrow> world \<Rightarrow> bool) \<Rightarrow> 'a io \<Rightarrow> bool" where
  "keeps Q m \<longleftrightarrow> (\<forall>w. Q w (snd (m w)))"

named_theorems keeps_intros \<open>operations that keep a relation\<close>

lemma keepsD: "keeps Q m \<Longrightarrow> m w = (r, w') \<Longrightarrow> Q w w'"
  by (metis keeps_def snd_conv)

lemma keepsI: "(\<And>w r w'. m w = (r, w') \<Longrightarrow> Q w w') \<Longrightarrow> keeps Q m"
  by (metis keeps_def prod.collapse)

lemma keeps_if [keeps_intros]: "keeps Q a \<Longrightarrow> keeps Q b \<Longrightarrow> keeps Q (if c then a else b)"
  by simp

lemma keeps_option [keeps_intros]:
  "keeps Q a \<Longrightarrow> (\<And>x. keeps Q (b x)) \<Longrightarrow> keeps Q (case m of None \<Rightarrow> a | Some x \<Rightarrow> b x)"
  by (cases m) auto

lemma keeps_sum [keeps_intros]:
  "(\<And>x. keeps Q (a x)) \<Longrightarrow> (\<And>x. keeps Q (b x)) \<Longrightarrow> keeps Q (case m of Inl x \<Rightarrow> a x | Inr x \<Rightarrow> b x)"
  by (cases m) auto

lemma keeps_prod [keeps_intros]: "(\<And>x y. keeps Q (f x y)) \<Longrightarrow> keeps Q (case p of (x, y) \<Rightarrow> f x y)"
  by (cases p) auto

text \<open>
  What a relation has to satisfy: it is a preorder that a change of \<open>clock\<close> or \<open>errno\<close> respects, and so
  does each change of a file that a system call can make. Every operation then keeps it.
\<close>

locale run_relation =
  fixes Q :: "world \<Rightarrow> world \<Rightarrow> bool"
  assumes q_refl: "Q w w"
    and q_trans: "Q w w1 \<Longrightarrow> Q w1 w2 \<Longrightarrow> Q w w2"
    and q_tick: "Q w (tick w)"
    and q_errno: "Q w (w\<lparr>errno := e\<rparr>)"
    and q_put: "fs w p = Some x \<Longrightarrow> bs = [] \<or> off + length bs \<le> limit x \<Longrightarrow> Q w (set_file p (write_at off bs x) w)"
    and q_cut: "fs w p = Some x \<Longrightarrow> fkind x = Regular \<Longrightarrow> n \<le> off_max \<Longrightarrow> Q w (set_file p (resize n x) w)"
    and q_hole: "fs w p = Some x \<Longrightarrow> Q w (set_file p (punch off n x) w)"
    and q_create: "fs w p = None \<Longrightarrow> Q w (set_file p empty_file w)"
    and q_remove: "Q w (w\<lparr>fs := (fs w)(p := None)\<rparr>)"
begin

lemma keeps_ret [keeps_intros]: "keeps Q (ret x)" by (simp add: keeps_def ret_def q_refl)
lemma keeps_throw [keeps_intros]: "keeps Q (throw e)" by (simp add: keeps_def throw_def q_refl)
lemma keeps_fail [keeps_intros]: "keeps Q (fail e)" by (simp add: keeps_def fail_def q_errno)

lemma keeps_bind [keeps_intros]:
  assumes m: "keeps Q m" and f: "\<And>x. keeps Q (f x)" shows "keeps Q (bind_io m f)"
proof (rule keepsI)
  fix w r w' assume b: "bind_io m f w = (r, w')"
  obtain a w1 where a: "m w = (a, w1)" by fastforce
  then have q: "Q w w1" by (rule keepsD [OF m])
  show "Q w w'"
  proof (cases a)
    case (Inl e)
    then show ?thesis using a b q by (simp add: bind_io_def)
  next
    case (Inr x)
    then have "f x w1 = (r, w')" using a b by (simp add: bind_io_def)
    then show ?thesis using q q_trans keepsD [OF f] by blast
  qed
qed

lemma q_seq: "keeps Q m \<Longrightarrow> m w = (r, w1) \<Longrightarrow> Q w1 w2 \<Longrightarrow> Q w w2"
  by (rule q_trans [OF keepsD])

lemma keeps_try [keeps_intros]: "keeps Q m \<Longrightarrow> (\<And>r. keeps Q (f r)) \<Longrightarrow> keeps Q (try_io m f)"
  by (intro keepsI) (metis keepsD q_trans try_io_ok)

lemma keeps_finally [keeps_intros]: "keeps Q m \<Longrightarrow> keeps Q c \<Longrightarrow> keeps Q (finally_io m c)"
  by (intro keepsI) (auto simp: finally_io_ok keeps_def intro: q_trans dest: keepsD)

lemma keeps_syscall [keeps_intros]: fixes m :: "'a io" shows "keeps Q m \<Longrightarrow> keeps Q (syscall m)"
  unfolding keeps_def
proof
  fix w assume m: "\<forall>w. Q w (snd (m w))"
  have "Q (tick w) (snd (m (tick w)))" "Q (tick w) (snd ((fail e :: 'a io) (tick w)))" for e
    using m keeps_fail [of e, where ?'a = 'a] by (simp_all add: keeps_def)
  then show "Q w (snd (syscall m w))"
    using q_trans [OF q_tick] by (simp add: syscall_def split: fault.split)
qed

lemma syscall_keeps_fs:
  assumes "\<And>x w' r w''. f x w' = (r, w'') \<Longrightarrow> fs w' p = Some x \<Longrightarrow> Q w' w''"
  shows "keeps Q (syscall (with_file p f))"
  by (intro keeps_syscall keepsI)
    (auto simp: with_file_def split: option.splits intro: assms keepsD [OF keeps_fail])

lemma keeps_with_file [keeps_intros]: "(\<And>x. keeps Q (f x)) \<Longrightarrow> keeps Q (with_file p f)"
  by (intro keepsI) (auto simp: with_file_def split: option.splits intro: keepsD [OF keeps_fail] dest: keepsD)

lemma keeps_sys [keeps_intros]:
  "keeps Q (sys_stat p)" "keeps Q (sys_open_r p)" "keeps Q (sys_seek_end p)" "keeps Q fsync_close"
  unfolding sys_stat_def sys_open_r_def sys_seek_end_def fsync_close_def by (intro keeps_intros)+

lemma keeps_sys_seek [keeps_intros]: "keeps Q (sys_seek off)"
  unfolding sys_seek_def by (intro keeps_syscall keepsI) (auto simp: q_refl fail_def q_errno split: if_splits)

lemma keeps_neg_errno [keeps_intros]: "keeps Q neg_errno"
  by (simp add: keeps_def neg_errno_def q_refl)

lemma keeps_sys_pwrite [keeps_intros]: "keeps Q (sys_pwrite p bs off)"
proof -
  have "Q w (snd (sys_pwrite p bs off w))" for w
  proof -
    define f where "f = (\<lambda>x w'.
       if neg_off off then fail 22 w'
       else let room = limit x - unat off; n = amount (the_fault w) room (length bs) in
         if bs \<noteq> [] \<and> room = 0 then fail (if fkind x = Regular then 27 else 28) w'
         else (Inr n, set_file p (write_at (unat off) (take n bs) x) w'))"
    have "keeps Q (syscall (with_file p f))"
    proof (rule syscall_keeps_fs)
      fix x w' r w''
      assume f: "f x w' = (r, w'')" and x: "fs w' p = Some x"
      have "take n bs = [] \<or> unat off + length (take n bs) \<le> limit x" if "n \<le> limit x - unat off" for n
        using that by (cases "n = 0") auto
      from q_put [OF x this]
      have "Q w' (set_file p (write_at (unat off) (take n bs) x) w')" if "n \<le> limit x - unat off" for n
        using that by blast
      then show "Q w' w''"
        using f amount_bounds(2) by (auto simp: f_def Let_def fail_def q_errno split: if_splits)
    qed
    then show ?thesis by (simp add: keeps_def sys_pwrite_def f_def)
  qed
  then show ?thesis by (simp add: keeps_def)
qed

lemma keeps_sys_ftruncate [keeps_intros]: "keeps Q (sys_ftruncate p sz)"
  unfolding sys_ftruncate_def
  by (rule syscall_keeps_fs) (auto simp: fail_def q_errno neg_off_def intro: q_cut split: if_splits)

lemma keeps_sys_punch_hole [keeps_intros]: "keeps Q (sys_punch_hole p off sz)"
  unfolding sys_punch_hole_def
  by (rule syscall_keeps_fs) (auto simp: fail_def q_errno intro: q_hole split: if_splits)

lemma keeps_sys_unlink [keeps_intros]: "keeps Q (sys_unlink p)"
  unfolding sys_unlink_def by (rule syscall_keeps_fs) (auto intro: q_remove)

lemma keeps_sys_open_w [keeps_intros]: "keeps Q (sys_open_w p c t)"
  unfolding sys_open_w_def
  by (intro keeps_syscall keepsI)
    (auto simp: fail_def q_errno q_refl intro: q_create q_cut split: if_splits option.splits)

lemma keeps_sys_pread [keeps_intros]: "keeps Q (sys_pread p n off)"
proof -
  have "Q w (snd (sys_pread p n off w))" for w
  proof -
    have "keeps Q (syscall (with_file p (\<lambda>x w'. if neg_off off then fail 22 w'
       else let k = amount (the_fault w) (fsize x - unat off) n in (Inr (map (fdata x) [unat off..<unat off + k]), w'))))"
      by (rule syscall_keeps_fs) (auto simp: fail_def q_errno q_refl Let_def split: if_splits)
    then show ?thesis by (simp add: keeps_def sys_pread_def)
  qed
  then show ?thesis by (simp add: keeps_def)
qed

lemma keeps_open_file [keeps_intros]: "keeps Q (is_block_device p)" "keeps Q (open_file p t)"
  unfolding open_file_def is_block_device_def by (intro keeps_intros)+

lemma keeps_write_loop [keeps_intros]: "keeps Q (write_loop p b sz off)"
proof -
  have "Q w (snd (write_loop p b sz off w))" for w
  proof (induction p b sz off w rule: write_loop.induct)
    case (1 p b sz off w)
    show ?case
      using 1 by (auto simp: write_loop.simps [of p b sz off w] q_refl split: prod.split sum.split)
        (metis q_trans keepsD keeps_sys_pwrite)+
  qed
  then show ?thesis by (simp add: keeps_def)
qed

lemma keeps_write_bytes [keeps_intros]: "keeps Q (write_bytes p sz off b sp)"
  unfolding write_bytes_def write_bytes_st_def punch_or_write_def Let_def by (intro keeps_intros)

lemma keeps_copy_extent [keeps_intros]: "keeps Q (copy_extent i out ee st)"
proof -
  have "Q w (snd (copy_extent i out ee st w))" for w
  proof (induction i out ee st w rule: copy_extent.induct)
    case (1 i out ee sz off pos w)
    show ?case
      using 1 by (auto simp: copy_extent.simps [of i out ee sz off pos w] q_refl split: prod.split sum.split)
        (blast intro: q_seq [OF keeps_sys_pread] q_seq [OF keeps_sys_pwrite] keepsD [OF keeps_sys_pwrite]
          keepsD [OF keeps_sys_pread])+
  qed
  then show ?thesis by (simp add: keeps_def)
qed

lemma keeps_copy_extents [keeps_intros]: "keeps Q (copy_extents i out sp es st)"
proof (induction es arbitrary: st)
  case (Cons e es)
  have "keeps Q (copy_step i out sp e st)"
    unfolding copy_step_def by (cases st) (auto simp: Let_def intro: keeps_intros)
  then show ?case using Cons by (auto intro: keeps_intros)
qed (simp add: keeps_intros)

lemma keeps_insert_image [keeps_intros]: "keeps Q (insert_image fm out sub sz off io b sp)"
  unfolding insert_image_def map_file_extents_def by (intro keeps_intros)

lemma keeps_insert_data [keeps_intros]: "keeps Q (insert_data p data off)"
proof -
  have "Q w (snd (insert_data_loop p data off w))" for w
  proof (induction p data off w rule: insert_data_loop.induct)
    case (1 p data off w)
    let ?now = "min (length data) 4096"
    show ?case
    proof (cases "data = []")
      case True
      then show ?thesis by (simp add: insert_data_loop.simps q_refl)
    next
      case False
      obtain r w1 where pw: "sys_pwrite p (take ?now data) off w = (r, w1)" by fastforce
      then have s: "Q w w1" by (rule keepsD [OF keeps_sys_pwrite])
      have n: "Q w1 (snd (neg_errno w1))" using keeps_neg_errno by (simp add: keeps_def)
      show ?thesis
      proof (cases r)
        case (Inl e)
        then show ?thesis using False q_trans [OF s n] by (simp add: insert_data_loop.simps [of p data off w] pw Let_def)
      next
        case (Inr k)
        show ?thesis
        proof (cases "k < ?now")
          case True
          have "insert_data_loop p data off w = neg_errno w1"
            using False Inr True by (subst insert_data_loop.simps) (simp only: pw Let_def prod.case sum.case if_True if_False)
          then show ?thesis using q_trans [OF s n] by simp
        next
          case full: False
          have "Q w1 (snd (insert_data_loop p (drop ?now data) (off + word_of_nat ?now) w1))"
            by (rule 1 [OF False refl pw [symmetric] Inr full])
          moreover have "insert_data_loop p data off w
              = insert_data_loop p (drop ?now data) (off + word_of_nat ?now) w1"
            using False Inr full by (subst insert_data_loop.simps) (simp only: pw Let_def prod.case sum.case if_False)
          ultimately show ?thesis using q_trans [OF s] by simp
        qed
      qed
    qed
  qed
  then have "keeps Q (insert_data_loop p data off)" by (simp add: keeps_def)
  then show ?thesis unfolding insert_data_def by (intro keeps_intros)
qed

lemma keeps_prepare_extend [keeps_intros]:
  "keeps Q (prepare_image fm out sz)" "keeps Q (extend_file out sz)"
  unfolding prepare_image_def extend_file_def by (intro keeps_intros)+

end

text \<open>No operation changes what the system calls to come will do, and files stay well-formed.\<close>

interpretation scr: run_relation "\<lambda>w w'. script w' = script w"
  by unfold_locales (simp_all add: tick_def set_file_def)

lemma wf_set_file: "wf_fs w \<Longrightarrow> wf_inode y \<Longrightarrow> wf_fs (set_file p y w)"
  by (simp add: wf_fs_def)

lemma wf_resize: "n \<le> off_max \<Longrightarrow> wf_inode (resize n x)"
  by (simp add: wf_inode_def)

lemma wf_punch: "wf_inode x \<Longrightarrow> wf_inode (punch off n x)"
  by (simp add: wf_inode_def)

lemma wf_put:
  "wf_fs w \<Longrightarrow> fs w p = Some x \<Longrightarrow> bs = [] \<or> off + length bs \<le> limit x \<Longrightarrow> wf_inode (write_at off bs x)"
  using limit_off_max [of x] unfolding wf_fs_def by (metis le_trans wf_write_at write_at_Nil)

lemma wf_fs_simps: "wf_fs w \<Longrightarrow> wf_fs (tick w)" "wf_fs w \<Longrightarrow> wf_fs (w\<lparr>errno := e\<rparr>)"
  "wf_fs w \<Longrightarrow> wf_fs (w\<lparr>fs := (fs w)(p := None)\<rparr>)"
  by (simp_all add: wf_fs_def tick_def)

lemma wf_fsD: "wf_fs w \<Longrightarrow> fs w p = Some x \<Longrightarrow> wf_inode x"
  unfolding wf_fs_def by blast

interpretation wff: run_relation "\<lambda>w w'. wf_fs w \<longrightarrow> wf_fs w'"
  by unfold_locales
    (blast intro: wf_fs_simps wf_put wf_set_file wf_resize wf_punch wf_fsD wf_empty_file)+

lemma keeps_wf: "wf_fs w \<Longrightarrow> keeps (\<lambda>w w'. wf_fs w \<longrightarrow> wf_fs w') m \<Longrightarrow> m w = (r, w') \<Longrightarrow> wf_fs w'"
  by (blast dest: keepsD)

section \<open>Whole writes\<close>

text \<open>Runs without short transfers: a call may fail, but one that succeeds does all that fits.\<close>

definition no_short :: "world \<Rightarrow> bool" where
  "no_short w \<longleftrightarrow> (\<forall>n k. script w n \<noteq> Short k)"

lemma no_short_keeps: "keeps (\<lambda>w w'. script w' = script w) m \<Longrightarrow> m w = (r, w') \<Longrightarrow> no_short w' = no_short w"
  by (auto simp: no_short_def dest: keepsD)

lemma sys_pwrite_whole:
  assumes "sys_pwrite path bs off w = (Inr n, w')" and "no_short w" and x: "fs w path = Some x"
    and "fkind x = Regular" and fit: "unat off + length bs \<le> off_max"
  shows "n = length bs" "fs w' = (fs w)(path \<mapsto> write_at (unat off) bs x)"
proof -
  have a: "amount (the_fault w) room m = min room m" for room m
    using assms(2) by (auto simp: no_short_def amount_def the_fault_def split: fault.split)
  have n: "n = min (limit x - unat off) (length bs)"
    using assms(1) x by (auto simp: sys_pwrite_def io_ok Let_def a split: if_splits)
  then show l: "n = length bs" using fit assms(4) by (simp add: limit_def)
  show "fs w' = (fs w)(path \<mapsto> write_at (unat off) bs x)"
    using assms(1) x l n by (auto simp: sys_pwrite_def io_ok Let_def a split: if_splits)
qed

lemma insert_data_loop_whole:
  "insert_data_loop path data off w = (Inr u, w') \<Longrightarrow> no_short w \<Longrightarrow> fs w path = Some x \<Longrightarrow> fkind x = Regular \<Longrightarrow>
   unat off + length data \<le> off_max \<Longrightarrow>
   fs w' = (fs w)(path \<mapsto> write_at (unat off) data x)"
proof (induction path data off w arbitrary: x rule: insert_data_loop.induct)
  case (1 path data off w)
  let ?now = "min (length data) 4096"
  show ?case
  proof (cases "data = []")
    case True
    then show ?thesis using 1(2,4) by (simp add: insert_data_loop.simps [of path "[]" off w] fun_upd_idem)
  next
    case False
    obtain r w1 where pw: "sys_pwrite path (take ?now data) off w = (r, w1)" by fastforce
    show ?thesis
    proof (cases r)
      case (Inl e)
      have "insert_data_loop path data off w = neg_errno w1"
        using False Inl by (subst insert_data_loop.simps) (simp only: pw Let_def prod.case sum.case if_False)
      then have "neg_errno w1 = (Inr u, w')" using 1(2) by metis
      then show ?thesis using sys_pwrite_errno [OF pw] Inl by (simp add: io_ok)
    next
      case (Inr n)
      note pw' = pw [unfolded Inr]
      have fit: "unat off + length (take ?now data) \<le> off_max" using 1(6) by simp
      note wh = sys_pwrite_whole [OF pw' 1(3,4,5) fit]
      have full: "\<not> n < ?now" using wh(1) by simp
      have "insert_data_loop path data off w = insert_data_loop path (drop ?now data) (off + word_of_nat ?now) w1"
        using False Inr full by (subst insert_data_loop.simps) (simp only: pw Let_def prod.case sum.case if_False)
      then have l: "insert_data_loop path (drop ?now data) (off + word_of_nat ?now) w1 = (Inr u, w')" using 1(2) by simp
      have un: "unat (word_of_nat ?now :: u64) = ?now"
        using 1(6) by (intro unat_of_nat64) (simp add: off_max_def)
      have o: "unat (off + word_of_nat ?now) = unat off + ?now"
        using 1(6) un by (simp add: unat_add64 off_max_def)
      let ?x1 = "write_at (unat off) (take ?now data) x"
      have "fs w' = (fs w1)(path \<mapsto> write_at (unat (off + word_of_nat ?now)) (drop ?now data) ?x1)"
      proof (rule 1(1) [OF False refl pw [symmetric] Inr full l])
        show "no_short w1" using no_short_keeps [OF scr.keeps_sys_pwrite pw'] 1(3) by simp
        show "fs w1 path = Some ?x1" "fkind ?x1 = Regular" using wh(2) 1(5) by simp_all
        show "unat (off + word_of_nat ?now) + length (drop ?now data) \<le> off_max" using o 1(6) by simp
      qed
      moreover have "write_at (unat off + ?now) (drop ?now data) ?x1 = write_at (unat off) data x"
        using write_at_append [of "unat off" "take ?now data" "drop ?now data" x] by simp
      ultimately show ?thesis using wh(2) o by simp
    qed
  qed
qed

lemma insert_data_whole:
  assumes ok: "insert_data path data off w = (Inr u, w')" and ns: "no_short w"
    and reg: "fkind (file_at w path) = Regular" and fit: "unat off + length data \<le> off_max"
  shows "fs w' = (fs w)(path \<mapsto> write_at (unat off) data (file_at w path))"
proof -
  obtain w1 w2 w3 where o: "open_file path False w = (Inr (), w1)" and s: "sys_seek off w1 = (Inr (), w2)"
    and l: "insert_data_loop path data off w2 = (Inr (), w3)" and w': "fs w' = fs w3"
    using ok unfolding insert_data_def bind_io_ok finally_io_ok by (clarsimp simp: bind_io_ok)
  have f2: "fs w2 = (fs w)(path \<mapsto> file_at w path)" using sys_seek_ok [OF s] open_file_ok [OF o] by simp
  have "no_short w2" using ns no_short_keeps [OF scr.keeps_open_file(2) o] no_short_keeps [OF scr.keeps_sys_seek s] by simp
  then have "fs w3 = (fs w2)(path \<mapsto> write_at (unat off) data (file_at w path))"
    by (rule insert_data_loop_whole [OF l]) (use f2 reg fit in simp_all)
  then show ?thesis using f2 w' by simp
qed


section \<open>A file written piece by piece\<close>

text \<open>
  \<open>patched path ws w w'\<close>: from \<open>w\<close> to \<open>w'\<close> only the file at \<open>path\<close> has changed, and it is a regular file
  with the bytes of the old one after the writes \<open>ws\<close>, first to last. Its length is left open.
\<close>

definition apply_writes :: "(nat \<times> bytes) list \<Rightarrow> inode \<Rightarrow> inode" where
  "apply_writes ws x = fold (\<lambda>(off, bs). write_at off bs) ws x"

definition patched :: "string \<Rightarrow> (nat \<times> bytes) list \<Rightarrow> world \<Rightarrow> world \<Rightarrow> bool" where
  "patched path ws w w' \<longleftrightarrow> (\<exists>y. fs w' = (fs w)(path \<mapsto> y) \<and> fkind y = fkind (file_at w path) \<and>
     fdata y = fdata (apply_writes ws (file_at w path)))"

lemma fdata_apply_writes_cong:
  "fdata x = fdata y \<Longrightarrow> fdata (apply_writes ws x) = fdata (apply_writes ws y)"
proof (induction ws arbitrary: x y)
  case (Cons a ws)
  obtain off bs where a: "a = (off, bs)" by fastforce
  have "fdata (write_at off bs x) i = fdata (write_at off bs y) i" for i
    unfolding disk.rd_wr Cons.prems ..
  then have "fdata (apply_writes ws (write_at off bs x)) = fdata (apply_writes ws (write_at off bs y))"
    by (intro Cons.IH ext)
  then show ?case by (simp add: apply_writes_def a)
qed (simp add: apply_writes_def)

lemma fkind_apply_writes [simp]: "fkind (apply_writes ws x) = fkind x"
  by (induction ws arbitrary: x) (auto simp: apply_writes_def)

lemma apply_writes_append: "apply_writes (as @ bs) x = apply_writes bs (apply_writes as x)"
  by (simp add: apply_writes_def)

lemma file_at_upd [simp]: "fs w' = (fs w)(p \<mapsto> y) \<Longrightarrow> file_at w' p = y"
  by (simp add: file_at_def)

lemma patched_trans:
  assumes "patched p a w w1" "patched p b w1 w2" shows "patched p (a @ b) w w2"
proof -
  obtain y where y: "fs w1 = (fs w)(p \<mapsto> y)" "fkind y = fkind (file_at w p)"
    "fdata y = fdata (apply_writes a (file_at w p))" using assms(1) unfolding patched_def by blast
  obtain z where z: "fs w2 = (fs w1)(p \<mapsto> z)" "fkind z = fkind y" "fdata z = fdata (apply_writes b y)"
    using assms(2) unfolding patched_def file_at_upd [OF y(1)] by blast
  show ?thesis
    unfolding patched_def
  proof (intro exI conjI)
    show "fs w2 = (fs w)(p \<mapsto> z)" unfolding z(1) y(1) by (rule fun_upd_upd)
    show "fkind z = fkind (file_at w p)" using z(2) y(2) by (rule trans)
    show "fdata z = fdata (apply_writes (a @ b) (file_at w p))"
      unfolding z(3) apply_writes_append by (rule fdata_apply_writes_cong [OF y(3)])
  qed
qed

lemma patched_write:
  "fs w' = (fs w)(p \<mapsto> write_at off bs (file_at w p)) \<Longrightarrow> patched p [(off, bs)] w w'"
  by (auto simp: patched_def apply_writes_def)

lemma patched_other: "patched p ws w w' \<Longrightarrow> q \<noteq> p \<Longrightarrow> fs w' q = fs w q"
  by (auto simp: patched_def)

lemma patched_kind: "patched p ws w w' \<Longrightarrow> fkind (file_at w' p) = fkind (file_at w p)"
  by (auto simp: patched_def dest: file_at_upd)

text \<open>A byte that no write covers is as it was; a byte that a write covers and no later one does is as written.\<close>

definition misses :: "(nat \<times> bytes) list \<Rightarrow> nat \<Rightarrow> bool" where
  "misses ws i \<longleftrightarrow> (\<forall>(off, bs) \<in> set ws. i < off \<or> off + length bs \<le> i)"

lemma apply_writes_misses: "misses ws i \<Longrightarrow> fdata (apply_writes ws x) i = fdata x i"
proof (induction ws arbitrary: x)
  case (Cons a ws)
  then show ?case by (cases a) (auto simp: apply_writes_def misses_def disk.rd_wr)
qed (simp add: apply_writes_def)

lemma apply_writes_hit:
  "off \<le> i \<Longrightarrow> i < off + length bs \<Longrightarrow> misses later i \<Longrightarrow>
   fdata (apply_writes (before @ (off, bs) # later) x) i = bs ! (i - off)"
proof -
  assume a: "off \<le> i" "i < off + length bs" "misses later i"
  have "apply_writes (before @ (off, bs) # later) x = apply_writes later (write_at off bs (apply_writes before x))"
    by (simp add: apply_writes_def)
  then show ?thesis using a by (simp add: apply_writes_misses disk.rd_wr)
qed

lemma patched_read:
  assumes "patched p (before @ (off, bs) # later) w w'" "off \<le> i" "i < off + length bs" "misses later i"
  shows "fdata (file_at w' p) i = bs ! (i - off)"
  using assms apply_writes_hit [OF assms(2-4)] by (auto simp: patched_def dest: file_at_upd)


section \<open>Preparing the output\<close>

text \<open>What the kernel's extent map has to say of a file: every byte that is not zero lies in an extent.\<close>

definition fiemap_ok :: "fiemap \<Rightarrow> bool" where
  "fiemap_ok fm \<longleftrightarrow> (\<forall>x. wf_inode x \<longrightarrow> covers off_max (to_extents (fm x)) x)"

lemma fiemap_ok_covers: "fiemap_ok fm \<Longrightarrow> wf_inode x \<Longrightarrow> covers hi (to_extents (fm x)) x"
proof -
  assume f: "fiemap_ok fm" and x: "wf_inode x"
  have "i < off_max" if "fdata x i \<noteq> 0" for i using x that unfolding wf_inode_def by (meson le_trans not_le)
  then show ?thesis using f x unfolding fiemap_ok_def covers_def by blast
qed

lemma errno_syscall_ret: "syscall (ret x) w = (r, w') \<Longrightarrow> errno w \<noteq> 0 \<Longrightarrow> errno w' \<noteq> 0"
  by (auto simp: syscall_def ret_def fail_def tick_def split: fault.splits)

lemma errno_fsync_close: "fsync_close w = (r, w') \<Longrightarrow> errno w \<noteq> 0 \<Longrightarrow> errno w' \<noteq> 0"
proof -
  assume ok: "fsync_close w = (r, w')" and e: "errno w \<noteq> 0"
  obtain a w1 where a: "syscall (ret ()) w = (a, w1)" by fastforce
  obtain b w2 where b: "syscall (ret ()) w1 = (b, w2)" by fastforce
  note s = a b
  have w': "w' = w2"
    using ok by (cases a; cases b) (simp_all add: fsync_close_def try_io_def s ret_def throw_def)
  show ?thesis unfolding w' by (rule errno_syscall_ret [OF s(2) errno_syscall_ret [OF s(1) e]])
qed

lemma is_block_device_False:
  "is_block_device p w = (Inr b, w') \<Longrightarrow> fkind (file_at w p) = Regular \<Longrightarrow> \<not> b"
  by (cases "sys_stat p w"; cases "fst (sys_stat p w)")
    (auto simp: is_block_device_def try_io_def ret_def file_at_def dest!: sys_stat_ok)

lemma sys_ftruncate_errno: "sys_ftruncate p sz w = (Inl e, w') \<Longrightarrow> errno w' \<noteq> 0"
  by (auto simp: sys_ftruncate_def syscall_def with_file_def fail_def split: fault.splits option.splits if_splits)

lemma open_file_trunc:
  assumes "open_file p True w = (Inr u, w')" and "fkind (file_at w p) = Regular"
  shows "fs w' = (fs w)(p \<mapsto> resize 0 (file_at w p))"
proof -
  obtain b w1 where b: "is_block_device p w = (Inr b, w1)" and o: "sys_open_w p (\<not> b) True w1 = (Inr u, w')"
    using assms(1) by (auto simp: open_file_def bind_io_ok)
  have "resize 0 empty_file = empty_file" by (simp add: resize_def empty_file_def)
  then show ?thesis
    using o is_block_device_ok [OF b] assms(2)
    by (cases "fs w p"; cases b) (auto simp: sys_open_w_def io_ok file_at_def set_file_def)
qed

lemma prepare_image_ok:
  assumes "prepare_image fm out sz w = (Inr u, w')" and "sz \<noteq> 0" and r: "fkind (file_at w out) = Regular"
  shows "fs w' = (fs w)(out \<mapsto> resize (unat sz) empty_file)"
proof -
  obtain b w1 where b: "is_block_device out w = (Inr b, w1)"
    and "(if b then try_io (insert_image fm out None 2048 0 0 0 False) (\<lambda>_. ret ())
       else if sz = 0 then
         try_io (sys_unlink out) (\<lambda>r. case r of
             Inl e \<Rightarrow> if e \<noteq> ENOENT then throw e else ret ()
           | Inr _ \<Rightarrow> ret ())
       else bind_io (open_file out True) (\<lambda>_. try_io (sys_ftruncate out sz) (\<lambda>r.
         try_io fsync_close (\<lambda>_. case r of Inl _ \<Rightarrow> neg_errno | Inr _ \<Rightarrow> ret ())))) w1 = (Inr u, w')"
    using assms(1) by (auto simp: prepare_image_def bind_io_ok)
  then obtain w2 t w3 c w4 where o: "open_file out True w1 = (Inr (), w2)" and t: "sys_ftruncate out sz w2 = (t, w3)"
    and c: "fsync_close w3 = (c, w4)" and e: "(case t of Inl _ \<Rightarrow> neg_errno | Inr _ \<Rightarrow> ret ()) w4 = (Inr u, w')"
    using is_block_device_False [OF b r] assms(2) by (auto simp: bind_io_ok try_io_ok)
  have f1: "fs w1 = fs w" by (rule is_block_device_ok [OF b])
  then have f: "file_at w1 out = file_at w out" by (simp add: file_at_def)
  have f2: "fs w2 = (fs w)(out \<mapsto> resize 0 (file_at w out))" using open_file_trunc [OF o] f1 f r by simp
  have f4: "fs w4 = fs w3" using fsync_close_fs [of w3] c by simp
  show ?thesis
  proof (cases t)
    case (Inl x)
    then have "errno w4 \<noteq> 0" using sys_ftruncate_errno t errno_fsync_close [OF c] by blast
    then show ?thesis using e Inl by (simp add: io_ok)
  next
    case (Inr x)
    have "fs w3 = (fs w)(out \<mapsto> resize (unat sz) (resize 0 (file_at w out)))"
      using sys_ftruncate_ok [OF t [unfolded Inr]] f2 by auto
    moreover have "resize (unat sz) (resize 0 (file_at w out)) = resize (unat sz) empty_file"
      using r by (intro inode_eqI) (simp_all add: empty_file_def)
    ultimately show ?thesis using e Inr f4 by (simp add: io_ok)
  qed
qed

end
