(* ===== verification/Image.thy ===== *)
theory Image
  imports FileProps
begin

text \<open>
  The data of \<^verbatim>\<open>genimage.h\<close>: partitions and images, and \<open>image_get\<close> of \<^verbatim>\<open>genimage.c\<close>, which finds an image
  by its file name. Pointers become values: a string pointer that may be NULL is a \<open>string option\<close>, the
  handler of an image is the \<open>type\<close> string of the handler struct, and the address of a partition, which
  the code compares in places, is the number \<open>p_addr\<close>.
\<close>

section \<open>Partitions\<close>

record partition =
  p_addr :: nat
  p_offset :: u64
  p_size :: u64
  p_align :: u64
  p_partition_type :: u8
  p_bootable :: bool
  p_logical :: bool
  p_forced_primary :: bool
  p_read_only :: bool
  p_hidden :: bool
  p_no_automount :: bool
  p_fill :: bool
  p_sparse :: bool
  p_image :: "string option"
  p_imageoffset :: u64
  p_autoresize :: bool
  p_in_partition_table :: bool
  p_name :: string
  p_named :: bool
  p_type_uuid :: "string option"
  p_uuid :: "string option"

text \<open>
  A partition as \<open>xzalloc\<close> makes it. \<open>p_named\<close> tells whether the pointer \<open>name\<close> is not NULL; \<open>p_name\<close> is then the
  string.
\<close>

definition zero_partition :: "nat \<Rightarrow> partition" where
  "zero_partition addr =
     \<lparr>p_addr = addr, p_offset = 0, p_size = 0, p_align = 0, p_partition_type = 0, p_bootable = False,
      p_logical = False, p_forced_primary = False, p_read_only = False, p_hidden = False,
      p_no_automount = False, p_fill = False, p_sparse = False, p_image = None, p_imageoffset = 0,
      p_autoresize = False, p_in_partition_table = False, p_name = [], p_named = False, p_type_uuid = None, p_uuid = None\<rparr>"

definition partition_end :: "partition \<Rightarrow> u64" where
  "partition_end part = p_offset part + p_size part"

text \<open>The bytes a partition covers, for one that does not wrap around.\<close>

definition covered :: "partition \<Rightarrow> nat set" where
  "covered p = {unat (p_offset p)..<unat (p_offset p) + unat (p_size p)}"

definition no_wrap :: "partition \<Rightarrow> bool" where
  "no_wrap p \<longleftrightarrow> unat (p_offset p) + unat (p_size p) < 2 ^ 64"

lemma unat_partition_end: "no_wrap p \<Longrightarrow> unat (partition_end p) = unat (p_offset p) + unat (p_size p)"
  by (simp add: partition_end_def no_wrap_def unat_add64)

section \<open>Flash types\<close>

record flash_type =
  ft_name :: string
  ft_pebsize :: u32
  ft_lebsize :: u32
  ft_numpebs :: u32
  ft_minimum_io_unit_size :: u32
  ft_vid_header_offset :: u32
  ft_sub_page_size :: u32

section \<open>Images\<close>

text \<open>
  \<open>im_seen\<close> and \<open>im_done\<close> are 0 at first, negative when the setup has begun and ended, positive when the
  generation has. \<open>im_mp\<close> is the mount path of the mount point of the image, if it has one. The private
  data of a handler and its section of the configuration are not fields: each handler is modelled with
  its own.
\<close>

record image =
  im_name :: "string option"
  im_file :: string
  im_size :: u64
  im_holes :: "extent list"
  im_size_is_percent :: bool
  im_mountpoint :: "string option"
  im_srcpath :: "string option"
  im_empty :: bool
  im_temporary :: bool
  im_exec_pre :: "string option"
  im_exec_post :: "string option"
  im_handler :: string
  im_done :: int
  im_flash_type :: "flash_type option"
  im_mp :: "string option"
  im_seen :: int
  im_partitions :: "partition list"
  im_outfile :: string

text \<open>The images are a list in the order of the configuration; the first with the name is found.\<close>

fun image_get :: "image list \<Rightarrow> string \<Rightarrow> image option" where
  "image_get [] filename = None"
| "image_get (im # images) filename = (if im_file im = filename then Some im else image_get images filename)"

lemma image_get_SomeD: "image_get images f = Some im \<Longrightarrow> im \<in> set images \<and> im_file im = f"
  by (induction images) (auto split: if_splits)

lemma image_get_None: "image_get images f = None \<longleftrightarrow> (\<forall>im \<in> set images. im_file im \<noteq> f)"
  by (induction images) auto

text \<open>An image for concrete runs: its file is \<open>f\<close> and its size is \<open>s\<close>.\<close>

definition demo_image :: "string \<Rightarrow> u64 \<Rightarrow> image" where
  "demo_image f s = \<lparr>im_name = Some f, im_file = f, im_size = s, im_holes = [], im_size_is_percent = False,
     im_mountpoint = None, im_srcpath = None, im_empty = False, im_temporary = False, im_exec_pre = None,
     im_exec_post = None, im_handler = ''file'', im_done = 0, im_flash_type = None,
     im_mp = None, im_seen = 0, im_partitions = [], im_outfile = f\<rparr>"

end
