(* ===== verification/System.thy ===== *)
theory System
  imports FileRuns Image
begin

text \<open>
  What genimage uses of its surroundings: shell commands, run by \<open>systemp\<close> of \<^verbatim>\<open>util.c\<close>, the environment
  that it sets for them, and the sections of the parsed configuration file.
\<close>

section \<open>Shell commands\<close>

text \<open>
  What a command does is a parameter: the wait status of the shell, and the world after it. A process
  that was killed by a signal has no exit status, and \<open>WEXITSTATUS\<close> of its wait status is 0.
\<close>

datatype wait_status = Exited nat | Signaled nat

fun WEXITSTATUS :: "wait_status \<Rightarrow> nat" where
  "WEXITSTATUS (Exited n) = n mod 256"
| "WEXITSTATUS (Signaled n) = 0"

type_synonym shell = "string \<Rightarrow> world \<Rightarrow> wait_status \<times> world"

text \<open>
  \<open>systemp\<close>: \<open>cmd\<close> is the formatted string. \<open>fork\<close> and \<open>waitpid\<close> are one call of the script. The command is
  added to the record of the commands that were run.
\<close>

definition systemp :: "shell \<Rightarrow> string \<Rightarrow> unit io" where
  "systemp sh cmd = syscall (\<lambda>w.
     (case sh cmd (w\<lparr>cmds := cmds w @ [cmd]\<rparr>) of (status, w') \<Rightarrow>
        if WEXITSTATUS status = 0 then (Inr (), w') else (Inl (Status (WEXITSTATUS status)), w')))"

section \<open>The environment\<close>

type_synonym environ = "string \<Rightarrow> string option"

text \<open>\<open>overwriteenv\<close>: a NULL value is stored as the empty string.\<close>

definition overwriteenv :: "string \<Rightarrow> string option \<Rightarrow> environ \<Rightarrow> environ" where
  "overwriteenv n v env = env(n \<mapsto> (case v of None \<Rightarrow> [] | Some s \<Rightarrow> s))"

section \<open>The configuration\<close>

text \<open>
  A section of the parsed configuration, as libconfuse gives it: its title, its options by their types,
  its lists of strings and its subsections. The defaults are filled in; \<open>cfg_given\<close> tells
  whether \<open>cfg_size\<close> of an option without a default is not 0.
\<close>

datatype cfg = Cfg (cfg_title: string) (cfg_getstr: "string \<Rightarrow> string option") (cfg_getint: "string \<Rightarrow> int")
  (cfg_getbool: "string \<Rightarrow> bool") (cfg_given: "string \<Rightarrow> bool") (cfg_strs: "string \<Rightarrow> string list") (cfg_secs: "string \<Rightarrow> cfg list")

end
