(* ===== verification/Project.thy ===== *)
theory Project
  imports System
begin

text \<open>
  From the configuration to the list of images: the parsing functions of \<^verbatim>\<open>genimage.c\<close> and the part of
  \<open>main\<close> that makes the images, adds the implicit ones and hands the flash types on.
\<close>

section \<open>Handlers\<close>

text \<open>
  What a generate function reads: the images, its own image with the section of its handler and the private
  data, of type \<open>'p\<close>, the result of \<open>mountpath\<close> for the image, and \<open>tmppath()\<close>.
\<close>

record 'p genv =
  g_images :: "image list"
  g_image :: image
  g_sec :: "cfg option"
  g_priv :: "'p option"
  g_mountpath :: "string result"
  g_tmp :: string

text \<open>
  \<open>struct image_handler\<close>: a function pointer that may be NULL is an option. A handler reads the images,
  and changes its own image and, in parse and setup, its private data.
\<close>

record 'p handler =
  h_type :: string
  h_no_rootpath :: bool
  h_parse :: "(image list \<Rightarrow> image \<Rightarrow> cfg option \<Rightarrow> ('p option \<times> image) io) option"
  h_setup :: "(image list \<Rightarrow> image \<Rightarrow> cfg option \<Rightarrow> 'p option \<Rightarrow> ('p option \<times> image) io) option"
  h_generate :: "('p genv \<Rightarrow> image io) option"

fun handler_get :: "'p handler list \<Rightarrow> string \<Rightarrow> 'p handler option" where
  "handler_get [] t = None"
| "handler_get (h # hs) t = (if h_type h = t then Some h else handler_get hs t)"

text \<open>
  \<open>image_set_handler\<close>: the loop counts the sections of all types and keeps the last type that has one;
  any number but one ends the program.
\<close>

fun pick_handler :: "string list \<Rightarrow> cfg \<Rightarrow> string option \<Rightarrow> nat \<Rightarrow> string option \<times> nat" where
  "pick_handler [] cfg h num = (h, num)"
| "pick_handler (t # ts) cfg h num =
     (let x = length (cfg_secs cfg t) in pick_handler ts cfg (if x \<noteq> 0 then Some t else h) (num + x))"

definition image_set_handler :: "string list \<Rightarrow> cfg \<Rightarrow> (string \<times> cfg option) result" where
  "image_set_handler types cfg =
     (case pick_handler types cfg None 0 of
        (Some t, num) \<Rightarrow>
          if num > 1 then Inl (Exit 1) else Inr (t, Some (cfg_secs cfg t ! 0))
      | (None, _) \<Rightarrow> Inl (Exit 1))"

section \<open>Flash types and partitions\<close>

definition parse_flash :: "cfg \<Rightarrow> flash_type result" where
  "parse_flash sec =
     rbind (cfg_getint_suffix (cfg_getstr sec ''pebsize'')) (\<lambda>peb.
     rbind (cfg_getint_suffix (cfg_getstr sec ''lebsize'')) (\<lambda>leb.
     rbind (cfg_getint_suffix (cfg_getstr sec ''numpebs'')) (\<lambda>num.
     rbind (cfg_getint_suffix (cfg_getstr sec ''minimum-io-unit-size'')) (\<lambda>unit_size.
     rbind (cfg_getint_suffix (cfg_getstr sec ''vid-header-offset'')) (\<lambda>vid.
     rbind (cfg_getint_suffix (cfg_getstr sec ''sub-page-size'')) (\<lambda>sub.
       Inr \<lparr>ft_name = cfg_title sec, ft_pebsize = ucast peb, ft_lebsize = ucast leb, ft_numpebs = ucast num,
            ft_minimum_io_unit_size = ucast unit_size, ft_vid_header_offset = ucast vid,
            ft_sub_page_size = ucast sub\<rparr>))))))"

fun parse_flashes :: "cfg list \<Rightarrow> flash_type list result" where
  "parse_flashes [] = Inr []"
| "parse_flashes (sec # secs) =
     rbind (parse_flash sec) (\<lambda>f. rbind (parse_flashes secs) (\<lambda>fls. Inr (f # fls)))"

fun flash_type_get :: "flash_type list \<Rightarrow> string \<Rightarrow> flash_type option" where
  "flash_type_get [] n = None"
| "flash_type_get (f # fls) n = (if ft_name f = n then Some f else flash_type_get fls n)"

text \<open>One partition; its address is its position in the list.\<close>

definition parse_partition :: "nat \<Rightarrow> cfg \<Rightarrow> partition result" where
  "parse_partition i sec =
     rbind (cfg_getint_suffix (cfg_getstr sec ''size'')) (\<lambda>sz.
     rbind (cfg_getint_suffix (cfg_getstr sec ''offset'')) (\<lambda>off.
     rbind (cfg_getint_suffix (cfg_getstr sec ''align'')) (\<lambda>al.
     rbind (cfg_getint_suffix (cfg_getstr sec ''imageoffset'')) (\<lambda>ioff.
       Inr ((zero_partition i)\<lparr>p_name := cfg_title sec, p_named := True, p_size := sz, p_offset := off, p_align := al,
         p_partition_type := word_of_int (cfg_getint sec ''partition-type''),
         p_bootable := cfg_getbool sec ''bootable'', p_forced_primary := cfg_getbool sec ''forced-primary'',
         p_read_only := cfg_getbool sec ''read-only'', p_hidden := cfg_getbool sec ''hidden'',
         p_no_automount := cfg_getbool sec ''no-automount'', p_fill := cfg_getbool sec ''fill'',
         p_sparse := cfg_getbool sec ''sparse'', p_image := cfg_getstr sec ''image'', p_imageoffset := ioff,
         p_autoresize := cfg_getbool sec ''autoresize'', p_in_partition_table := cfg_getbool sec ''in-partition-table'',
         p_type_uuid := cfg_getstr sec ''partition-type-uuid'', p_uuid := cfg_getstr sec ''partition-uuid''\<rparr>)))))"

fun parse_partitions :: "nat \<Rightarrow> cfg list \<Rightarrow> partition list result" where
  "parse_partitions i [] = Inr []"
| "parse_partitions i (sec # secs) =
     rbind (parse_partition i sec) (\<lambda>p. rbind (parse_partitions (Suc i) secs) (\<lambda>ps. Inr (p # ps)))"

text \<open>A partition that a handler adds at the end of the list.\<close>

definition add_partition :: "(partition \<Rightarrow> partition) \<Rightarrow> image \<Rightarrow> image" where
  "add_partition f im = im\<lparr>im_partitions := im_partitions im @ [f (zero_partition (length (im_partitions im)))]\<rparr>"

definition file_part :: "string option \<Rightarrow> string option \<Rightarrow> partition \<Rightarrow> partition" where
  "file_part n f p = p\<lparr>p_name := (case n of None \<Rightarrow> [] | Some s \<Rightarrow> s), p_named := (n \<noteq> None), p_image := f\<rparr>"

section \<open>Making an image\<close>

text \<open>The paths that are needed: \<open>tmppath()\<close> and \<open>imagepath()\<close>.\<close>

record paths =
  tmp_path :: string
  image_path :: string
  input_path :: string
  root_path :: string

definition image_outfile :: "paths \<Rightarrow> bool \<Rightarrow> string \<Rightarrow> string" where
  "image_outfile pt temporary file' =
     (if file' \<noteq> [] \<and> hd file' = CHR ''/'' then file'
      else (if temporary then tmp_path pt else image_path pt) @ ''/'' @ file')"

text \<open>One leading slash of a mountpoint is skipped.\<close>

fun skip_slash :: "string option \<Rightarrow> string option" where
  "skip_slash None = None"
| "skip_slash (Some []) = Some []"
| "skip_slash (Some (c # cs)) = Some (if c = CHR ''/'' then cs else c # cs)"

definition zero_image :: "string \<Rightarrow> string \<Rightarrow> image" where
  "zero_image file' handler' =
     \<lparr>im_name = None, im_file = file', im_size = 0, im_holes = [], im_size_is_percent = False, im_mountpoint = None,
      im_srcpath = None, im_empty = False, im_temporary = False, im_exec_pre = None, im_exec_post = None,
      im_handler = handler', im_done = 0, im_flash_type = None, im_mp = None, im_seen = 0, im_partitions = [],
      im_outfile = []\<rparr>"

text \<open>
  The image of one section, before its handler parses it. A section with both a \<open>srcpath\<close> and a
  mountpoint jumps to the end of \<open>main\<close> with the \<open>ret\<close> of an earlier success, which is \<open>Status 0\<close>.
\<close>

definition new_image :: "paths \<Rightarrow> flash_type list \<Rightarrow> string list \<Rightarrow> cfg \<Rightarrow> (image \<times> cfg option) result" where
  "new_image pt flashes types sec =
     rbind (cfg_getint_suffix_percent (cfg_getstr sec ''size'') False) (\<lambda>(sz, percent).
     let srcpath = cfg_getstr sec ''srcpath'';
         mp = skip_slash (cfg_getstr sec ''mountpoint'') in
     rbind (ensure (\<not> (srcpath \<noteq> None \<and> mp \<noteq> None \<and> mp \<noteq> Some [])) (Status 0)) (\<lambda>_.
     rbind (image_set_handler types sec) (\<lambda>(t, hsec).
     rbind (parse_partitions 0 (cfg_secs sec ''partition'')) (\<lambda>ps.
       Inr ((zero_image (cfg_title sec) t)\<lparr>im_name := cfg_getstr sec ''name'',
         im_size := sz, im_size_is_percent := percent, im_srcpath := srcpath, im_mountpoint := mp,
         im_empty := cfg_getbool sec ''empty'', im_temporary := cfg_getbool sec ''temporary'',
         im_exec_pre := cfg_getstr sec ''exec-pre'', im_exec_post := cfg_getstr sec ''exec-post'',
         im_outfile := image_outfile pt (cfg_getbool sec ''temporary'') (cfg_title sec),
         im_flash_type := Option.bind (cfg_getstr sec ''flashtype'') (flash_type_get flashes),
         im_partitions := ps\<rparr>, hsec)))))"

end
