(* ===== verification/Mounts.thy ===== *)
theory Mounts
  imports Project
begin

text \<open>
  Directories: the size of a tree (\<open>dir_size\<close> of \<^verbatim>\<open>util.c\<close>), and of \<^verbatim>\<open>genimage.c\<close> the mountpoints, which are
  split off the root tree into directories of their own, the temporary directory and the include path.
\<close>

section \<open>The size of a directory tree\<close>

text \<open>
  What \<open>readdir\<close> and \<open>stat\<close> say of the entries of a directory: a regular file with its size, if \<open>stat\<close>
  succeeds; a directory with its entries, if it can be opened; or something else.
\<close>

datatype dnode = DReg "u64 option" | DDir "(string \<times> dnode) list option" | DOther

function dir_size :: "u64 \<Rightarrow> (string \<times> dnode) list option \<Rightarrow> u64"
  and dir_entries :: "u64 \<Rightarrow> (string \<times> dnode) list \<Rightarrow> u64" where
  "dir_size blocksize None = 0"
| "dir_size blocksize (Some es) = dir_entries blocksize es + blocksize"
| "dir_entries blocksize [] = 0"
| "dir_entries blocksize ((n, DDir sub) # es) =
     (if n = ''.'' \<or> n = ''..'' then 0 else dir_size blocksize sub) + dir_entries blocksize es"
| "dir_entries blocksize ((n, DReg st) # es) =
     (case st of Some st_size \<Rightarrow> ROUND_UP st_size blocksize | None \<Rightarrow> 0) + dir_entries blocksize es"
| "dir_entries blocksize ((n, DOther) # es) = dir_entries blocksize es"
  by pat_completeness auto
termination
  by (relation "measure (case_sum (\<lambda>(_, o'). size_option (size_list (size_prod (\<lambda>_. 0) size)) o')
      (\<lambda>(_, es). size_list (size_prod (\<lambda>_. 0) size) es))") auto

section \<open>Mountpoints\<close>

text \<open>A mountpoint is its path below the root and the directory that it is moved to.\<close>

type_synonym mountpoints = "(string \<times> string) list"

fun get_mountpoint :: "string \<Rightarrow> mountpoints \<Rightarrow> string option" where
  "get_mountpoint path [] = None"
| "get_mountpoint path ((p, mp) # mps) = (if p = path then Some mp else get_mountpoint path mps)"

definition add_mountpoint :: "paths \<Rightarrow> string \<Rightarrow> mountpoints \<Rightarrow> string \<times> mountpoints" where
  "add_mountpoint pt path mps =
     (case get_mountpoint path mps of Some mp \<Rightarrow> (mp, mps)
      | None \<Rightarrow> let mp = tmp_path pt @ ''/mp-'' @ sanitize_path path in (mp, mps @ [(path, mp)]))"

definition add_root_mountpoint :: "paths \<Rightarrow> mountpoints \<Rightarrow> mountpoints" where
  "add_root_mountpoint pt mps = mps @ [([], tmp_path pt @ ''/root'')]"

text \<open>The loop that gives every image its mountpoint.\<close>

fun add_mountpoints :: "paths \<Rightarrow> image list \<Rightarrow> mountpoints \<Rightarrow> image list \<times> mountpoints" where
  "add_mountpoints pt [] mps = ([], mps)"
| "add_mountpoints pt (im # ims) mps =
     (case im_mountpoint im of
        None \<Rightarrow> (case add_mountpoints pt ims mps of (ims', mps') \<Rightarrow> (im # ims', mps'))
      | Some path \<Rightarrow>
          (case add_mountpoint pt path mps of (mp, mps1) \<Rightarrow>
          (case add_mountpoints pt ims mps1 of (ims', mps') \<Rightarrow> (im\<lparr>im_mp := Some mp\<rparr> # ims', mps'))))"

text \<open>Quoting and joining the words of a command.\<close>

definition quoted :: "string \<Rightarrow> string" where
  "quoted s = CHR 0x22 # s @ [CHR 0x22]"

definition root_sub :: "paths \<Rightarrow> string \<Rightarrow> string" where
  "root_sub pt path = tmp_path pt @ ''/root/'' @ path"

text \<open>The four commands for one mountpoint; the root, whose path is empty, stays where it is.\<close>

definition split_mountpoint :: "shell \<Rightarrow> paths \<Rightarrow> string \<times> string \<Rightarrow> unit io" where
  "split_mountpoint sh pt = (\<lambda>(path, mp).
     if path = [] then ret ()
     else
       bind_io (systemp sh (''mv '' @ quoted (root_sub pt path) @ '' '' @ quoted mp)) (\<lambda>_.
       bind_io (systemp sh (''mkdir '' @ quoted (root_sub pt path))) (\<lambda>_.
       bind_io (systemp sh (''chmod --reference='' @ quoted mp @ '' '' @ quoted (root_sub pt path))) (\<lambda>_.
         systemp sh (''chown --reference='' @ quoted mp @ '' '' @ quoted (root_sub pt path))))))"

fun split_mountpoints :: "shell \<Rightarrow> paths \<Rightarrow> mountpoints \<Rightarrow> unit io" where
  "split_mountpoints sh pt [] = ret ()"
| "split_mountpoints sh pt (m # mps) = bind_io (split_mountpoint sh pt m) (\<lambda>_. split_mountpoints sh pt mps)"

definition single_quoted :: "string \<Rightarrow> string" where
  "single_quoted s = CHR 0x27 # s @ [CHR 0x27]"

definition mtime_fixup :: "paths \<Rightarrow> string" where
  "mtime_fixup pt =
     ''find '' @ single_quoted (tmp_path pt @ ''/root'') @ '' -depth -type d -printf '' @ single_quoted (''%P'' @ [CHR 0x5C] @ ''0'')
     @ '' | xargs -0 -I {} touch -r '' @ single_quoted (root_path pt @ ''/{}'') @ '' ''
     @ single_quoted (tmp_path pt @ ''/root/{}'')"

text \<open>
  \<open>collect_mountpoints\<close>. \<open>no_root\<close> says of an image whether its handler needs no root path. The result has
  the images, the mountpoints and the root path, which is empty when no image needs the root.
\<close>

definition needs_root :: "(string \<Rightarrow> bool) \<Rightarrow> image \<Rightarrow> bool" where
  "needs_root no_root im \<longleftrightarrow> \<not> (im_empty im \<or> no_root (im_handler im) \<or> im_srcpath im \<noteq> None)"

definition collect_mountpoints ::
  "shell \<Rightarrow> (string \<Rightarrow> bool) \<Rightarrow> paths \<Rightarrow> image list \<Rightarrow> (image list \<times> mountpoints \<times> paths) io" where
  "collect_mountpoints sh no_root pt images =
     (if \<not> list_ex (needs_root no_root) images then ret (images, [], pt\<lparr>root_path := []\<rparr>)
      else
        bind_io (systemp sh (''mkdir -p '' @ quoted (tmp_path pt))) (\<lambda>_.
        bind_io (systemp sh (''cp -a '' @ quoted (root_path pt) @ '' '' @ quoted (tmp_path pt @ ''/root''))) (\<lambda>_.
        case add_mountpoints pt images (add_root_mountpoint pt []) of (images', mps) \<Rightarrow>
        bind_io (split_mountpoints sh pt mps) (\<lambda>_.
        bind_io (if list_ex (\<lambda>(path, mp). path \<noteq> []) mps then systemp sh (mtime_fixup pt) else ret ()) (\<lambda>_.
          ret (images', mps, pt))))))"

text \<open>\<open>mountpath\<close>; without a root mountpoint the code follows a NULL pointer.\<close>

definition mountpath :: "(string \<Rightarrow> bool) \<Rightarrow> mountpoints \<Rightarrow> image \<Rightarrow> string result" where
  "mountpath no_root mps im =
     (case im_srcpath im of Some p \<Rightarrow> Inr p
      | None \<Rightarrow>
          if im_empty im \<or> no_root (im_handler im) then Inr []
          else case im_mp im of Some mp \<Rightarrow> Inr mp
          | None \<Rightarrow> (case get_mountpoint [] mps of None \<Rightarrow> Inl Undefined | Some mp \<Rightarrow> Inr mp))"

text \<open>\<open>image_dir_size\<close>; \<open>tree\<close> gives the entries of a directory that can be opened.\<close>

definition image_dir_size ::
  "(string \<Rightarrow> (string \<times> dnode) list option) \<Rightarrow> (string \<Rightarrow> bool) \<Rightarrow> mountpoints \<Rightarrow> image \<Rightarrow> u64 result" where
  "image_dir_size tree no_root mps im =
     (if im_empty im then Inr 0 else rbind (mountpath no_root mps im) (\<lambda>p. Inr (dir_size 4096 (tree p))))"

section \<open>The temporary directory\<close>

datatype tmppath_state = TMPPATH_NONE | TMPPATH_CHECKED | TMPPATH_CREATED

text \<open>
  \<open>check_tmp_path\<close>: \<open>entries\<close> is how many entries \<open>readdir\<close> finds, \<open>None\<close> if the directory cannot be opened.
  Two entries, the directory and its parent, are those of an empty one.
\<close>

definition check_tmp_path :: "shell \<Rightarrow> string option \<Rightarrow> nat option \<Rightarrow> tmppath_state io" where
  "check_tmp_path sh tmp entries =
     (case tmp of None \<Rightarrow> throw (Exit 1)
      | Some t \<Rightarrow>
          (case entries of
             None \<Rightarrow> try_io (systemp sh (''mkdir -p '' @ quoted t))
               (\<lambda>r. case r of Inl _ \<Rightarrow> throw (Exit 1) | Inr _ \<Rightarrow> ret TMPPATH_CREATED)
           | Some n \<Rightarrow> if n > 2 then throw (Exit 1) else ret TMPPATH_CHECKED))"

definition cleanup :: "shell \<Rightarrow> string \<Rightarrow> tmppath_state \<Rightarrow> unit io" where
  "cleanup sh tmp st =
     (case st of
        TMPPATH_CREATED \<Rightarrow> try_io (systemp sh (''rm -rf '' @ quoted (tmp @ ''/''))) (\<lambda>_. ret ())
      | TMPPATH_CHECKED \<Rightarrow> try_io (systemp sh (''rm -rf '' @ quoted tmp @ ''/*'')) (\<lambda>_. ret ())
      | TMPPATH_NONE \<Rightarrow> ret ())"

section \<open>The include path\<close>

text \<open>
  \<open>set_include_path\<close>: the directories, in order, that are handed to \<open>cfg_add_searchpath\<close>, which may
  refuse one.
\<close>

fun split_colon :: "string \<Rightarrow> string \<times> string option" where
  "split_colon [] = ([], None)"
| "split_colon (c # cs) =
     (if c = CHR '':'' then ([], Some cs) else (case split_colon cs of (s, e) \<Rightarrow> (c # s, e)))"

lemma split_colon_shorter: "split_colon path = (s, Some e) \<Longrightarrow> length e < length path"
  by (induction path arbitrary: s) (auto split: if_splits prod.splits)

function add_searchpaths :: "(string \<Rightarrow> bool) \<Rightarrow> string \<Rightarrow> string list \<Rightarrow> string list result" where
  "add_searchpaths accepts path added =
     (case split_colon path of (s, e) \<Rightarrow>
        if \<not> accepts s then Inl (Errno 1)
        else (case e of None \<Rightarrow> Inr (added @ [s]) | Some path' \<Rightarrow> add_searchpaths accepts path' (added @ [s])))"
  by pat_completeness auto
termination
  by (relation "measure (\<lambda>(_, path, _). length path)") (auto dest: split_colon_shorter [OF sym])

declare add_searchpaths.simps [simp del]

definition set_include_path :: "(string \<Rightarrow> bool) \<Rightarrow> string \<Rightarrow> string list result" where
  "set_include_path accepts path =
     rbind (add_searchpaths accepts path []) (\<lambda>added. if accepts ''.'' then Inr (added @ [''.'']) else Inl (Errno 1))"

end
