(* ===== verification/Config.thy ===== *)
theory Config
  imports CString
begin

text \<open>
  The options of the program, \<^verbatim>\<open>config.c\<close>: the table of options, where their values come from, and the
  paths that are computed from them. The environment, the parsed configuration file and the parsed
  command line (the work of \<open>getenv\<close>, libconfuse and \<open>getopt_long\<close>) are parameters.
\<close>

section \<open>The options\<close>

text \<open>
  \<open>c_opt\<close> is the name of the option in the configuration file, for those that can be set there. The list
  links of the struct are the list of the model.
\<close>

record config =
  c_name :: string
  c_opt :: "string option"
  c_env :: string
  c_value :: "string option"
  c_def :: "string option"
  c_hidden :: bool

definition config_opt :: "string \<Rightarrow> string option \<Rightarrow> string \<Rightarrow> string option \<Rightarrow> config" where
  "config_opt n cfgname env def' =
     \<lparr>c_name = n, c_opt = cfgname, c_env = env, c_value = None, c_def = def', c_hidden = False\<rparr>"

text \<open>The array \<open>opts\<close>, in two parts. A build without \<open>HAVE_SEARCHPATH\<close> hides one option from the help.\<close>

definition opts_first :: "config list" where
  "opts_first = [
     config_opt ''loglevel'' (Some ''loglevel'') ''GENIMAGE_LOGLEVEL'' (Some ''1''),
     config_opt ''rootpath'' (Some ''rootpath'') ''GENIMAGE_ROOTPATH'' (Some ''root''),
     config_opt ''tmppath'' (Some ''tmppath'') ''GENIMAGE_TMPPATH'' (Some ''tmp''),
     config_opt ''inputpath'' (Some ''inputpath'') ''GENIMAGE_INPUTPATH'' (Some ''input''),
     config_opt ''outputpath'' (Some ''outputpath'') ''GENIMAGE_OUTPUTPATH'' (Some ''images''),
     config_opt ''includepath'' (Some ''includepath'') ''GENIMAGE_INCLUDEPATH'' None,
     config_opt ''cpio'' (Some ''cpio'') ''GENIMAGE_CPIO'' (Some ''cpio''),
     config_opt ''dd'' (Some ''dd'') ''GENIMAGE_DD'' (Some ''dd''),
     config_opt ''debugfs'' (Some ''debugfs'') ''GENIMAGE_DEBUGFS'' (Some ''debugfs''),
     config_opt ''e2fsck'' (Some ''e2fsck'') ''GENIMAGE_E2FSCK'' (Some ''e2fsck''),
     config_opt ''genext2fs'' (Some ''genext2fs'') ''GENIMAGE_GENEXT2FS'' (Some ''genext2fs''),
     config_opt ''genisoimage'' (Some ''genisoimage'') ''GENIMAGE_GENISOIMAGE'' (Some ''genisoimage''),
     config_opt ''mcopy'' (Some ''mcopy'') ''GENIMAGE_MCOPY'' (Some ''mcopy''),
     config_opt ''mmd'' (Some ''mmd'') ''GENIMAGE_MMD'' (Some ''mmd''),
     config_opt ''mkcramfs'' (Some ''mkcramfs'') ''GENIMAGE_MKCRAMFS'' (Some ''mkfs.cramfs''),
     config_opt ''mkdosfs'' (Some ''mkdosfs'') ''GENIMAGE_MKDOSFS'' (Some ''mkdosfs''),
     config_opt ''mke2fs'' (Some ''mke2fs'') ''GENIMAGE_MKE2FS'' (Some ''mke2fs''),
     config_opt ''mkfserofs'' (Some ''mkfserofs'') ''GENIMAGE_MKFSEROFS'' (Some ''mkfs.erofs'')]"

definition opts_last :: "config list" where
  "opts_last = [
     config_opt ''mkfsjffs2'' (Some ''mkfsjffs2'') ''GENIMAGE_MKFJFFS2'' (Some ''mkfs.jffs2''),
     config_opt ''mkfsf2fs'' (Some ''mkfsf2fs'') ''GENIMAGE_MKFSF2FS'' (Some ''mkfs.f2fs''),
     config_opt ''mkfsbtrfs'' (Some ''mkfsfbtrfs'') ''GENIMAGE_MKFSBTRFS'' (Some ''mkfs.btrfs''),
     config_opt ''openssl'' (Some ''openssl'') ''GENIMAGE_OPENSSL'' (Some ''openssl''),
     config_opt ''sloadf2fs'' (Some ''sloadf2fs'') ''GENIMAGE_SLOADF2FS'' (Some ''sload.f2fs''),
     config_opt ''mkfsubifs'' (Some ''mkfsubifs'') ''GENIMAGE_MKFSUBIFS'' (Some ''mkfs.ubifs''),
     config_opt ''mksquashfs'' (Some ''mksquashfs'') ''GENIMAGE_MKSQUASHFS'' (Some ''mksquashfs''),
     config_opt ''qemu-img'' (Some ''qemu-img'') ''GENIMAGE_QEMU'' (Some ''qemu-img''),
     config_opt ''randomseed'' (Some ''randomseed'') ''GENIMAGE_RANDOMSEED'' None,
     config_opt ''rauc'' (Some ''rauc'') ''GENIMAGE_RAUC'' (Some ''rauc''),
     config_opt ''tar'' (Some ''tar'') ''GENIMAGE_TAR'' (Some ''tar''),
     config_opt ''tune2fs'' (Some ''tune2fs'') ''GENIMAGE_TUNE2FS'' (Some ''tune2fs''),
     config_opt ''ubinize'' (Some ''ubinize'') ''GENIMAGE_UBINIZE'' (Some ''ubinize''),
     config_opt ''mkimage'' (Some ''mkimage'') ''GENIMAGE_MKIMAGE'' (Some ''mkimage''),
     config_opt ''fiptool'' (Some ''fiptool'') ''GENIMAGE_FIPTOOL'' (Some ''fiptool''),
     config_opt ''veritysetup'' (Some ''veritysetup'') ''GENIMAGE_VERITYSETUP'' (Some ''veritysetup''),
     config_opt ''config'' None ''GENIMAGE_CONFIG'' (Some ''genimage.cfg''),
     config_opt ''configdump'' None ''GENIMAGE_CONFIGDUMP'' None]"

definition init_config :: "config list" where
  "init_config = opts_first @ opts_last"

section \<open>Reading and setting an option\<close>

fun get_opt :: "string \<Rightarrow> config list \<Rightarrow> string option" where
  "get_opt n [] = None"
| "get_opt n (c # cs) = (if c_name c = n then c_value c else get_opt n cs)"

fun set_opt :: "string \<Rightarrow> string \<Rightarrow> config list \<Rightarrow> config list result" where
  "set_opt n v [] = Inl EINVAL"
| "set_opt n v (c # cs) =
     (if c_name c = n then Inr (c\<lparr>c_value := Some v\<rparr> # cs)
      else rbind (set_opt n v cs) (\<lambda>cs'. Inr (c # cs')))"

text \<open>The calls whose result is not used.\<close>

definition try_set_opt :: "string \<Rightarrow> string option \<Rightarrow> config list \<Rightarrow> config list" where
  "try_set_opt n v cs =
     (case v of None \<Rightarrow> cs | Some v' \<Rightarrow> (case set_opt n v' cs of Inl _ \<Rightarrow> cs | Inr cs' \<Rightarrow> cs'))"

text \<open>\<open>get_confuse_opts\<close>: the options that the configuration file may set.\<close>

definition get_confuse_opts :: "config list \<Rightarrow> string list" where
  "get_confuse_opts cs = map (\<lambda>c. the (c_opt c)) (filter (\<lambda>c. c_opt c \<noteq> None) cs) @ [''gpt-shortcuts'']"

section \<open>set_config_opts\<close>

text \<open>
  The section \<open>config\<close> of the parsed configuration file: its options and its GPT shortcuts, each a pair
  of a name and a value. It is \<open>None\<close> as long as the file is not parsed, or has no such section.
\<close>

record config_section =
  cs_str :: "string \<Rightarrow> string option"
  cs_shortcuts :: "(string \<times> string) list"

text \<open>What one call of \<open>getopt_long\<close> returns: an option of the table by its index, \<open>-h\<close>, \<open>-v\<close>, or an error.\<close>

datatype cmdline = CmdOpt nat string | CmdHelp | CmdVersion | CmdInvalid

text \<open>The first loop: the default, the environment, and the configuration file, for every option.\<close>

definition set_from :: "(string \<Rightarrow> string option) \<Rightarrow> config_section option \<Rightarrow> config \<Rightarrow> config list \<Rightarrow> config list" where
  "set_from env sec c cs =
     (let cs1 = try_set_opt (c_name c) (c_def c) cs;
          cs2 = try_set_opt (c_name c) (env (c_env c)) cs1 in
      (case (sec, c_opt c) of
         (Some s, Some o') \<Rightarrow> try_set_opt (c_name c) (cs_str s o') cs2
       | _ \<Rightarrow> cs2))"

text \<open>The second loop: the switches of the command line.\<close>

fun set_switches :: "cmdline list \<Rightarrow> config list \<Rightarrow> config list result" where
  "set_switches [] cs = Inr cs"
| "set_switches (CmdOpt i arg # evs) cs =
     (if i < length cs then rbind (set_opt (c_name (cs ! i)) arg cs) (set_switches evs) else Inl Undefined)"
| "set_switches (CmdHelp # evs) cs = Inl (Exit 0)"
| "set_switches (CmdVersion # evs) cs = Inl (Exit 0)"
| "set_switches (CmdInvalid # evs) cs = Inl EINVAL"

definition set_config_opts ::
  "(string \<Rightarrow> string option) \<Rightarrow> config_section option \<Rightarrow> cmdline list \<Rightarrow> config list \<Rightarrow> config list result" where
  "set_config_opts env sec evs cs = set_switches evs (fold (set_from env sec) cs cs)"

text \<open>\<open>get_gpt_shortcuts\<close> after the call: the shortcuts of the section, those of before without one.\<close>

definition get_gpt_shortcuts :: "config_section option \<Rightarrow> (string \<times> string) list \<Rightarrow> (string \<times> string) list" where
  "get_gpt_shortcuts sec old = (case sec of None \<Rightarrow> old | Some s \<Rightarrow> cs_shortcuts s)"

section \<open>Paths\<close>

text \<open>\<open>cwd\<close> is the current directory. Like the code, \<open>abspath\<close> reads the first character of a path.\<close>

definition abspath :: "string \<Rightarrow> string \<Rightarrow> string" where
  "abspath cwd path = (if path \<noteq> [] \<and> hd path = CHR ''/'' then path else cwd @ ''/'' @ path)"

text \<open>The paths that were computed once; they are not computed again.\<close>

record path_cache =
  pc_output :: "string option"
  pc_input :: "string option"
  pc_root :: "string option"
  pc_tmp :: "string option"

definition no_paths :: path_cache where
  "no_paths = \<lparr>pc_output = None, pc_input = None, pc_root = None, pc_tmp = None\<rparr>"

text \<open>The path of an option, from the cache if it is there. An option without a value is a NULL pointer.\<close>

definition cached_path :: "string \<Rightarrow> config list \<Rightarrow> string \<Rightarrow> string option \<Rightarrow> string result" where
  "cached_path cwd cs n cached =
     (case cached of Some p \<Rightarrow> Inr p
      | None \<Rightarrow> (case get_opt n cs of None \<Rightarrow> Inl Undefined | Some p \<Rightarrow> Inr (abspath cwd p)))"

definition imagepath :: "string \<Rightarrow> config list \<Rightarrow> path_cache \<Rightarrow> (string \<times> path_cache) result" where
  "imagepath cwd cs pc = rbind (cached_path cwd cs ''outputpath'' (pc_output pc)) (\<lambda>p. Inr (p, pc\<lparr>pc_output := Some p\<rparr>))"

definition inputpath :: "string \<Rightarrow> config list \<Rightarrow> path_cache \<Rightarrow> (string \<times> path_cache) result" where
  "inputpath cwd cs pc = rbind (cached_path cwd cs ''inputpath'' (pc_input pc)) (\<lambda>p. Inr (p, pc\<lparr>pc_input := Some p\<rparr>))"

definition rootpath :: "string \<Rightarrow> config list \<Rightarrow> path_cache \<Rightarrow> (string \<times> path_cache) result" where
  "rootpath cwd cs pc = rbind (cached_path cwd cs ''rootpath'' (pc_root pc)) (\<lambda>p. Inr (p, pc\<lparr>pc_root := Some p\<rparr>))"

definition tmppath :: "string \<Rightarrow> config list \<Rightarrow> path_cache \<Rightarrow> (string \<times> path_cache) result" where
  "tmppath cwd cs pc = rbind (cached_path cwd cs ''tmppath'' (pc_tmp pc)) (\<lambda>p. Inr (p, pc\<lparr>pc_tmp := Some p\<rparr>))"

definition disable_rootpath :: "path_cache \<Rightarrow> path_cache" where
  "disable_rootpath pc = pc\<lparr>pc_root := Some []\<rparr>"


section \<open>What the operations do\<close>

lemma get_opt_not_in: "n \<notin> set (map c_name cs) \<Longrightarrow> get_opt n cs = None"
  by (induction cs) auto

lemma set_opt_ok: "set_opt n v cs = Inr cs' \<Longrightarrow>
   map c_name cs' = map c_name cs \<and> n \<in> set (map c_name cs) \<and> (\<forall>m. get_opt m cs' = (if m = n then Some v else get_opt m cs))"
  by (induction cs arbitrary: cs') (auto simp: rbind_ok split: if_splits)

lemma set_opt_fails: "set_opt n v cs = Inl e \<longleftrightarrow> n \<notin> set (map c_name cs) \<and> e = EINVAL"
  by (induction cs) (auto simp: rbind_def split: sum.splits)

lemma try_set_opt_get:
  "map c_name (try_set_opt n v cs) = map c_name cs \<and>
   get_opt m (try_set_opt n v cs) = (if m = n \<and> n \<in> set (map c_name cs) \<and> v \<noteq> None then v else get_opt m cs)"
proof (cases v)
  case (Some x)
  show ?thesis
  proof (cases "set_opt n x cs")
    case (Inl e)
    then show ?thesis using set_opt_fails [of n x cs e] by (simp add: try_set_opt_def Some)
  next
    case (Inr cs')
    then show ?thesis using set_opt_ok [OF Inr] by (simp add: try_set_opt_def Some)
  qed
qed (simp add: try_set_opt_def)

lemmas try_set_opt_simps [simp] = try_set_opt_get [THEN conjunct1] try_set_opt_get [THEN conjunct2]

text \<open>The value that an option has before the command line is read; \<open>old\<close> is the one from before.\<close>

definition configured :: "(string \<Rightarrow> string option) \<Rightarrow> config_section option \<Rightarrow> config \<Rightarrow> string option \<Rightarrow> string option" where
  "configured env sec c old =
     (case Option.bind sec (\<lambda>s. Option.bind (c_opt c) (cs_str s)) of Some v \<Rightarrow> Some v
      | None \<Rightarrow> (case env (c_env c) of Some v \<Rightarrow> Some v | None \<Rightarrow> (case c_def c of Some v \<Rightarrow> Some v | None \<Rightarrow> old)))"

lemma set_from_get:
  assumes "c_name c \<in> set (map c_name cs)"
  shows "map c_name (set_from env sec c cs) = map c_name cs"
    "get_opt m (set_from env sec c cs) = (if m = c_name c then configured env sec c (get_opt m cs) else get_opt m cs)"
  using assms unfolding set_from_def configured_def Let_def
  by (auto simp del: list.set_map split: option.split)

lemma fold_set_from:
  "distinct (map c_name ds) \<Longrightarrow> set (map c_name ds) \<subseteq> set (map c_name cs) \<Longrightarrow>
   map c_name (fold (set_from env sec) ds cs) = map c_name cs \<and>
   (\<forall>c \<in> set ds. get_opt (c_name c) (fold (set_from env sec) ds cs) = configured env sec c (get_opt (c_name c) cs)) \<and>
   (\<forall>m. m \<notin> set (map c_name ds) \<longrightarrow> get_opt m (fold (set_from env sec) ds cs) = get_opt m cs)"
proof (induction ds arbitrary: cs)
  case (Cons d ds)
  let ?cs = "set_from env sec d cs"
  have d: "c_name d \<in> set (map c_name cs)" using Cons.prems(2) by simp
  note s = set_from_get [OF d]
  have i: "map c_name (fold (set_from env sec) ds ?cs) = map c_name ?cs \<and>
   (\<forall>c \<in> set ds. get_opt (c_name c) (fold (set_from env sec) ds ?cs) = configured env sec c (get_opt (c_name c) ?cs)) \<and>
   (\<forall>m. m \<notin> set (map c_name ds) \<longrightarrow> get_opt m (fold (set_from env sec) ds ?cs) = get_opt m ?cs)"
    using Cons.prems by (intro Cons.IH) (auto simp: s)
  have ne: "c_name c \<noteq> c_name d" if "c \<in> set ds" for c
    using Cons.prems(1) imageI [OF that, of c_name] by auto
  show ?case using i Cons.prems(1) s ne by auto
qed simp

lemma find_by_name: "distinct (map c_name cs) \<Longrightarrow> c \<in> set cs \<Longrightarrow> get_opt (c_name c) cs = c_value c"
  by (induction cs) force+

text \<open>The last switch for an option.\<close>

fun last_switch :: "string list \<Rightarrow> string \<Rightarrow> cmdline list \<Rightarrow> string option" where
  "last_switch names n [] = None"
| "last_switch names n (CmdOpt i arg # evs) =
     (case last_switch names n evs of Some v \<Rightarrow> Some v | None \<Rightarrow> if names ! i = n then Some arg else None)"
| "last_switch names n (ev # evs) = last_switch names n evs"

lemma set_switches_ok:
  "set_switches evs cs = Inr cs' \<Longrightarrow> map c_name cs' = map c_name cs \<and>
   get_opt n cs' = (case last_switch (map c_name cs) n evs of Some v \<Rightarrow> Some v | None \<Rightarrow> get_opt n cs)"
proof (induction evs cs arbitrary: cs' rule: set_switches.induct)
  case (2 i arg evs cs)
  then obtain cs1 where i: "i < length cs" and s: "set_opt (c_name (cs ! i)) arg cs = Inr cs1"
    and r: "set_switches evs cs1 = Inr cs'"
    by (auto simp: rbind_ok split: if_splits)
  note s' = set_opt_ok [OF s]
  show ?case using 2(1) [OF i r] i s' by (auto split: option.split)
qed auto

text \<open>Switches that \<open>getopt_long\<close> finds in the table are never refused.\<close>

lemma set_switches_total:
  "\<forall>ev \<in> set evs. \<exists>i a. ev = CmdOpt i a \<and> i < length cs \<Longrightarrow> \<exists>cs'. set_switches evs cs = Inr cs'"
proof (induction evs cs rule: set_switches.induct)
  case (2 i arg evs cs)
  then have i: "i < length cs" by simp
  then have "c_name (cs ! i) \<in> set (map c_name cs)" by simp
  then obtain cs1 where s: "set_opt (c_name (cs ! i)) arg cs = Inr cs1"
    using set_opt_fails by (cases "set_opt (c_name (cs ! i)) arg cs") blast+
  then have "length cs1 = length cs" using set_opt_ok [OF s] by (metis length_map)
  then show ?case using 2(1) [OF i] 2(2) s i by (simp add: rbind_ok)
qed auto

text \<open>
  C29: the value of an option after \<open>set_config_opts\<close> is the one of the last switch on the command line,
  else that of the configuration file, else that of the environment, else the default, else the one from
  before; there are no other options, and the names of the options do not change.
\<close>

theorem set_config_opts_precedence:
  assumes "set_config_opts env sec evs cs = Inr cs'" and "distinct (map c_name cs)" and "c \<in> set cs"
  shows "get_opt (c_name c) cs' = (case last_switch (map c_name cs) (c_name c) evs of Some v \<Rightarrow> Some v
      | None \<Rightarrow> configured env sec c (c_value c)) \<and> map c_name cs' = map c_name cs"
proof -
  note f = fold_set_from [OF assms(2) subset_refl, of env sec]
  note s = set_switches_ok [OF assms(1) [unfolded set_config_opts_def], of "c_name c"]
  show ?thesis using f s assms(3) find_by_name [OF assms(2,3)] by (auto split: option.split)
qed

text \<open>The program calls it twice, without and with the configuration file.\<close>

lemma init_config_distinct: "distinct (map c_name init_config)"
  by (simp add: init_config_def opts_first_def opts_last_def config_opt_def)

lemma set_config_opts_precedence_witness:
  "let c = config_opt ''tmppath'' (Some ''tmppath'') ''GENIMAGE_TMPPATH'' (Some ''tmp'');
     sec = Some \<lparr>cs_str = (\<lambda>n. if n = ''tmppath'' then Some ''t'' else None), cs_shortcuts = []\<rparr> in
   \<exists>cs'. set_config_opts (\<lambda>_. None) sec [] [c] = Inr cs' \<and> get_opt ''tmppath'' cs' = Some ''t''"
proof -
  let ?c = "config_opt ''tmppath'' (Some ''tmppath'') ''GENIMAGE_TMPPATH'' (Some ''tmp'')"
  let ?sec = "Some \<lparr>cs_str = (\<lambda>n. if n = ''tmppath'' then Some ''t'' else None), cs_shortcuts = []\<rparr>"
  obtain cs' where cs': "set_config_opts (\<lambda>_. None) ?sec [] [?c] = Inr cs'"
    by (simp add: set_config_opts_def)
  have "get_opt ''tmppath'' cs' = Some ''t''"
    using set_config_opts_precedence [OF cs', of ?c] by (simp add: configured_def config_opt_def)
  with cs' show ?thesis by (simp add: Let_def)
qed

section \<open>Paths\<close>

text \<open>
  The temporary path is absolute when the current directory is, and once computed it stays
  the same, whatever options are set later.
\<close>

lemma paths_absolute_and_stable:
  assumes "tmppath cwd cs pc = Inr (p, pc')" and "hd cwd = CHR ''/''" "cwd \<noteq> []" and "pc_tmp pc = None"
  shows "hd p = CHR ''/'' \<and> tmppath cwd' cs' pc' = Inr (p, pc')"
  using assms by (auto simp: tmppath_def cached_path_def abspath_def rbind_ok split: option.splits)

end
