(* ===== verification/Genimage.thy ===== *)
theory Genimage
  imports Mounts Config
begin

text \<open>
  The program, \<^verbatim>\<open>genimage.c\<close>: the state that it keeps, the phases of \<open>main\<close>, and the two recursions over
  the images, \<open>image_setup\<close> and \<open>image_generate\<close>, that bring every image behind the images it contains.
\<close>

section \<open>The state\<close>

text \<open>
  An image is known by its position in the list of images. \<open>s_sec\<close> is the section of its handler,
  \<open>s_parts\<close> the sections of its partitions, \<open>s_priv\<close> the private data of its handler.
\<close>

record 'p sys =
  s_images :: "image list"
  s_sec :: "nat \<Rightarrow> cfg option"
  s_parts :: "nat \<Rightarrow> cfg list"
  s_priv :: "nat \<Rightarrow> 'p option"
  s_mps :: mountpoints
  s_paths :: paths
  s_env :: environ
  s_world :: world

type_synonym 'p op = "'p sys \<Rightarrow> unit result \<times> 'p sys"

definition set_image :: "nat \<Rightarrow> image \<Rightarrow> 'p sys \<Rightarrow> 'p sys" where
  "set_image i im s = s\<lparr>s_images := (s_images s)[i := im]\<rparr>"

definition and_then :: "'p op \<Rightarrow> 'p op \<Rightarrow> 'p op" where
  "and_then m n s = (case m s of (Inl e, s') \<Rightarrow> (Inl e, s') | (Inr _, s') \<Rightarrow> n s')"

definition skip_op :: "'p op" where "skip_op s = (Inr (), s)"

definition run_io :: "unit io \<Rightarrow> 'p op" where
  "run_io m s = (case m (s_world s) of (r, w) \<Rightarrow> (r, s\<lparr>s_world := w\<rparr>))"

text \<open>The position of the first image with a file name, for \<open>image_get\<close>.\<close>

fun image_index :: "image list \<Rightarrow> string \<Rightarrow> nat option" where
  "image_index [] f = None"
| "image_index (im # ims) f = (if im_file im = f then Some 0 else map_option Suc (image_index ims f))"

section \<open>Calling a handler\<close>

text \<open>A call through a function pointer of the handler of image \<open>i\<close>; NULL is success.\<close>

definition finish_call :: "nat \<Rightarrow> ('p option \<times> image) result \<times> world \<Rightarrow> 'p op" where
  "finish_call i r s =
     (case r of (Inl e, w) \<Rightarrow> (Inl e, s\<lparr>s_world := w\<rparr>)
      | (Inr (p, im), w) \<Rightarrow> (Inr (), set_image i im (s\<lparr>s_world := w, s_priv := (s_priv s)(i := p)\<rparr>)))"

definition call_parse :: "'p handler list \<Rightarrow> nat \<Rightarrow> 'p op" where
  "call_parse hs i s =
     (let im = s_images s ! i in
      case Option.bind (handler_get hs (im_handler im)) h_parse of None \<Rightarrow> (Inr (), s)
      | Some f \<Rightarrow> finish_call i (f (s_images s) im (s_sec s i) (s_world s)) s)"

definition call_setup :: "'p handler list \<Rightarrow> nat \<Rightarrow> 'p op" where
  "call_setup hs i s =
     (let im = s_images s ! i in
      case Option.bind (handler_get hs (im_handler im)) h_setup of None \<Rightarrow> (Inr (), s)
      | Some f \<Rightarrow> finish_call i (f (s_images s) im (s_sec s i) (s_priv s i) (s_world s)) s)"

definition no_rootpath :: "'p handler list \<Rightarrow> string \<Rightarrow> bool" where
  "no_rootpath hs t = (case handler_get hs t of None \<Rightarrow> False | Some h \<Rightarrow> h_no_rootpath h)"

text \<open>A missing generate function is an error. A function may change its own image.\<close>

definition gen_env :: "'p handler list \<Rightarrow> nat \<Rightarrow> 'p sys \<Rightarrow> 'p genv" where
  "gen_env hs i s =
     \<lparr>g_images = s_images s, g_image = s_images s ! i, g_sec = s_sec s i, g_priv = s_priv s i,
      g_mountpath = mountpath (no_rootpath hs) (s_mps s) (s_images s ! i), g_tmp = tmp_path (s_paths s)\<rparr>"

definition call_generate :: "'p handler list \<Rightarrow> nat \<Rightarrow> 'p op" where
  "call_generate hs i s =
     (case Option.bind (handler_get hs (im_handler (s_images s ! i))) h_generate of None \<Rightarrow> (Inl EINVAL, s)
      | Some f \<Rightarrow>
          (case f (gen_env hs i s) (s_world s) of (Inl e, w) \<Rightarrow> (Inl e, s\<lparr>s_world := w\<rparr>)
           | (Inr im, w) \<Rightarrow> (Inr (), set_image i im (s\<lparr>s_world := w\<rparr>))))"

section \<open>The images of the configuration\<close>

definition append_image :: "image \<Rightarrow> cfg option \<Rightarrow> cfg list \<Rightarrow> 'p sys \<Rightarrow> 'p sys" where
  "append_image im sec parts s =
     (let i = length (s_images s) in
      s\<lparr>s_images := s_images s @ [im], s_sec := (s_sec s)(i := sec), s_parts := (s_parts s)(i := parts)\<rparr>)"

text \<open>One iteration of the loop over the sections of the images.\<close>

definition add_image :: "'p handler list \<Rightarrow> flash_type list \<Rightarrow> cfg \<Rightarrow> 'p op" where
  "add_image hs flashes sec s =
     (case new_image (s_paths s) flashes (map h_type hs) sec of Inl e \<Rightarrow> (Inl e, s)
      | Inr (im, hsec) \<Rightarrow>
          call_parse hs (length (s_images s)) (append_image im hsec (cfg_secs sec ''partition'') s))"

fun add_images :: "'p handler list \<Rightarrow> flash_type list \<Rightarrow> cfg list \<Rightarrow> 'p op" where
  "add_images hs flashes [] = skip_op"
| "add_images hs flashes (sec # secs) = and_then (add_image hs flashes sec) (add_images hs flashes secs)"

section \<open>Implicit images\<close>

text \<open>The holes of a partition; a partition that a handler added has no section.\<close>

definition part_holes :: "'p sys \<Rightarrow> nat \<Rightarrow> nat \<Rightarrow> string list option" where
  "part_holes s i k = (if k < length (s_parts s i) then Some (cfg_strs (s_parts s i ! k) ''holes'') else None)"

text \<open>
  The check of partition \<open>k\<close> of image \<open>i\<close>: without an image it must be in the table or not sparse; with an
  image that is not configured, a \<open>file\<close> image is added. The result of \<open>parse_holes\<close> is not looked at.
\<close>

definition check_partition :: "'p handler list \<Rightarrow> nat \<Rightarrow> nat \<Rightarrow> 'p op" where
  "check_partition hs i k s =
     (let part = im_partitions (s_images s ! i) ! k in
      case p_image part of
        None \<Rightarrow> if p_in_partition_table part \<or> \<not> p_sparse part then (Inr (), s) else (Inl EINVAL, s)
      | Some f \<Rightarrow>
          (case image_index (s_images s) f of
             Some _ \<Rightarrow> if part_holes s i k \<noteq> None \<and> part_holes s i k \<noteq> Some [] then (Inl EINVAL, s) else (Inr (), s)
           | None \<Rightarrow>
               let j = length (s_images s) in
               (case call_parse hs j (append_image (zero_image f ''file'') None [] s) of
                  (Inl e, s') \<Rightarrow> (Inl e, s')
                | (Inr _, s') \<Rightarrow>
                    (Inr (), set_image j ((s_images s' ! j)
                       \<lparr>im_holes := snd (parse_holes (im_holes (s_images s' ! j)) (part_holes s i k))\<rparr>) s'))))"

fun check_partitions :: "'p handler list \<Rightarrow> nat \<Rightarrow> nat list \<Rightarrow> 'p op" where
  "check_partitions hs i [] = skip_op"
| "check_partitions hs i (k # ks) = and_then (check_partition hs i k) (check_partitions hs i ks)"

text \<open>
  The loop goes on over the images that it adds; those have no partitions, so it is enough to go over the
  ones that were there before.
\<close>

fun check_images :: "'p handler list \<Rightarrow> nat list \<Rightarrow> 'p op" where
  "check_images hs [] = skip_op"
| "check_images hs (i # js) =
     and_then (\<lambda>s. check_partitions hs i [0..<length (im_partitions (s_images s ! i))] s) (check_images hs js)"

section \<open>Flash types\<close>

text \<open>One image of a partition of an image with the flash type \<open>ft\<close>.\<close>

definition give_flash_type :: "flash_type \<Rightarrow> string option \<Rightarrow> image list \<Rightarrow> image list result" where
  "give_flash_type ft f ims =
     (case f of None \<Rightarrow> Inr ims
      | Some f' \<Rightarrow> (case image_index ims f' of None \<Rightarrow> Inl EINVAL
          | Some j \<Rightarrow> (case im_flash_type (ims ! j) of
                Some ft' \<Rightarrow> if ft' \<noteq> ft then Inl EINVAL else Inr ims
              | None \<Rightarrow> Inr (ims[j := (ims ! j)\<lparr>im_flash_type := Some ft\<rparr>]))))"

fun give_flash_types :: "flash_type \<Rightarrow> string option list \<Rightarrow> image list \<Rightarrow> image list result" where
  "give_flash_types ft [] ims = Inr ims"
| "give_flash_types ft (f # fls) ims = rbind (give_flash_type ft f ims) (give_flash_types ft fls)"

fun set_flash_types :: "nat list \<Rightarrow> image list \<Rightarrow> image list result" where
  "set_flash_types [] ims = Inr ims"
| "set_flash_types (i # js) ims =
     rbind (case im_flash_type (ims ! i) of None \<Rightarrow> Inr ims
            | Some ft \<Rightarrow> give_flash_types ft (map p_image (im_partitions (ims ! i))) ims) (set_flash_types js)"

definition set_flash_type :: "image list \<Rightarrow> image list result" where
  "set_flash_type ims = set_flash_types [0..<length ims] ims"

section \<open>The recursion over the images\<close>

text \<open>
  \<open>image_setup\<close> and \<open>image_generate\<close> have the same shape: an image that is done is left alone, one that is
  begun and not done is part of a cycle; else it is marked, its children, the images of its partitions,
  come first, and then the image itself. \<open>sg\<close> is the sign of the marks, -1 for the setup and 1 for the
  generation; \<open>pre\<close> is what is done before the children and \<open>post\<close> after them. The first number is fuel.
\<close>

fun for_parts ::
  "(nat \<Rightarrow> 'p sys \<Rightarrow> (unit result \<times> 'p sys) option) \<Rightarrow> string option list \<Rightarrow> 'p sys \<Rightarrow> (unit result \<times> 'p sys) option" where
  "for_parts f [] s = Some (Inr (), s)"
| "for_parts f (None # ns) s = for_parts f ns s"
| "for_parts f (Some n # ns) s =
     (case image_index (s_images s) n of None \<Rightarrow> Some (Inl EINVAL, s)
      | Some j \<Rightarrow> (case f j s of None \<Rightarrow> None
          | Some (Inl e, s') \<Rightarrow> Some (Inl e, s')
          | Some (Inr _, s') \<Rightarrow> for_parts f ns s'))"

definition part_images :: "image list \<Rightarrow> nat \<Rightarrow> string option list" where
  "part_images ims i = map p_image (im_partitions (ims ! i))"

primrec visit ::
  "int \<Rightarrow> (nat \<Rightarrow> 'p op) \<Rightarrow> (nat \<Rightarrow> 'p op) \<Rightarrow> nat \<Rightarrow> nat \<Rightarrow> 'p sys \<Rightarrow> (unit result \<times> 'p sys) option" where
  "visit sg pre post 0 i s = None"
| "visit sg pre post (Suc n) i s =
     (if sg * im_done (s_images s ! i) > 0 then Some (Inr (), s)
      else if sg * im_seen (s_images s ! i) > 0 then Some (Inl EINVAL, s)
      else (case pre i (set_image i ((s_images s ! i)\<lparr>im_seen := sg\<rparr>) s) of
          (Inl e, s2) \<Rightarrow> Some (Inl e, s2)
        | (Inr _, s2) \<Rightarrow>
            (case for_parts (visit sg pre post n) (part_images (s_images s2) i) s2 of
               None \<Rightarrow> None
             | Some (Inl e, s3) \<Rightarrow> Some (Inl e, s3)
             | Some (Inr _, s3) \<Rightarrow>
                 (case post i s3 of
                    (Inl e, s4) \<Rightarrow> Some (Inl e, s4)
                  | (Inr _, s4) \<Rightarrow> Some (Inr (), set_image i ((s_images s4 ! i)\<lparr>im_done := sg\<rparr>) s4)))))"

text \<open>A size that is a percentage is one of the size of the directory.\<close>

definition resolve_percent ::
  "'p handler list \<Rightarrow> (string \<Rightarrow> (string \<times> dnode) list option) \<Rightarrow> nat \<Rightarrow> 'p op" where
  "resolve_percent hs tree i s =
     (let im = s_images s ! i in
      if im_size_is_percent im then
        (case image_dir_size tree (no_rootpath hs) (s_mps s) im of Inl e \<Rightarrow> (Inl e, s)
         | Inr d \<Rightarrow> (Inr (), set_image i (im\<lparr>im_size := d * im_size im div 100, im_size_is_percent := False\<rparr>) s))
      else (Inr (), s))"

definition image_setup ::
  "'p handler list \<Rightarrow> (string \<Rightarrow> (string \<times> dnode) list option) \<Rightarrow> nat \<Rightarrow> nat \<Rightarrow> 'p sys \<Rightarrow> (unit result \<times> 'p sys) option" where
  "image_setup hs tree = visit (- 1) (resolve_percent hs tree) (call_setup hs)"

section \<open>Generating an image\<close>

text \<open>
  The environment of the commands of an image. The size is printed to 20 bytes, the NUL included, so only
  the first 19 digits are kept.
\<close>

definition setenv_image :: "'p handler list \<Rightarrow> nat \<Rightarrow> 'p op" where
  "setenv_image hs i s =
     (let im = s_images s ! i in
      case (if im_empty im then Inr None else map_sum id Some (mountpath (no_rootpath hs) (s_mps s) im)) of
        Inl e \<Rightarrow> (Inl e, s)
      | Inr mp \<Rightarrow>
          (Inr (), s\<lparr>s_env :=
             overwriteenv ''IMAGEMOUNTPATH'' mp
             (overwriteenv ''IMAGEMOUNTPOINT'' (im_mountpoint im)
             (overwriteenv ''IMAGESIZE'' (Some (take 19 (dec (unat (im_size im)))))
             (overwriteenv ''IMAGENAME'' (im_name im)
             (overwriteenv ''IMAGEOUTFILE'' (Some (im_outfile im))
             (overwriteenv ''IMAGE'' (Some (im_file im)) (s_env s))))))\<rparr>))"

definition exec_hook :: "shell \<Rightarrow> string option \<Rightarrow> 'p op" where
  "exec_hook sh cmd = (case cmd of None \<Rightarrow> skip_op | Some c \<Rightarrow> run_io (systemp sh c))"

text \<open>After a failure the output is removed, unless it is something else than a file.\<close>

definition remove_output :: "shell \<Rightarrow> string \<Rightarrow> unit io" where
  "remove_output sh outfile = try_io (sys_stat outfile) (\<lambda>r.
     case r of
       Inr x \<Rightarrow> if fkind x = Regular then try_io (systemp sh (''rm -f '' @ quoted outfile)) (\<lambda>_. ret ()) else ret ()
     | Inl _ \<Rightarrow> try_io (systemp sh (''rm -f '' @ quoted outfile)) (\<lambda>_. ret ()))"

definition generate_or_remove :: "'p handler list \<Rightarrow> shell \<Rightarrow> nat \<Rightarrow> 'p op" where
  "generate_or_remove hs sh i s =
     (if Option.bind (handler_get hs (im_handler (s_images s ! i))) h_generate = None then (Inl EINVAL, s)
      else (case call_generate hs i s of
          (Inl e, s') \<Rightarrow> (Inl e, snd (run_io (remove_output sh (im_outfile (s_images s' ! i))) s'))
        | (Inr _, s') \<Rightarrow> (Inr (), s')))"

definition generate_one :: "'p handler list \<Rightarrow> shell \<Rightarrow> nat \<Rightarrow> 'p op" where
  "generate_one hs sh i s =
     (let im = s_images s ! i in
      and_then (setenv_image hs i)
      (and_then (exec_hook sh (im_exec_pre im))
      (and_then (generate_or_remove hs sh i)
                (exec_hook sh (im_exec_post im)))) s)"

definition image_generate :: "'p handler list \<Rightarrow> shell \<Rightarrow> nat \<Rightarrow> nat \<Rightarrow> 'p sys \<Rightarrow> (unit result \<times> 'p sys) option" where
  "image_generate hs sh = visit 1 (\<lambda>_. skip_op) (generate_one hs sh)"

section \<open>main\<close>

text \<open>A loop over all images with enough fuel: one more than there are images.\<close>

definition all_images ::
  "(nat \<Rightarrow> nat \<Rightarrow> 'p sys \<Rightarrow> (unit result \<times> 'p sys) option) \<Rightarrow> 'p sys \<Rightarrow> (unit result \<times> 'p sys) option" where
  "all_images f s =
     (let n = length (s_images s) in
      fold (\<lambda>i r. case r of Some (Inr _, s') \<Rightarrow> f (Suc n) i s' | _ \<Rightarrow> r) [0..<n] (Some (Inr (), s)))"

definition setenv_paths :: "'p sys \<Rightarrow> 'p sys" where
  "setenv_paths s = s\<lparr>s_env :=
     overwriteenv ''TMPPATH'' (Some (tmp_path (s_paths s)))
     (overwriteenv ''ROOTPATH'' (Some (root_path (s_paths s)))
     (overwriteenv ''INPUTPATH'' (Some (input_path (s_paths s)))
     (overwriteenv ''OUTPUTPATH'' (Some (image_path (s_paths s))) (s_env s))))\<rparr>"

definition collect :: "'p handler list \<Rightarrow> shell \<Rightarrow> 'p op" where
  "collect hs sh s =
     (case collect_mountpoints sh (no_rootpath hs) (s_paths s) (s_images s) (s_world s) of
        (Inl e, w) \<Rightarrow> (Inl e, s\<lparr>s_world := w\<rparr>)
      | (Inr (ims, mps, pt), w) \<Rightarrow> (Inr (), s\<lparr>s_images := ims, s_mps := mps, s_paths := pt, s_world := w\<rparr>))"

text \<open>From the parsed configuration to the list of images, ready for the setup.\<close>

definition prepare :: "'p handler list \<Rightarrow> shell \<Rightarrow> cfg \<Rightarrow> 'p op" where
  "prepare hs sh cfg s =
     and_then (run_io (systemp sh (''rm -rf '' @ quoted (tmp_path (s_paths s)) @ ''/*'')))
     (\<lambda>s. case parse_flashes (cfg_secs cfg ''flash'') of Inl e \<Rightarrow> (Inl e, s)
      | Inr flashes \<Rightarrow>
        and_then (add_images hs flashes (cfg_secs cfg ''image''))
        (and_then (\<lambda>s. check_images hs [0..<length (s_images s)] s)
        (and_then (\<lambda>s. case set_flash_type (s_images s) of Inl e \<Rightarrow> (Inl e, s)
            | Inr ims \<Rightarrow> (Inr (), s\<lparr>s_images := ims\<rparr>))
          (collect hs sh))) s) s"

definition option_then :: "(unit result \<times> 'p sys) option \<Rightarrow> ('p sys \<Rightarrow> (unit result \<times> 'p sys) option) \<Rightarrow> (unit result \<times> 'p sys) option" where
  "option_then m f = (case m of Some (Inr _, s) \<Rightarrow> f s | _ \<Rightarrow> m)"

definition build ::
  "'p handler list \<Rightarrow> shell \<Rightarrow> (string \<Rightarrow> (string \<times> dnode) list option) \<Rightarrow> cfg \<Rightarrow> 'p sys \<Rightarrow> (unit result \<times> 'p sys) option" where
  "build hs sh tree cfg s =
     option_then (Some (prepare hs sh cfg s)) (\<lambda>s.
     option_then (all_images (image_setup hs tree) s) (\<lambda>s.
     option_then (Some (run_io (systemp sh (''mkdir -p '' @ quoted (image_path (s_paths s)))) (setenv_paths s)))
       (all_images (image_generate hs sh))))"

text \<open>
  \<open>main\<close> from the check of the temporary directory on: the exit status. After \<open>exit\<close> there is no clean-up.
  The part before it is the configuration of \<open>Config\<close>, \<open>set_include_path\<close>, \<open>random32_init\<close> or
  \<open>random32_enable_prng\<close>, and libconfuse.
\<close>

definition main_status :: "unit result \<Rightarrow> nat" where
  "main_status r = (case r of Inr _ \<Rightarrow> 0 | Inl e \<Rightarrow> if ret_code e = 0 then 0 else 1)"

definition genimage_main ::
  "'p handler list \<Rightarrow> shell \<Rightarrow> (string \<Rightarrow> (string \<times> dnode) list option) \<Rightarrow> nat option \<Rightarrow> cfg \<Rightarrow> 'p sys \<Rightarrow> (nat \<times> 'p sys) option" where
  "genimage_main hs sh tree entries cfg s =
     (case check_tmp_path sh (Some (tmp_path (s_paths s))) entries (s_world s) of
        (Inl e, w) \<Rightarrow> Some (1, s\<lparr>s_world := w\<rparr>)
      | (Inr tmp, w) \<Rightarrow>
          (case build hs sh tree cfg (s\<lparr>s_world := w\<rparr>) of None \<Rightarrow> None
           | Some (Inl (Exit n), s') \<Rightarrow> Some (n, s')
           | Some (r, s') \<Rightarrow>
               Some (main_status r, snd (run_io (cleanup sh (tmp_path (s_paths s')) tmp) s'))))"

end
