(* ===== verification/Walk.thy ===== *)
theory Walk
  imports Genimage
begin

text \<open>
  The recursion of \<open>image_setup\<close> and \<open>image_generate\<close>: the graph of the images, the marks, and the locale
  \<open>image_walk\<close> of what the recursion does for any two operations that leave the graph and the marks alone:
  it ends, a success means that the images are ordered without a cycle, and without a cycle it succeeds.
\<close>

section \<open>The graph of the images\<close>

definition child_names :: "image list \<Rightarrow> nat \<Rightarrow> string set" where
  "child_names ims i = {n. Some n \<in> set (part_images ims i)}"

definition kids :: "image list \<Rightarrow> nat \<Rightarrow> nat set" where
  "kids ims i = {j. \<exists>n \<in> child_names ims i. image_index ims n = Some j}"

text \<open>Two lists of images with the same files and the same children.\<close>

definition same_graph :: "image list \<Rightarrow> image list \<Rightarrow> bool" where
  "same_graph ims ims' \<longleftrightarrow> map im_file ims' = map im_file ims \<and>
     (\<forall>i < length ims. child_names ims' i = child_names ims i)"

lemma image_index_files: "map im_file ims' = map im_file ims \<Longrightarrow> image_index ims' n = image_index ims n"
proof (induction ims arbitrary: ims')
  case (Cons im ims)
  then obtain a l where l: "ims' = a # l" "im_file a = im_file im" "map im_file l = map im_file ims"
    by (cases ims') simp_all
  have "image_index l n = image_index ims n" by (rule Cons.IH [OF l(3)])
  then show ?case by (simp add: l)
qed simp

lemma image_index_less: "image_index ims n = Some j \<Longrightarrow> j < length ims"
  by (induction ims arbitrary: j) (auto split: if_splits)

lemma image_index_get: "image_index ims n = Some j \<Longrightarrow> image_get ims n = Some (ims ! j)"
  by (induction ims arbitrary: j) (auto split: if_splits)

lemma same_graph_length: "same_graph ims ims' \<Longrightarrow> length ims' = length ims"
  unfolding same_graph_def by (metis length_map)

lemma same_graph_refl: "same_graph ims ims"
  by (simp add: same_graph_def)

lemma same_graph_trans:
  assumes "same_graph a b" "same_graph b c" shows "same_graph a c"
proof -
  have "length b = length a" by (rule same_graph_length [OF assms(1)])
  then show ?thesis using assms by (simp add: same_graph_def)
qed

lemma same_graph_kids: "same_graph ims ims' \<Longrightarrow> i < length ims \<Longrightarrow> kids ims' i = kids ims i"
  unfolding same_graph_def kids_def by (metis image_index_files)

lemma same_graph_update:
  assumes "im_file im' = im_file (ims ! i)" "im_partitions im' = im_partitions (ims ! i)"
  shows "same_graph ims (ims[i := im'])"
proof -
  have "map im_file (ims[i := im']) = map im_file ims"
    using assms(1) by (cases "i < length ims") (simp_all add: map_update list_update_same_conv list_update_beyond)
  moreover have "part_images (ims[i := im']) j = part_images ims j" if "j < length ims" for j
    using assms(2) that by (cases "i = j") (simp_all add: part_images_def)
  ultimately show ?thesis by (simp add: same_graph_def child_names_def)
qed

text \<open>The images that are begun and those that are done, for marks of the sign \<open>sg\<close>.\<close>

definition begun :: "int \<Rightarrow> image list \<Rightarrow> nat set" where
  "begun sg ims = {i. i < length ims \<and> sg * im_seen (ims ! i) > 0}"

definition finished :: "int \<Rightarrow> image list \<Rightarrow> nat set" where
  "finished sg ims = {i. i < length ims \<and> sg * im_done (ims ! i) > 0}"

text \<open>No operation of a handler touches the marks or the graph.\<close>

definition tame :: "nat \<Rightarrow> 'p op \<Rightarrow> bool" where
  "tame i m \<longleftrightarrow> (\<forall>s. i < length (s_images s) \<longrightarrow> same_graph (s_images s) (s_images (snd (m s))) \<and>
     (\<forall>j < length (s_images s). im_seen (s_images (snd (m s)) ! j) = im_seen (s_images s ! j) \<and>
        im_done (s_images (snd (m s)) ! j) = im_done (s_images s ! j)))"

lemma tameD:
  assumes "tame i m" "m s = (r, s')" "i < length (s_images s)"
  shows "same_graph (s_images s) (s_images s')" "begun sg (s_images s') = begun sg (s_images s)"
    "finished sg (s_images s') = finished sg (s_images s)"
proof -
  have a: "same_graph (s_images s) (s_images s')"
    "\<forall>j < length (s_images s). im_seen (s_images s' ! j) = im_seen (s_images s ! j) \<and>
        im_done (s_images s' ! j) = im_done (s_images s ! j)"
    using assms by (auto simp: tame_def dest: spec [of _ s])
  then show "same_graph (s_images s) (s_images s')" by simp
  show "begun sg (s_images s') = begun sg (s_images s)" "finished sg (s_images s') = finished sg (s_images s)"
    using a same_graph_length [OF a(1)] by (auto simp: begun_def finished_def)
qed

lemma begun_mark:
  "i < length (s_images s) \<Longrightarrow> sg \<noteq> 0 \<Longrightarrow>
   begun sg (s_images (set_image i ((s_images s ! i)\<lparr>im_seen := sg\<rparr>) s)) = insert i (begun sg (s_images s)) \<and>
   finished sg (s_images (set_image i ((s_images s ! i)\<lparr>im_seen := sg\<rparr>) s)) = finished sg (s_images s)"
  by (auto simp: begun_def finished_def set_image_def nth_list_update zero_less_mult_iff split: if_splits)

lemma finished_mark:
  "i < length (s_images s) \<Longrightarrow> sg \<noteq> 0 \<Longrightarrow>
   begun sg (s_images (set_image i ((s_images s ! i)\<lparr>im_done := sg\<rparr>) s)) = begun sg (s_images s) \<and>
   finished sg (s_images (set_image i ((s_images s ! i)\<lparr>im_done := sg\<rparr>) s)) = insert i (finished sg (s_images s))"
  by (auto simp: begun_def finished_def set_image_def nth_list_update zero_less_mult_iff split: if_splits)

lemma graph_mark:
  "same_graph (s_images s) (s_images (set_image i ((s_images s ! i)\<lparr>im_seen := sg\<rparr>) s))"
  "same_graph (s_images s) (s_images (set_image i ((s_images s ! i)\<lparr>im_done := sg\<rparr>) s))"
  by (simp_all add: set_image_def same_graph_update)

text \<open>What every call does, whatever its outcome: the graph stays, and marks are only added.\<close>

definition later :: "int \<Rightarrow> 'p sys \<Rightarrow> 'p sys \<Rightarrow> bool" where
  "later sg s s' \<longleftrightarrow> same_graph (s_images s) (s_images s') \<and> begun sg (s_images s) \<subseteq> begun sg (s_images s') \<and>
     finished sg (s_images s) \<subseteq> finished sg (s_images s')"

lemma later_refl: "later sg s s"
  by (simp add: later_def same_graph_refl)

lemma later_trans: "later sg s s1 \<Longrightarrow> later sg s1 s2 \<Longrightarrow> later sg s s2"
  unfolding later_def using same_graph_trans by blast

lemma later_length: "later sg s s' \<Longrightarrow> length (s_images s') = length (s_images s)"
  by (simp add: later_def same_graph_length)

lemma later_tame: "tame i m \<Longrightarrow> m s = (r, s') \<Longrightarrow> i < length (s_images s) \<Longrightarrow> later sg s s'"
  by (simp add: later_def tameD)

lemma later_mark:
  assumes "i < length (s_images s)" "sg \<noteq> 0"
  shows "later sg s (set_image i ((s_images s ! i)\<lparr>im_seen := sg\<rparr>) s)"
    "later sg s (set_image i ((s_images s ! i)\<lparr>im_done := sg\<rparr>) s)"
  using begun_mark [OF assms] finished_mark [OF assms] graph_mark by (auto simp: later_def)

text \<open>A run over the children, as a chain of calls.\<close>

lemma for_parts_induct:
  assumes run: "for_parts f ns s = Some (r, s')"
    and refl: "\<And>s. R s s" and trans: "\<And>a b c. R a b \<Longrightarrow> R b c \<Longrightarrow> R a c"
    and call: "\<And>j s r s'. j < length (s_images s) \<Longrightarrow> f j s = Some (r, s') \<Longrightarrow> R s s'"
  shows "R s s'"
  using run
proof (induction ns arbitrary: s)
  case (Cons m ns)
  show ?case
  proof (cases "Option.bind m (image_index (s_images s))")
    case None
    then show ?thesis using Cons refl by (cases m) auto
  next
    case (Some j)
    then obtain n where n: "m = Some n" "image_index (s_images s) n = Some j" by (cases m) auto
    then obtain r1 s1 where c: "f j s = Some (r1, s1)" using Cons.prems by (auto split: option.splits)
    have R: "R s s1" by (rule call [OF image_index_less [OF n(2)] c])
    show ?thesis
    proof (cases r1)
      case (Inl e)
      then show ?thesis using Cons.prems R n c by simp
    next
      case (Inr u)
      then have "for_parts f ns s1 = Some (r, s')" using Cons.prems n c by simp
      then show ?thesis by (rule trans [OF R Cons.IH])
    qed
  qed
qed (simp add: refl)

lemma for_parts_total:
  assumes ret: "\<And>j s. j < length (s_images s) \<Longrightarrow> P s \<Longrightarrow> f j s \<noteq> None"
    and keep: "\<And>j s r s'. j < length (s_images s) \<Longrightarrow> P s \<Longrightarrow> f j s = Some (r, s') \<Longrightarrow> P s'"
    and s: "P s"
  shows "for_parts f ns s \<noteq> None"
  using s
proof (induction ns arbitrary: s)
  case (Cons m ns)
  show ?case
  proof (cases "Option.bind m (image_index (s_images s))")
    case None
    then show ?thesis using Cons by (cases m) auto
  next
    case (Some j)
    then obtain n where n: "m = Some n" "image_index (s_images s) n = Some j" by (cases m) auto
    note j = image_index_less [OF n(2)]
    obtain r1 s1 where c: "f j s = Some (r1, s1)" using ret [OF j Cons.prems] by fastforce
    show ?thesis using Cons.IH [OF keep [OF j Cons.prems c]] n c by (cases r1) auto
  qed
qed simp

text \<open>The images that are not begun, whose number bounds the depth of the recursion.\<close>

definition unbegun :: "int \<Rightarrow> image list \<Rightarrow> nat set" where
  "unbegun sg ims = {..<length ims} - begun sg ims"

lemma card_unbegun: "later sg s s' \<Longrightarrow> card (unbegun sg (s_images s')) \<le> card (unbegun sg (s_images s))"
  using later_length [of sg s s'] by (intro card_mono) (auto simp: unbegun_def later_def)

lemma card_unbegun_le: "card (unbegun sg ims) \<le> length ims"
  using card_mono [of "{..<length ims}" "unbegun sg ims"] by (simp add: unbegun_def)

lemma for_parts_success:
  assumes run: "for_parts f ns s = Some (Inr u, s')"
    and call: "\<And>j u s s1. j < length (s_images s) \<Longrightarrow> f j s = Some (Inr u, s1) \<Longrightarrow> R s s1 \<and> Q j s1"
    and refl: "\<And>s. R s s" and trans: "\<And>a b c. R a b \<Longrightarrow> R b c \<Longrightarrow> R a c"
    and mono: "\<And>j s s1. R s s1 \<Longrightarrow> Q j s \<Longrightarrow> Q j s1"
    and idx: "\<And>s s1 m. R s s1 \<Longrightarrow> image_index (s_images s1) m = image_index (s_images s) m"
  shows "R s s' \<and> (\<forall>m. Some m \<in> set ns \<longrightarrow> (\<exists>j. image_index (s_images s) m = Some j \<and> Q j s'))"
  using run
proof (induction ns arbitrary: s)
  case (Cons m ns)
  show ?case
  proof (cases m)
    case None
    then show ?thesis using Cons by simp
  next
    case (Some n)
    then obtain j v s1 where j: "image_index (s_images s) n = Some j" and c: "f j s = Some (Inr v, s1)"
      and r: "for_parts f ns s1 = Some (Inr u, s')"
      using Cons.prems by (auto split: option.splits sum.splits)
    have R1: "R s s1" and q: "Q j s1" using call [OF image_index_less [OF j] c] by simp_all
    have ih: "R s1 s'" "\<And>k. Some k \<in> set ns \<Longrightarrow> \<exists>j. image_index (s_images s1) k = Some j \<and> Q j s'"
      using Cons.IH [OF r] by simp_all
    have "Q j s'" by (rule mono [OF ih(1) q])
    then show ?thesis using trans [OF R1 ih(1)] ih(2) idx [OF R1] j Some by auto
  qed
qed (simp add: refl)

lemma for_parts_succeeds:
  assumes call: "\<And>j s. j \<in> K \<Longrightarrow> P s \<Longrightarrow> \<exists>s1. f j s = Some (Inr (), s1) \<and> P s1"
    and idx: "\<And>m s. m \<in> M \<Longrightarrow> P s \<Longrightarrow> \<exists>j \<in> K. image_index (s_images s) m = Some j"
  shows "P s \<Longrightarrow> {m. Some m \<in> set ns} \<subseteq> M \<Longrightarrow> \<exists>s'. for_parts f ns s = Some (Inr (), s') \<and> P s'"
proof (induction ns arbitrary: s)
  case (Cons m ns)
  have sub: "{m. Some m \<in> set ns} \<subseteq> M" using Cons.prems(2) by auto
  show ?case
  proof (cases m)
    case None
    obtain s' where "for_parts f ns s = Some (Inr (), s')" "P s'" using Cons.IH [OF Cons.prems(1) sub] by blast
    then show ?thesis by (simp add: None)
  next
    case (Some n)
    have "n \<in> M" using Cons.prems(2) Some by auto
    then obtain j where j: "j \<in> K" "image_index (s_images s) n = Some j" using idx Cons.prems(1) by blast
    then obtain s1 where s1: "f j s = Some (Inr (), s1)" "P s1" using call Cons.prems(1) by blast
    obtain s' where s': "for_parts f ns s1 = Some (Inr (), s')" "P s'" using Cons.IH [OF s1(2) sub] by blast
    have "for_parts f (m # ns) s = Some (Inr (), s')" using s'(1) by (simp add: Some s1(1) j(2))
    then show ?thesis using s'(2) by blast
  qed
qed simp

section \<open>The order of the images\<close>

text \<open>
  Every finished image comes after its children: they exist, are finished, and the numbers \<open>rk\<close> grow from
  a child to its parent, so there is no cycle among the finished images.
\<close>

definition placed :: "int \<Rightarrow> image list \<Rightarrow> (nat \<Rightarrow> nat) \<Rightarrow> nat \<Rightarrow> bool" where
  "placed sg ims rk i \<longleftrightarrow> (\<forall>m \<in> child_names ims i. image_index ims m \<noteq> None) \<and>
     (\<forall>k \<in> kids ims i. k \<in> finished sg ims \<and> rk k < rk i)"

definition ordered :: "int \<Rightarrow> image list \<Rightarrow> bool" where
  "ordered sg ims \<longleftrightarrow> (\<exists>rk. \<forall>i \<in> finished sg ims. placed sg ims rk i)"

lemma finished_less: "i \<in> finished sg ims \<Longrightarrow> i < length ims"
  by (simp add: finished_def)

lemma same_graph_index: "same_graph ims ims' \<Longrightarrow> image_index ims' m = image_index ims m"
  unfolding same_graph_def by (blast intro: image_index_files)

lemma same_graph_names: "same_graph ims ims' \<Longrightarrow> i < length ims \<Longrightarrow> child_names ims' i = child_names ims i"
  by (simp add: same_graph_def)

lemma placed_cong:
  assumes g: "same_graph ims ims'" and i: "i < length ims" and f: "finished sg ims \<subseteq> finished sg ims'"
    and p: "placed sg ims rk i"
  shows "placed sg ims' rk i"
  unfolding placed_def
proof (intro conjI ballI)
  show "image_index ims' m \<noteq> None" if "m \<in> child_names ims' i" for m
    using that p by (simp add: same_graph_index [OF g] same_graph_names [OF g i] placed_def)
  show "l \<in> finished sg ims'" "rk l < rk i" if "l \<in> kids ims' i" for l
    using that p f by (auto simp: same_graph_kids [OF g i] placed_def)
qed

lemma ordered_cong:
  assumes o: "ordered sg ims" and g: "same_graph ims ims'" and f: "finished sg ims' = finished sg ims"
  shows "ordered sg ims'"
proof -
  obtain rk where rk: "\<And>i. i \<in> finished sg ims \<Longrightarrow> placed sg ims rk i" using o unfolding ordered_def by blast
  have "placed sg ims' rk i" if "i \<in> finished sg ims" for i
    using placed_cong [OF g finished_less [OF that] _ rk [OF that]] f by simp
  then show ?thesis unfolding ordered_def f by blast
qed

lemma ordered_insert:
  assumes o: "ordered sg ims" and g: "same_graph ims ims'" and f: "finished sg ims' = insert i (finished sg ims)"
    and i: "i < length ims" and n: "i \<notin> finished sg ims" and k: "kids ims i \<subseteq> finished sg ims"
    and c: "\<forall>m \<in> child_names ims i. image_index ims m \<noteq> None"
  shows "ordered sg ims'"
proof -
  obtain rk where rk: "\<And>j. j \<in> finished sg ims \<Longrightarrow> placed sg ims rk j"
    using o unfolding ordered_def by blast
  have fin: "finite (rk ` finished sg ims)" by (simp add: finished_def)
  define rk' where "rk' = rk(i := Suc (Max (rk ` finished sg ims)))"
  have lt: "rk k < rk' i" if "k \<in> finished sg ims" for k
    using Max_ge [OF fin] that by (simp add: rk'_def less_Suc_eq_le)
  have ne: "rk' k = rk k" if "k \<in> finished sg ims" for k using that n by (auto simp: rk'_def)
  have "placed sg ims rk' j" if j: "j \<in> insert i (finished sg ims)" for j
  proof (cases "j = i")
    case True
    have "l \<in> finished sg ims \<and> rk' l < rk' i" if "l \<in> kids ims i" for l
      using k that lt ne by (metis subsetD)
    then show ?thesis using True c by (simp add: placed_def)
  next
    case False
    then have "j \<in> finished sg ims" using j by simp
    then have "placed sg ims rk j" and "rk' j = rk j" using rk ne by simp_all
    moreover have "rk' l = rk l" if "l \<in> kids ims j" for l
      using that \<open>placed sg ims rk j\<close> ne by (simp add: placed_def)
    ultimately show ?thesis by (simp add: placed_def)
  qed
  then have "placed sg ims' rk' j" if j: "j \<in> finished sg ims'" for j
    using placed_cong [OF g, of j sg rk'] f i finished_less [of j sg ims] j by auto
  then show ?thesis unfolding ordered_def by blast
qed

text \<open>What a run of calls that all succeed does.\<close>

definition steps :: "int \<Rightarrow> 'p sys \<Rightarrow> 'p sys \<Rightarrow> bool" where
  "steps sg s s' \<longleftrightarrow> later sg s s' \<and> (ordered sg (s_images s) \<longrightarrow> ordered sg (s_images s')) \<and>
     (begun sg (s_images s) - finished sg (s_images s)) \<inter> finished sg (s_images s') = {} \<and>
     begun sg (s_images s') \<subseteq> begun sg (s_images s) \<union> finished sg (s_images s')"

lemma steps_refl: "steps sg s s"
  by (auto simp: steps_def later_refl)

lemma steps_trans: "steps sg a b \<Longrightarrow> steps sg b c \<Longrightarrow> steps sg a c"
  unfolding steps_def using later_trans [of sg a b c] by (auto simp: later_def)

lemma steps_index: "steps sg s s' \<Longrightarrow> image_index (s_images s') m = image_index (s_images s) m"
  by (intro image_index_files) (simp add: steps_def later_def same_graph_def)

lemma steps_finished: "steps sg s s' \<Longrightarrow> finished sg (s_images s) \<subseteq> finished sg (s_images s')"
  by (simp add: steps_def later_def)

section \<open>The walk ends\<close>

locale image_walk =
  fixes sg :: int and pre post :: "nat \<Rightarrow> 'p op"
  assumes sg0: "sg \<noteq> 0"
    and pre_tame: "tame i (pre i)"
    and post_tame: "tame i (post i)"
begin

text \<open>A call that finds its image neither done nor begun goes through four steps.\<close>

lemma visit_cases:
  assumes run: "visit sg pre post (Suc n) i s = Some (r, s')" and i: "i < length (s_images s)"
  obtains (finished) "i \<in> finished sg (s_images s)" "r = Inr ()" "s' = s"
  | (cycle) "i \<in> begun sg (s_images s)" "i \<notin> finished sg (s_images s)" "r = Inl EINVAL" "s' = s"
  | (pre) e where "i \<notin> begun sg (s_images s)" "i \<notin> finished sg (s_images s)" "r = Inl e"
      "pre i (set_image i ((s_images s ! i)\<lparr>im_seen := sg\<rparr>) s) = (Inl e, s')"
  | (kids) e s2 where "i \<notin> begun sg (s_images s)" "i \<notin> finished sg (s_images s)" "r = Inl e"
      "pre i (set_image i ((s_images s ! i)\<lparr>im_seen := sg\<rparr>) s) = (Inr (), s2)"
      "for_parts (visit sg pre post n) (part_images (s_images s2) i) s2 = Some (Inl e, s')"
  | (post) e s2 s3 where "i \<notin> begun sg (s_images s)" "i \<notin> finished sg (s_images s)" "r = Inl e"
      "pre i (set_image i ((s_images s ! i)\<lparr>im_seen := sg\<rparr>) s) = (Inr (), s2)"
      "for_parts (visit sg pre post n) (part_images (s_images s2) i) s2 = Some (Inr (), s3)"
      "post i s3 = (Inl e, s')"
  | (all) s2 s3 s4 where "i \<notin> begun sg (s_images s)" "i \<notin> finished sg (s_images s)" "r = Inr ()"
      "pre i (set_image i ((s_images s ! i)\<lparr>im_seen := sg\<rparr>) s) = (Inr (), s2)"
      "for_parts (visit sg pre post n) (part_images (s_images s2) i) s2 = Some (Inr (), s3)"
      "post i s3 = (Inr (), s4)" "s' = set_image i ((s_images s4 ! i)\<lparr>im_done := sg\<rparr>) s4"
proof -
  let ?s1 = "set_image i ((s_images s ! i)\<lparr>im_seen := sg\<rparr>) s"
  have d: "sg * im_done (s_images s ! i) > 0 \<longleftrightarrow> i \<in> finished sg (s_images s)"
    and b: "sg * im_seen (s_images s ! i) > 0 \<longleftrightarrow> i \<in> begun sg (s_images s)"
    using i by (simp_all add: finished_def begun_def)
  note run' = run [unfolded visit.simps d b]
  consider "i \<in> finished sg (s_images s)" | "i \<in> begun sg (s_images s)" "i \<notin> finished sg (s_images s)"
    | "i \<notin> begun sg (s_images s)" "i \<notin> finished sg (s_images s)" by blast
  then show thesis
  proof cases
    case 1
    show ?thesis by (rule finished) (use run' 1 in simp_all)
  next
    case 2
    show ?thesis by (rule cycle) (use run' 2 in simp_all)
  next
    case 3
    note n = 3
    obtain r2 s2 where p: "pre i ?s1 = (r2, s2)" by fastforce
    show ?thesis
    proof (cases r2)
      case (Inl e)
      then show ?thesis using run' n p by (intro pre [of e]) simp_all
    next
      case r2: (Inr u)
      then obtain r3 s3 where k: "for_parts (visit sg pre post n) (part_images (s_images s2) i) s2 = Some (r3, s3)"
        using run' n p by (auto split: option.splits)
      show ?thesis
      proof (cases r3)
        case (Inl e)
        then show ?thesis using run' n p r2 k by (intro kids [of e s2]) simp_all
      next
        case r3: (Inr u)
        obtain r4 s4 where q: "post i s3 = (r4, s4)" by fastforce
        show ?thesis
        proof (cases r4)
          case (Inl e)
          then show ?thesis using run' n p r2 r3 k q by (intro post [of e s2 s3]) simp_all
        next
          case (Inr v)
          then show ?thesis using run' n p r2 r3 k q by (intro all [of s2 s3 s4]) simp_all
        qed
      qed
    qed
  qed
qed

lemma visit_later: "i < length (s_images s) \<Longrightarrow> visit sg pre post n i s = Some (r, s') \<Longrightarrow> later sg s s'"
proof (induction n arbitrary: i s r s')
  case (Suc n)
  let ?s1 = "set_image i ((s_images s ! i)\<lparr>im_seen := sg\<rparr>) s"
  note i = Suc.prems(1)
  have i1: "i < length (s_images ?s1)" using i by (simp add: set_image_def)
  have l1: "later sg s ?s1" by (rule later_mark [OF i sg0])
  have p: "later sg s s2" if "pre i ?s1 = (r, s2)" for r s2
    using later_trans [OF l1 later_tame [OF pre_tame that i1]] .
  have k: "later sg s2 s3" if "for_parts (visit sg pre post n) ns s2 = Some (r, s3)" for ns r s2 s3
  proof (rule for_parts_induct [OF that])
    fix j s r s'
    assume "j < length (s_images s)" "visit sg pre post n j s = Some (r, s')"
    then show "later sg s s'" by (rule Suc.IH)
  qed (rule later_refl, rule later_trans)
  from Suc.prems(2) i show ?case
  proof (cases rule: visit_cases)
    case finished
    then show ?thesis by (simp add: later_refl)
  next
    case cycle
    then show ?thesis by (simp add: later_refl)
  next
    case (pre e)
    show ?thesis by (rule p [OF pre(4)])
  next
    case (kids e s2)
    show ?thesis by (rule later_trans [OF p [OF kids(4)] k [OF kids(5)]])
  next
    case (post e s2 s3)
    note l = later_trans [OF p [OF post(4)] k [OF post(5)]]
    have i3: "i < length (s_images s3)" using i later_length [OF l] by simp
    show ?thesis by (rule later_trans [OF l later_tame [OF post_tame post(6) i3]])
  next
    case (all s2 s3 s4)
    note l = later_trans [OF p [OF all(4)] k [OF all(5)]]
    have i3: "i < length (s_images s3)" using i later_length [OF l] by simp
    note l4 = later_trans [OF l later_tame [OF post_tame all(6) i3]]
    have i4: "i < length (s_images s4)" using i later_length [OF l4] by simp
    show ?thesis unfolding all(7) by (rule later_trans [OF l4 later_mark(2) [OF i4 sg0]])
  qed
qed simp

text \<open>With more fuel than there are images not begun, a call returns.\<close>

lemma visit_total:
  "i < length (s_images s) \<Longrightarrow> card (unbegun sg (s_images s)) < n \<Longrightarrow> visit sg pre post n i s \<noteq> None"
proof (induction n arbitrary: i s)
  case (Suc n)
  let ?s1 = "set_image i ((s_images s ! i)\<lparr>im_seen := sg\<rparr>) s"
  note i = Suc.prems(1)
  have i1: "i < length (s_images ?s1)" using i by (simp add: set_image_def)
  show ?case
  proof (cases "i \<in> finished sg (s_images s) \<or> i \<in> begun sg (s_images s)")
    case True
    then show ?thesis using i by (auto simp: finished_def begun_def)
  next
    case False
    obtain r2 s2 where p: "pre i ?s1 = (r2, s2)" by fastforce
    have l2: "later sg ?s1 s2" by (rule later_tame [OF pre_tame p i1])
    have "card (unbegun sg (s_images ?s1)) < card (unbegun sg (s_images s))"
      using begun_mark [OF i sg0] False i by (intro psubset_card_mono) (auto simp: unbegun_def set_image_def)
    then have c: "card (unbegun sg (s_images s2)) < n"
      using card_unbegun [OF l2] Suc.prems(2) by linarith
    have "for_parts (visit sg pre post n) ns s2 \<noteq> None" for ns
    proof (rule for_parts_total [where P = "\<lambda>s. card (unbegun sg (s_images s)) < n"])
      fix j and s :: "'p sys" assume "j < length (s_images s)" "card (unbegun sg (s_images s)) < n"
      then show "visit sg pre post n j s \<noteq> None" by (rule Suc.IH)
    next
      fix j r and s s' :: "'p sys" assume a: "j < length (s_images s)" "card (unbegun sg (s_images s)) < n"
        "visit sg pre post n j s = Some (r, s')"
      have "later sg s s'" by (rule visit_later [OF a(1,3)])
      then show "card (unbegun sg (s_images s')) < n" using card_unbegun a(2) le_less_trans by blast
    qed (rule c)
    then show ?thesis
      using False i p by (auto simp: finished_def begun_def split: option.split sum.split prod.split)
  qed
qed simp

text \<open>
  A call that succeeds finishes its image and keeps the order, and the images that were begun and not
  finished are still not.
\<close>

lemma visit_success:
  "i < length (s_images s) \<Longrightarrow> visit sg pre post n i s = Some (Inr u, s') \<Longrightarrow>
   steps sg s s' \<and> i \<in> finished sg (s_images s')"
proof (induction n arbitrary: i s u s')
  case (Suc n)
  let ?s1 = "set_image i ((s_images s ! i)\<lparr>im_seen := sg\<rparr>) s"
  note i = Suc.prems(1)
  have i1: "i < length (s_images ?s1)" using i by (simp add: set_image_def)
  have later_s': "later sg s s'" by (rule visit_later [OF Suc.prems])
  from Suc.prems(2) i show ?case
  proof (cases rule: visit_cases)
    case finished
    then show ?thesis by (simp add: steps_refl)
  next
    case (all s2 s3 s4)
    have l2: "later sg ?s1 s2" by (rule later_tame [OF pre_tame all(4) i1])
    have i2: "i < length (s_images s2)" using later_length [OF l2] i1 by simp
    have st1: "begun sg (s_images s2) = insert i (begun sg (s_images s))"
      "finished sg (s_images s2) = finished sg (s_images s)"
      using tameD(2,3) [OF pre_tame all(4) i1, of sg] begun_mark [OF i sg0] by simp_all
    have g2: "same_graph (s_images s) (s_images s2)"
      using same_graph_trans [OF graph_mark(1) tameD(1) [OF pre_tame all(4) i1]] .
    have "steps sg s2 s3 \<and> (\<forall>m. Some m \<in> set (part_images (s_images s2) i) \<longrightarrow>
        (\<exists>j. image_index (s_images s2) m = Some j \<and> j \<in> finished sg (s_images s3)))"
    proof (rule for_parts_success [OF all(5)])
      fix j u and s s1 :: "'p sys"
      assume "j < length (s_images s)" "visit sg pre post n j s = Some (Inr u, s1)"
      then show "steps sg s s1 \<and> j \<in> finished sg (s_images s1)" by (rule Suc.IH)
    next
      fix j and s s1 :: "'p sys" assume "steps sg s s1" "j \<in> finished sg (s_images s)"
      then show "j \<in> finished sg (s_images s1)" by (rule subsetD [OF steps_finished])
    qed (rule steps_refl, rule steps_trans, assumption+, rule steps_index)
    then have st: "steps sg s2 s3" and ch: "\<And>m. m \<in> child_names (s_images s2) i \<Longrightarrow>
        \<exists>j. image_index (s_images s2) m = Some j \<and> j \<in> finished sg (s_images s3)"
      by (auto simp: child_names_def)
    have l3: "later sg s2 s3" using st by (simp add: steps_def)
    have i3: "i < length (s_images s3)" using later_length [OF l3] i2 by simp
    have g4: "same_graph (s_images s3) (s_images s4)" by (rule tameD(1) [OF post_tame all(6) i3])
    have i4: "i < length (s_images s4)" using same_graph_length [OF g4] i3 by simp
    note m4 = tameD(2,3) [OF post_tame all(6) i3, of sg]
    have f': "finished sg (s_images s') = insert i (finished sg (s_images s3))"
      using finished_mark [OF i4 sg0] m4 by (simp add: all(7))
    have gr: "same_graph (s_images s3) (s_images s')"
      unfolding all(7) by (rule same_graph_trans [OF g4 graph_mark(2)])
    have g23: "same_graph (s_images s2) (s_images s3)" using l3 by (simp add: later_def)
    have nf: "i \<notin> finished sg (s_images s3)" using st st1 all(2) by (auto simp: steps_def)
    have kids: "kids (s_images s3) i \<subseteq> finished sg (s_images s3)"
    proof
      fix l assume "l \<in> kids (s_images s3) i"
      then have "l \<in> kids (s_images s2) i" by (simp only: same_graph_kids [OF g23 i2])
      then obtain m where m: "m \<in> child_names (s_images s2) i" "image_index (s_images s2) m = Some l"
        unfolding kids_def by blast
      then show "l \<in> finished sg (s_images s3)" using ch [OF m(1)] by simp
    qed
    have names: "\<forall>m \<in> child_names (s_images s3) i. image_index (s_images s3) m \<noteq> None"
    proof
      fix m assume "m \<in> child_names (s_images s3) i"
      then have "m \<in> child_names (s_images s2) i" by (simp only: same_graph_names [OF g23 i2])
      then show "image_index (s_images s3) m \<noteq> None" using ch [of m] same_graph_index [OF g23, of m] by auto
    qed
    have o': "ordered sg (s_images s')" if "ordered sg (s_images s)"
    proof -
      have "ordered sg (s_images s2)" by (rule ordered_cong [OF that g2 st1(2)])
      then have "ordered sg (s_images s3)" using st by (simp add: steps_def)
      then show ?thesis by (rule ordered_insert [OF _ gr f' i3 nf kids names])
    qed
    have "(begun sg (s_images s) - finished sg (s_images s)) \<inter> finished sg (s_images s') = {}"
      using st st1 all(1) by (auto simp: steps_def f')
    moreover have "begun sg (s_images s') \<subseteq> begun sg (s_images s) \<union> finished sg (s_images s')"
      using st st1 f' finished_mark [OF i4 sg0] m4 by (auto simp: steps_def all(7))
    ultimately show ?thesis using o' later_s' f' by (simp add: steps_def)
  qed auto
qed simp

text \<open>
  Without cycles nothing is refused: \<open>rk\<close> grows from the children to their parents, every child exists, and
  the image is below all those that are begun and not finished.
\<close>

lemma visit_succeeds:
  assumes pre: "\<And>i s. i < length (s_images s) \<Longrightarrow> J s \<Longrightarrow> \<exists>s'. pre i s = (Inr (), s') \<and> J s'"
    and post: "\<And>i s. i < length (s_images s) \<Longrightarrow> J s \<Longrightarrow> \<exists>s'. post i s = (Inr (), s') \<and> J s'"
    and marks: "\<And>i s. J s \<Longrightarrow> J (set_image i ((s_images s ! i)\<lparr>im_seen := sg\<rparr>) s)"
      "\<And>i s. J s \<Longrightarrow> J (set_image i ((s_images s ! i)\<lparr>im_done := sg\<rparr>) s)"
    and rk: "\<And>i k. i < length ims0 \<Longrightarrow> k \<in> kids ims0 i \<Longrightarrow> rk k < (rk i :: nat)"
    and names: "\<And>i m. i < length ims0 \<Longrightarrow> m \<in> child_names ims0 i \<Longrightarrow> image_index ims0 m \<noteq> None"
  shows "J s \<Longrightarrow> same_graph ims0 (s_images s) \<Longrightarrow> i < length (s_images s) \<Longrightarrow> card (unbegun sg (s_images s)) < n \<Longrightarrow>
   \<forall>g \<in> begun sg (s_images s) - finished sg (s_images s). rk i < rk g \<Longrightarrow>
   \<exists>s'. visit sg pre post n i s = Some (Inr (), s') \<and> J s'"
proof (induction n arbitrary: i s)
  case (Suc n)
  let ?s1 = "set_image i ((s_images s ! i)\<lparr>im_seen := sg\<rparr>) s"
  note i = Suc.prems(3) and g0 = Suc.prems(2) and J = Suc.prems(1)
  have i1: "i < length (s_images ?s1)" using i by (simp add: set_image_def)
  have i0: "i < length ims0" using i same_graph_length [OF g0] by simp
  show ?case
  proof (cases "i \<in> finished sg (s_images s)")
    case True
    then show ?thesis using i J by (auto simp: finished_def)
  next
    case False
    then have nb: "i \<notin> begun sg (s_images s)" using Suc.prems(5) by auto
    obtain s2 where p: "pre i ?s1 = (Inr (), s2)" and J2: "J s2" using pre [OF i1 marks(1) [OF J]] by blast
    have l2: "later sg ?s1 s2" by (rule later_tame [OF pre_tame p i1])
    have st2: "begun sg (s_images s2) = insert i (begun sg (s_images s))"
      "finished sg (s_images s2) = finished sg (s_images s)"
      using tameD(2,3) [OF pre_tame p i1, of sg] begun_mark [OF i sg0] by simp_all
    have g2: "same_graph ims0 (s_images s2)"
      using same_graph_trans [OF g0 same_graph_trans [OF graph_mark(1) tameD(1) [OF pre_tame p i1]]] .
    have "card (unbegun sg (s_images ?s1)) < card (unbegun sg (s_images s))"
      using begun_mark [OF i sg0] nb i by (intro psubset_card_mono) (auto simp: unbegun_def set_image_def)
    then have c2: "card (unbegun sg (s_images s2)) < n"
      using card_unbegun [OF l2] Suc.prems(4) by linarith
    define P where "P = (\<lambda>s3 :: 'p sys. J s3 \<and> same_graph ims0 (s_images s3) \<and> card (unbegun sg (s_images s3)) < n \<and>
      (\<forall>g \<in> begun sg (s_images s3) - finished sg (s_images s3). rk i \<le> rk g))"
    have "\<exists>s3. for_parts (visit sg pre post n) (part_images (s_images s2) i) s2 = Some (Inr (), s3) \<and> P s3"
    proof (rule for_parts_succeeds [where P = P and K = "kids ims0 i" and M = "child_names ims0 i"])
      fix j and s3 :: "'p sys"
      assume j: "j \<in> kids ims0 i" and P: "P s3"
      have g3: "same_graph ims0 (s_images s3)" using P by (simp add: P_def)
      have j3: "j < length (s_images s3)"
        using j same_graph_length [OF g3] image_index_less by (auto simp: kids_def)
      have "\<forall>g \<in> begun sg (s_images s3) - finished sg (s_images s3). rk j < rk g"
        using P rk [OF i0 j] unfolding P_def by (meson less_le_trans)
      then obtain s4 where s4: "visit sg pre post n j s3 = Some (Inr (), s4)" and J4: "J s4"
        using Suc.IH [OF _ g3 j3] P unfolding P_def by blast
      have st: "steps sg s3 s4" using visit_success [OF j3 s4] by simp
      then have l: "later sg s3 s4" by (simp add: steps_def)
      have "P s4"
        unfolding P_def
      proof (intro conjI J4)
        show "same_graph ims0 (s_images s4)" using g3 l same_graph_trans by (auto simp: later_def)
        show "card (unbegun sg (s_images s4)) < n" using card_unbegun [OF l] P by (simp add: P_def)
        show "\<forall>g \<in> begun sg (s_images s4) - finished sg (s_images s4). rk i \<le> rk g"
          using P st l unfolding P_def steps_def later_def by blast
      qed
      then show "\<exists>s1. visit sg pre post n j s3 = Some (Inr (), s1) \<and> P s1" using s4 by blast
    next
      show "{m. Some m \<in> set (part_images (s_images s2) i)} \<subseteq> child_names ims0 i"
        using same_graph_names [OF g2 i0] unfolding child_names_def by blast
    next
      fix m and s3 :: "'p sys"
      assume mc: "m \<in> child_names ims0 i" and P: "P s3"
      then obtain j where j: "image_index ims0 m = Some j" using names [OF i0] by blast
      have "same_graph ims0 (s_images s3)" using P by (simp add: P_def)
      then have "image_index (s_images s3) m = Some j" using same_graph_index j by metis
      then show "\<exists>j \<in> kids ims0 i. image_index (s_images s3) m = Some j" using j mc by (auto simp: kids_def)
    next
      show "P s2" using J2 g2 c2 st2 Suc.prems(5) by (auto simp: P_def less_imp_le)
    qed
    then obtain s3 where k: "for_parts (visit sg pre post n) (part_images (s_images s2) i) s2 = Some (Inr (), s3)"
      and J3: "J s3" and g3: "same_graph ims0 (s_images s3)" unfolding P_def by blast
    have "i < length (s_images s3)" using i0 same_graph_length [OF g3] by simp
    then obtain s4 where q: "post i s3 = (Inr (), s4)" and J4: "J s4" using post J3 by blast
    show ?thesis using False nb i p k q marks(2) [OF J4, of i] by (simp add: finished_def begun_def)
  qed
qed simp

end

section \<open>All images\<close>

lemma fold_stuck: "fold (\<lambda>i r. case r of Some (Inr _, s') \<Rightarrow> f i s' | _ \<Rightarrow> r) is (Some (Inl e, s)) = Some (Inl e, s)"
  "fold (\<lambda>i r. case r of Some (Inr _, s') \<Rightarrow> f i s' | _ \<Rightarrow> r) is None = None"
  by (induction "is") auto

text \<open>A loop of calls that all succeed, one call at a time.\<close>

lemma fold_steps:
  assumes run: "fold (\<lambda>i r. case r of Some (Inr _, s') \<Rightarrow> f i s' | _ \<Rightarrow> r) is (Some (Inr (), s)) = Some (Inr u, s')"
    and less: "\<forall>i \<in> set is. i < length (s_images s)"
    and call: "\<And>i u s s1. i < length (s_images s) \<Longrightarrow> f i s = Some (Inr u, s1) \<Longrightarrow> R s s1 \<and> Q i s1"
    and refl: "\<And>s. R s s" and trans: "\<And>a b c. R a b \<Longrightarrow> R b c \<Longrightarrow> R a c"
    and mono: "\<And>i s s1. R s s1 \<Longrightarrow> Q i s \<Longrightarrow> Q i s1"
    and len: "\<And>s s1. R s s1 \<Longrightarrow> length (s_images s1) = length (s_images s)"
  shows "R s s' \<and> (\<forall>i \<in> set is. Q i s')"
  using run less
proof (induction "is" arbitrary: s)
  case (Cons i js)
  obtain v s1 where c: "f i s = Some (Inr v, s1)"
    and r: "fold (\<lambda>i r. case r of Some (Inr _, s') \<Rightarrow> f i s' | _ \<Rightarrow> r) js (Some (Inr (), s1)) = Some (Inr u, s')"
  proof (cases "f i s")
    case None
    then show ?thesis using Cons.prems(1) by (simp add: fold_stuck)
  next
    case (Some a)
    then obtain r s1 where "f i s = Some (r, s1)" by fastforce
    then show ?thesis using Cons.prems(1) that by (cases r) (simp_all add: fold_stuck)
  qed
  have R: "R s s1" and q: "Q i s1" using call [OF _ c] Cons.prems(2) by simp_all
  have ih: "R s1 s' \<and> (\<forall>i \<in> set js. Q i s')"
    using Cons.IH [OF r] Cons.prems(2) len [OF R] by simp
  then have "Q i s'" using mono q by blast
  then show ?case using trans [OF R] ih by simp
qed (simp add: refl)

lemma fold_total:
  assumes ret: "\<And>i s. i < length (s_images s) \<Longrightarrow> length (s_images s) = n \<Longrightarrow> f i s \<noteq> None"
    and keep: "\<And>i s r s'. i < length (s_images s) \<Longrightarrow> f i s = Some (r, s') \<Longrightarrow> length (s_images s') = length (s_images s)"
  shows "\<forall>i \<in> set is. i < n \<Longrightarrow> length (s_images s) = n \<Longrightarrow>
   fold (\<lambda>i r. case r of Some (Inr _, s') \<Rightarrow> f i s' | _ \<Rightarrow> r) is (Some (Inr (), s)) \<noteq> None"
proof (induction "is" arbitrary: s)
  case (Cons i js)
  have i: "i < length (s_images s)" using Cons.prems by simp
  obtain r s1 where c: "f i s = Some (r, s1)" using ret [OF i Cons.prems(2)] by fastforce
  show ?case
  proof (cases r)
    case (Inl e)
    then show ?thesis using c by (simp add: fold_stuck)
  next
    case (Inr u)
    have "length (s_images s1) = n" using keep [OF i c] Cons.prems(2) by simp
    then show ?thesis using Cons.IH [of s1] Cons.prems(1) Inr c by simp
  qed
qed simp

lemma ordered_Nil: "finished sg ims = {} \<Longrightarrow> ordered sg ims"
  by (simp add: ordered_def)

context image_walk
begin

lemma all_images_total: "all_images (visit sg pre post) s \<noteq> None"
  unfolding all_images_def Let_def
proof (rule fold_total [where n = "length (s_images s)"])
  fix i and s0 :: "'p sys" assume i: "i < length (s_images s0)" and n: "length (s_images s0) = length (s_images s)"
  have "card (unbegun sg (s_images s0)) < Suc (length (s_images s))"
    using card_unbegun_le [of sg "s_images s0"] n by linarith
  then show "visit sg pre post (Suc (length (s_images s))) i s0 \<noteq> None" by (rule visit_total [OF i])
next
  fix i r and s0 s' :: "'p sys"
  assume "i < length (s_images s0)" "visit sg pre post (Suc (length (s_images s))) i s0 = Some (r, s')"
  then show "length (s_images s') = length (s_images s0)" by (rule later_length [OF visit_later])
qed auto

lemma all_images_success:
  assumes "all_images (visit sg pre post) s = Some (Inr u, s')"
  shows "steps sg s s' \<and> finished sg (s_images s') = {..<length (s_images s)}"
proof -
  have "steps sg s s' \<and> (\<forall>i \<in> set [0..<length (s_images s)]. i \<in> finished sg (s_images s'))"
  proof (rule fold_steps [OF assms [unfolded all_images_def Let_def]])
    fix i u and s0 s1 :: "'p sys"
    assume "i < length (s_images s0)" "visit sg pre post (Suc (length (s_images s))) i s0 = Some (Inr u, s1)"
    then show "steps sg s0 s1 \<and> i \<in> finished sg (s_images s1)" by (rule visit_success)
  next
    fix i and s0 s1 :: "'p sys" assume "steps sg s0 s1" "i \<in> finished sg (s_images s0)"
    then show "i \<in> finished sg (s_images s1)" by (rule subsetD [OF steps_finished])
  next
    fix s0 s1 :: "'p sys" assume "steps sg s0 s1"
    then show "length (s_images s1) = length (s_images s0)" unfolding steps_def by (blast intro: later_length)
  qed (auto intro: steps_refl steps_trans)
  then show ?thesis using later_length [of sg s s'] by (auto simp: steps_def finished_def)
qed

lemma all_images_succeed:
  assumes pre: "\<And>i s. i < length (s_images s) \<Longrightarrow> J s \<Longrightarrow> \<exists>s'. pre i s = (Inr (), s') \<and> J s'"
    and post: "\<And>i s. i < length (s_images s) \<Longrightarrow> J s \<Longrightarrow> \<exists>s'. post i s = (Inr (), s') \<and> J s'"
    and marks: "\<And>i s. J s \<Longrightarrow> J (set_image i ((s_images s ! i)\<lparr>im_seen := sg\<rparr>) s)"
      "\<And>i s. J s \<Longrightarrow> J (set_image i ((s_images s ! i)\<lparr>im_done := sg\<rparr>) s)"
    and rk: "\<And>i k. i < length (s_images s) \<Longrightarrow> k \<in> kids (s_images s) i \<Longrightarrow> rk k < (rk i :: nat)"
    and names: "\<And>i m. i < length (s_images s) \<Longrightarrow> m \<in> child_names (s_images s) i \<Longrightarrow> image_index (s_images s) m \<noteq> None"
    and J: "J s" and fresh: "begun sg (s_images s) \<subseteq> finished sg (s_images s)"
  shows "\<exists>s'. all_images (visit sg pre post) s = Some (Inr (), s')"
proof -
  let ?n = "length (s_images s)"
  define P where "P = (\<lambda>s' :: 'p sys. J s' \<and> same_graph (s_images s) (s_images s') \<and>
    begun sg (s_images s') \<subseteq> finished sg (s_images s'))"
  have call: "\<exists>s2. visit sg pre post (Suc ?n) i s1 = Some (Inr (), s2) \<and> P s2" if i: "i < ?n" and P: "P s1" for i s1
  proof -
    have g: "same_graph (s_images s) (s_images s1)" using P by (simp add: P_def)
    have i1: "i < length (s_images s1)" using i same_graph_length [OF g] by simp
    have c: "card (unbegun sg (s_images s1)) < Suc ?n"
      using card_unbegun_le [of sg "s_images s1"] same_graph_length [OF g] by linarith
    have gray: "\<forall>h \<in> begun sg (s_images s1) - finished sg (s_images s1). rk i < rk h" using P unfolding P_def by blast
    have "\<exists>s2. visit sg pre post (Suc ?n) i s1 = Some (Inr (), s2) \<and> J s2"
    proof (rule visit_succeeds [where rk = rk and ?ims0.0 = "s_images s"])
      show "J s1" using P by (simp add: P_def)
    qed (rule pre post marks rk names g i1 c gray; assumption)+
    then obtain s2 where v: "visit sg pre post (Suc ?n) i s1 = Some (Inr (), s2)" and J2: "J s2" by blast
    have st: "steps sg s1 s2" using visit_success [OF i1 v] by simp
    then have "P s2"
      using P J2 same_graph_trans [OF g] unfolding P_def steps_def later_def by blast
    then show ?thesis using v by blast
  qed
  have "\<exists>s'. fold (\<lambda>i r. case r of Some (Inr _, s') \<Rightarrow> visit sg pre post (Suc ?n) i s' | _ \<Rightarrow> r) js (Some (Inr (), s1))
      = Some (Inr (), s')" if "\<forall>i \<in> set js. i < ?n" "P s1" for js s1
    using that
  proof (induction js arbitrary: s1)
    case (Cons i js)
    obtain s2 where v: "visit sg pre post (Suc ?n) i s1 = Some (Inr (), s2)" and P2: "P s2"
      using call [of i s1] Cons.prems by auto
    show ?case using Cons.IH [OF _ P2] Cons.prems(1) by (simp only: fold.simps comp_apply option.case prod.case sum.case v) simp
  qed simp
  then show ?thesis
    using J fresh by (simp add: all_images_def Let_def P_def same_graph_refl)
qed

end

section \<open>The contract of a handler\<close>

text \<open>The finished images are ordered and good, the others are ready.\<close>

definition finished_all_good :: "('p sys \<Rightarrow> nat \<Rightarrow> bool) \<Rightarrow> int \<Rightarrow> 'p sys \<Rightarrow> bool" where
  "finished_all_good good sg s \<longleftrightarrow> ordered sg (s_images s) \<and> (\<forall>j \<in> finished sg (s_images s). good s j)"

definition all_good :: "('p sys \<Rightarrow> nat \<Rightarrow> bool) \<Rightarrow> ('p sys \<Rightarrow> nat \<Rightarrow> bool) \<Rightarrow> int \<Rightarrow> 'p sys \<Rightarrow> bool" where
  "all_good good ready sg s \<longleftrightarrow> finished_all_good good sg s \<and>
     (\<forall>j < length (s_images s). j \<notin> finished sg (s_images s) \<longrightarrow> ready s j)"

text \<open>
  What an operation establishes for its image, when it holds of the children already, holds of all
  images at the end, if nobody else spoils it: \<open>good s i\<close> may depend on the image \<open>i\<close> and its children.
  Before, the image has to be \<open>ready\<close>, which nobody else spoils either.
\<close>

locale image_contract = image_walk sg pre post for sg :: int and pre post :: "nat \<Rightarrow> 'p op" +
  fixes good ready :: "'p sys \<Rightarrow> nat \<Rightarrow> bool"
  assumes mark: "good (set_image i ((s_images s ! i)\<lparr>im_seen := sg\<rparr>) s) j = good s j"
      "good (set_image i ((s_images s ! i)\<lparr>im_done := sg\<rparr>) s) j = good s j"
    and ready_mark: "ready (set_image i ((s_images s ! i)\<lparr>im_seen := sg\<rparr>) s) j = ready s j"
      "ready (set_image i ((s_images s ! i)\<lparr>im_done := sg\<rparr>) s) j = ready s j"
    and ready_pre: "pre i s = (r, s') \<Longrightarrow> i < length (s_images s) \<Longrightarrow> j < length (s_images s) \<Longrightarrow> ready s j \<Longrightarrow> ready s' j"
    and ready_post: "post i s = (r, s') \<Longrightarrow> i < length (s_images s) \<Longrightarrow> j < length (s_images s) \<Longrightarrow> i \<noteq> j \<Longrightarrow>
      ready s j \<Longrightarrow> ready s' j"
    and pre_frame: "pre i s = (r, s') \<Longrightarrow> i < length (s_images s) \<Longrightarrow> j < length (s_images s) \<Longrightarrow> i \<noteq> j \<Longrightarrow>
      i \<notin> kids (s_images s) j \<Longrightarrow> good s j \<Longrightarrow> good s' j"
    and post_frame: "post i s = (r, s') \<Longrightarrow> i < length (s_images s) \<Longrightarrow> j < length (s_images s) \<Longrightarrow> i \<noteq> j \<Longrightarrow>
      i \<notin> kids (s_images s) j \<Longrightarrow> good s j \<Longrightarrow> good s' j"
    and post_good: "post i s = (Inr u, s') \<Longrightarrow> i < length (s_images s) \<Longrightarrow> ready s i \<Longrightarrow>
      i \<notin> kids (s_images s) i \<Longrightarrow>
      (\<And>m. m \<in> child_names (s_images s) i \<Longrightarrow> image_index (s_images s) m \<noteq> None) \<Longrightarrow>
      (\<And>k. k \<in> kids (s_images s) i \<Longrightarrow> good s k) \<Longrightarrow> good s' i"
begin

text \<open>An operation on an image that is not finished leaves the finished ones good.\<close>

lemma finished_good:
  assumes ag: "finished_all_good good sg s" and i: "i < length (s_images s)" and nf: "i \<notin> finished sg (s_images s)"
    and t: "tame i m" and m: "m s = (r, s')"
    and fr: "\<And>j. j < length (s_images s) \<Longrightarrow> i \<noteq> j \<Longrightarrow> i \<notin> kids (s_images s) j \<Longrightarrow> good s j \<Longrightarrow> good s' j"
  shows "finished_all_good good sg s'"
  unfolding finished_all_good_def
proof (intro conjI ballI)
  show "ordered sg (s_images s')"
    using ag ordered_cong [OF _ tameD(1) [OF t m i] tameD(3) [OF t m i]] by (simp add: finished_all_good_def)
  fix j assume "j \<in> finished sg (s_images s')"
  then have j: "j \<in> finished sg (s_images s)" using tameD(3) [OF t m i] by simp
  obtain rk where "placed sg (s_images s) rk j" using ag j unfolding finished_all_good_def ordered_def by blast
  then have "i \<notin> kids (s_images s) j" using nf unfolding placed_def by blast
  then show "good s' j" using fr [OF finished_less [OF j]] ag j nf unfolding finished_all_good_def by blast
qed

lemma visit_good:
  "i < length (s_images s) \<Longrightarrow> visit sg pre post n i s = Some (Inr u, s') \<Longrightarrow> all_good good ready sg s \<Longrightarrow> all_good good ready sg s'"
proof (induction n arbitrary: i s u s')
  case (Suc n)
  let ?s1 = "set_image i ((s_images s ! i)\<lparr>im_seen := sg\<rparr>) s"
  note i = Suc.prems(1)
  have i1: "i < length (s_images ?s1)" using i by (simp add: set_image_def)
  from Suc.prems(2) i show ?case
  proof (cases rule: visit_cases)
    case finished
    then show ?thesis using Suc.prems(3) by simp
  next
    case (all s2 s3 s4)
    have b1: "begun sg (s_images ?s1) = insert i (begun sg (s_images s))"
      and f1: "finished sg (s_images ?s1) = finished sg (s_images s)" using begun_mark [OF i sg0] by simp_all
    have l1: "length (s_images ?s1) = length (s_images s)" by (simp add: set_image_def)
    have fg1: "finished_all_good good sg ?s1"
      using Suc.prems(3) ordered_cong [OF _ graph_mark(1) f1] by (simp add: all_good_def finished_all_good_def f1 mark)
    have fg2: "finished_all_good good sg s2"
      by (rule finished_good [OF fg1 i1 _ pre_tame all(4)]) (use all(2) f1 pre_frame [OF all(4) i1] in simp_all)
    have ag2: "all_good good ready sg s2"
    proof -
      have "ready s2 j" if "j < length (s_images s2)" "j \<notin> finished sg (s_images s2)" for j
      proof (rule ready_pre [OF all(4) i1])
        show "j < length (s_images ?s1)" using that(1) later_length [OF later_tame [OF pre_tame all(4) i1, of sg]] by simp
        then show "ready ?s1 j"
          using that(2) Suc.prems(3) f1 l1 tameD(3) [OF pre_tame all(4) i1, of sg] by (simp add: all_good_def ready_mark)
      qed
      then show ?thesis using fg2 by (simp add: all_good_def)
    qed
    have i2: "i < length (s_images s2)" using later_length [OF later_tame [OF pre_tame all(4) i1, of sg]] i1 by simp
    have b2: "i \<in> begun sg (s_images s2)" "i \<notin> finished sg (s_images s2)"
      using tameD(2,3) [OF pre_tame all(4) i1, of sg] b1 f1 all(2) by simp_all
    have k: "(steps sg s2 s3 \<and> (all_good good ready sg s2 \<longrightarrow> all_good good ready sg s3)) \<and>
      (\<forall>m. Some m \<in> set (part_images (s_images s2) i) \<longrightarrow>
        (\<exists>j. image_index (s_images s2) m = Some j \<and> j \<in> finished sg (s_images s3)))"
    proof (rule for_parts_success [OF all(5)])
      fix j u and s s1 :: "'p sys"
      assume j: "j < length (s_images s)" and v: "visit sg pre post n j s = Some (Inr u, s1)"
      show "(steps sg s s1 \<and> (all_good good ready sg s \<longrightarrow> all_good good ready sg s1)) \<and> j \<in> finished sg (s_images s1)"
        using visit_success [OF j v] Suc.IH [OF j v] by blast
    next
      fix j and s s1 :: "'p sys"
      assume "steps sg s s1 \<and> (all_good good ready sg s \<longrightarrow> all_good good ready sg s1)" "j \<in> finished sg (s_images s)"
      then show "j \<in> finished sg (s_images s1)" using steps_finished by blast
    next
      fix s s1 :: "'p sys" and m assume "steps sg s s1 \<and> (all_good good ready sg s \<longrightarrow> all_good good ready sg s1)"
      then show "image_index (s_images s1) m = image_index (s_images s) m" using steps_index by blast
    qed (use steps_refl steps_trans in blast)+
    then have st: "steps sg s2 s3" and ag3: "all_good good ready sg s3" using ag2 by simp_all
    have l3: "later sg s2 s3" using st by (simp add: steps_def)
    have g3: "same_graph (s_images s2) (s_images s3)" using l3 by (simp add: later_def)
    have i3: "i < length (s_images s3)" using later_length [OF l3] i2 by simp
    have n3: "i \<notin> finished sg (s_images s3)" using st b2 unfolding steps_def by blast
    have fg3: "finished_all_good good sg s3" using ag3 by (simp add: all_good_def)
    have ag4: "finished_all_good good sg s4"
      by (rule finished_good [OF fg3 i3 n3 post_tame all(6)]) (rule post_frame [OF all(6) i3])
    have r3: "ready s3 i" using ag3 i3 n3 by (simp add: all_good_def)
    have names: "image_index (s_images s3) m \<noteq> None" and kid: "\<And>l. image_index (s_images s3) m = Some l \<Longrightarrow> good s3 l"
      if "m \<in> child_names (s_images s3) i" for m
    proof -
      have "Some m \<in> set (part_images (s_images s2) i)"
        using that same_graph_names [OF g3 i2] unfolding child_names_def by blast
      then obtain j where "image_index (s_images s2) m = Some j" "j \<in> finished sg (s_images s3)" using k by blast
      then show "image_index (s_images s3) m \<noteq> None" "\<And>l. image_index (s_images s3) m = Some l \<Longrightarrow> good s3 l"
        using ag3 same_graph_index [OF g3, of m] by (auto simp: all_good_def finished_all_good_def)
    qed
    have ni: "i \<notin> kids (s_images s3) i"
    proof
      assume "i \<in> kids (s_images s3) i"
      then obtain m where "m \<in> child_names (s_images s3) i" "image_index (s_images s3) m = Some i"
        unfolding kids_def by blast
      then have "Some m \<in> set (part_images (s_images s2) i)" "image_index (s_images s2) m = Some i"
        using same_graph_names [OF g3 i2] same_graph_index [OF g3, of m] unfolding child_names_def by auto
      then show False using k n3 by auto
    qed
    have gi: "good s4 i"
      by (rule post_good [OF all(6) i3 r3 ni names]) (use kid in \<open>auto simp: kids_def\<close>)
    have i4: "i < length (s_images s4)" using same_graph_length [OF tameD(1) [OF post_tame all(6) i3]] i3 by simp
    have f5: "finished sg (s_images s') = insert i (finished sg (s_images s4))"
      using finished_mark [OF i4 sg0] by (simp add: all(7))
    have o5: "ordered sg (s_images s')"
      using visit_success [OF Suc.prems(1,2)] Suc.prems(3) by (simp add: steps_def all_good_def finished_all_good_def)
    have "good s' j" if "j \<in> finished sg (s_images s')" for j
    proof -
      have "j = i \<or> j \<in> finished sg (s_images s4)" using that f5 by simp
      then have "good s4 j" using ag4 gi by (auto simp: finished_all_good_def)
      then show ?thesis by (simp add: all(7) mark)
    qed
    moreover have "ready s' j" if "j < length (s_images s')" "j \<notin> finished sg (s_images s')" for j
    proof -
      note f4 = tameD(3) [OF post_tame all(6) i3, of sg] and l4 = later_length [OF later_tame [OF post_tame all(6) i3, of sg]]
      have j: "j < length (s_images s3)" "i \<noteq> j" "j \<notin> finished sg (s_images s3)"
        using that f5 f4 l4 by (auto simp: all(7) set_image_def)
      then have "ready s3 j" using ag3 by (simp add: all_good_def)
      then show ?thesis using ready_post [OF all(6) i3 j(1,2)] by (simp add: all(7) ready_mark)
    qed
    ultimately show ?thesis using o5 by (simp add: all_good_def finished_all_good_def)
  qed auto
qed simp

lemma all_images_good:
  assumes "all_images (visit sg pre post) s = Some (Inr u, s')" and "finished sg (s_images s) = {}"
    and "\<forall>i < length (s_images s). ready s i"
  shows "\<forall>i < length (s_images s). good s' i"
proof -
  let ?R = "\<lambda>s s'. steps sg s s' \<and> (all_good good ready sg s \<longrightarrow> all_good good ready sg s')"
  have "?R s s' \<and> (\<forall>i \<in> set [0..<length (s_images s)]. True)"
  proof (rule fold_steps [OF assms(1) [unfolded all_images_def Let_def]])
    fix i u and s0 s1 :: "'p sys"
    assume a: "i < length (s_images s0)" "visit sg pre post (Suc (length (s_images s))) i s0 = Some (Inr u, s1)"
    show "?R s0 s1 \<and> True"
      using visit_success [OF a] visit_good [OF a] by blast
  next
    fix s0 s1 :: "'p sys" assume "?R s0 s1"
    then show "length (s_images s1) = length (s_images s0)" unfolding steps_def by (blast intro: later_length)
  next
    fix a b c :: "'p sys" assume "?R a b" "?R b c"
    then show "?R a c" using steps_trans by blast
  qed (simp_all add: steps_refl)
  then have "all_good good ready sg s'" using assms(2,3) by (simp add: all_good_def finished_all_good_def ordered_Nil)
  then show ?thesis using all_images_success [OF assms(1)] by (simp add: all_good_def finished_all_good_def)
qed

end

end
