(* ===== verification/Flash.thy ===== *)
theory Flash
  imports FileRuns Image
begin

text \<open>
  The handler of raw flash images, \<^verbatim>\<open>image-flash.c\<close>: \<open>flash_setup\<close> places the partitions one after the
  other in whole erase blocks, \<open>flash_generate\<close> writes their images and fills what is left with 0xFF. The
  private data of the handler is empty.
\<close>

section \<open>flash_setup\<close>

text \<open>
  The geometry is a pair of C \<open>int\<close>s, widened with their sign to 64 bits.
\<close>

definition flash_pebsize :: "flash_type \<Rightarrow> u64" where
  "flash_pebsize ft = scast (ft_pebsize ft)"

definition flash_size :: "flash_type \<Rightarrow> u64" where
  "flash_size ft = flash_pebsize ft * scast (ft_numpebs ft)"

text \<open>The size of a partition: one of size 0 takes the rest of the flash, and must be the last.\<close>

definition flash_part_size :: "u64 \<Rightarrow> partition \<Rightarrow> bool \<Rightarrow> u64 \<Rightarrow> (bool \<times> u64) result" where
  "flash_part_size flashsize part seen_last partsize =
     (if seen_last then Inl EINVAL
      else if p_size part = 0 then
        if partsize > flashsize then Inl EINVAL else Inr (True, flashsize - partsize)
      else Inr (False, p_size part))"

text \<open>The image of a partition must exist and fit.\<close>

definition flash_check_image :: "image list \<Rightarrow> u64 \<Rightarrow> partition \<Rightarrow> unit result" where
  "flash_check_image images psize part =
     (case p_image part of None \<Rightarrow> Inr ()
      | Some f \<Rightarrow> (case image_get images f of None \<Rightarrow> Inl EINVAL
          | Some child \<Rightarrow> ensure (\<not> im_size child > psize) EINVAL))"

text \<open>
  One iteration: \<open>seen_last\<close> (the variable \<open>last\<close>) and \<open>partsize\<close> are the running variables. Division by an erase block size of 0 is
  undefined in C.
\<close>

definition flash_setup_part ::
  "image list \<Rightarrow> flash_type \<Rightarrow> partition \<Rightarrow> bool \<times> u64 \<Rightarrow> (partition \<times> bool \<times> u64) result" where
  "flash_setup_part images ft part = (\<lambda>(seen_last, partsize).
     rbind (flash_part_size (flash_size ft) part seen_last partsize) (\<lambda>(last', psize).
     rbind (ensure (flash_pebsize ft \<noteq> 0) Undefined) (\<lambda>_.
     rbind (ensure (psize mod flash_pebsize ft = 0) EINVAL) (\<lambda>_.
     rbind (ensure (p_offset part mod flash_pebsize ft = 0) EINVAL) (\<lambda>_.
     rbind (ensure (p_offset part = 0 \<or> partsize \<le> p_offset part) EINVAL) (\<lambda>_.
     let off = (if p_offset part \<noteq> 0 then p_offset part else partsize) in
     rbind (flash_check_image images psize part) (\<lambda>_.
       Inr (part\<lparr>p_size := psize, p_offset := off\<rparr>, last', off + psize))))))))"

fun flash_loop ::
  "image list \<Rightarrow> flash_type \<Rightarrow> partition list \<Rightarrow> bool \<times> u64 \<Rightarrow> (partition list \<times> u64) result" where
  "flash_loop images ft [] st = Inr ([], snd st)"
| "flash_loop images ft (part # parts) st =
     rbind (flash_setup_part images ft part st) (\<lambda>(part', st').
     rbind (flash_loop images ft parts st') (\<lambda>(parts', partsize). Inr (part' # parts', partsize)))"

definition flash_setup :: "image list \<Rightarrow> image \<Rightarrow> image result" where
  "flash_setup images im =
     (case im_flash_type im of None \<Rightarrow> Inl EINVAL
      | Some ft \<Rightarrow>
          rbind (flash_loop images ft (im_partitions im) (False, 0)) (\<lambda>(parts, partsize).
            if partsize > flash_size ft then Inl EINVAL
            else Inr (im\<lparr>im_partitions := parts,
                         im_size := if im_size im = 0 then partsize else im_size im\<rparr>)))"

section \<open>flash_generate\<close>

text \<open>Fill from \<open>lo\<close> to \<open>hi\<close> with 0xFF.\<close>

definition flash_pad :: "fiemap \<Rightarrow> string \<Rightarrow> u64 \<Rightarrow> u64 \<Rightarrow> unit io" where
  "flash_pad fm outfile lo hi =
     (if hi > lo then insert_image fm outfile None (hi - lo) lo 0 0xFF False else ret ())"

text \<open>The image of a partition; NULL when there is none, and then the partition is filled with 0xFF.\<close>

definition flash_child :: "image list \<Rightarrow> partition \<Rightarrow> image option" where
  "flash_child images part = (case p_image part of None \<Rightarrow> None | Some f \<Rightarrow> image_get images f)"

fun flash_parts :: "fiemap \<Rightarrow> image list \<Rightarrow> string \<Rightarrow> partition list \<Rightarrow> u64 \<Rightarrow> u64 io" where
  "flash_parts fm images outfile [] end' = ret end'"
| "flash_parts fm images outfile (part # parts) end' =
     bind_io (flash_pad fm outfile end' (p_offset part)) (\<lambda>_.
     bind_io (insert_image fm outfile (map_option im_outfile (flash_child images part))
                (p_size part) (p_offset part) 0 0xFF False) (\<lambda>_.
       flash_parts fm images outfile parts (partition_end part)))"

definition flash_generate :: "fiemap \<Rightarrow> image list \<Rightarrow> image \<Rightarrow> unit io" where
  "flash_generate fm images im =
     bind_io (prepare_image fm (im_outfile im) (im_size im)) (\<lambda>_.
     bind_io (flash_parts fm images (im_outfile im) (im_partitions im) 0) (\<lambda>end'.
       flash_pad fm (im_outfile im) end' (im_size im)))"


section \<open>The layout\<close>

text \<open>
  Partitions one after the other from \<open>lo\<close> on, the last ending at \<open>hi\<close>.
\<close>

fun chain :: "nat \<Rightarrow> partition list \<Rightarrow> nat \<Rightarrow> bool" where
  "chain lo [] hi \<longleftrightarrow> lo = hi"
| "chain lo (p # ps) hi \<longleftrightarrow> lo \<le> unat (p_offset p) \<and> chain (unat (p_offset p) + unat (p_size p)) ps hi"

lemma chain_bounds: "chain lo ps hi \<Longrightarrow> lo \<le> hi \<and> (\<forall>p \<in> set ps. lo \<le> unat (p_offset p) \<and>
    unat (p_offset p) + unat (p_size p) \<le> hi)"
  by (induction lo ps hi rule: chain.induct) fastforce+

lemma chain_sorted: "chain lo ps hi \<Longrightarrow>
    sorted_wrt (\<lambda>p q. unat (p_offset p) + unat (p_size p) \<le> unat (p_offset q)) ps"
  by (induction lo ps hi rule: chain.induct) (auto dest: chain_bounds)

lemma flash_setup_part_ok:
  assumes "flash_setup_part images ft part (lst, partsize) = Inr (part', lst', e)"
  shows "unat partsize \<le> unat (p_offset part')" "e = p_offset part' + p_size part'" "\<not> lst"
    "flash_pebsize ft \<noteq> 0" "p_size part' mod flash_pebsize ft = 0"
    "unat partsize mod unat (flash_pebsize ft) = 0 \<Longrightarrow> unat (p_offset part') mod unat (flash_pebsize ft) = 0"
    "\<exists>off n. part' = part\<lparr>p_size := n, p_offset := off\<rparr> \<and> (p_size part \<noteq> 0 \<longrightarrow> n = p_size part) \<and>
        (p_offset part \<noteq> 0 \<longrightarrow> off = p_offset part)"
    "p_image part' = Some f \<Longrightarrow> \<exists>child. image_get images f = Some child \<and> im_size child \<le> p_size part'"
proof -
  obtain psize where sz: "flash_part_size (flash_size ft) part lst partsize = Inr (lst', psize)"
    and pz: "flash_pebsize ft \<noteq> 0" and ms: "psize mod flash_pebsize ft = 0"
    and mo: "p_offset part mod flash_pebsize ft = 0" and o: "p_offset part = 0 \<or> partsize \<le> p_offset part"
    and im: "flash_check_image images psize part = Inr ()"
    and part': "part' = part\<lparr>p_size := psize, p_offset := if p_offset part \<noteq> 0 then p_offset part else partsize\<rparr>"
    and e': "e = (if p_offset part \<noteq> 0 then p_offset part else partsize) + psize"
    using assms unfolding flash_setup_part_def Let_def prod.case
    by (elim rbindE case_prodE') (simp only: ensure_ok sum.inject prod.inject, elim conjE, simp)
  then have e: "e = p_offset part' + p_size part'" and ps: "p_size part' = psize" by simp_all
  show "unat partsize \<le> unat (p_offset part')" using o unfolding part' by (auto simp: word_le_nat_alt)
  show "e = p_offset part' + p_size part'" by (rule e)
  show "flash_pebsize ft \<noteq> 0" "p_size part' mod flash_pebsize ft = 0" unfolding ps by fact+
  show "\<not> lst" using sz by (auto simp: flash_part_size_def split: if_splits)
  show "unat (p_offset part') mod unat (flash_pebsize ft) = 0" if "unat partsize mod unat (flash_pebsize ft) = 0"
    using mo that unfolding part' by (simp add: u64_mod0_dvd dvd_eq_mod_eq_0 del: mod_0_imp_dvd)
  show "\<exists>off n. part' = part\<lparr>p_size := n, p_offset := off\<rparr> \<and> (p_size part \<noteq> 0 \<longrightarrow> n = p_size part) \<and>
        (p_offset part \<noteq> 0 \<longrightarrow> off = p_offset part)"
    using sz by (intro exI [of _ "if p_offset part \<noteq> 0 then p_offset part else partsize"] exI [of _ psize])
      (simp add: part', auto simp: flash_part_size_def split: if_splits)
  show "\<exists>child. image_get images f = Some child \<and> im_size child \<le> p_size part'" if "p_image part' = Some f"
  proof -
    have "p_image part = Some f" using that unfolding part' by simp
    then show ?thesis using im unfolding ps by (auto simp: flash_check_image_def ensure_ok not_less split: option.splits)
  qed
qed

text \<open>What the setup keeps of a partition as it was configured.\<close>

definition flash_kept :: "partition \<Rightarrow> partition \<Rightarrow> bool" where
  "flash_kept p q \<longleftrightarrow> (\<exists>off n. q = p\<lparr>p_size := n, p_offset := off\<rparr> \<and> (p_size p \<noteq> 0 \<longrightarrow> n = p_size p) \<and>
     (p_offset p \<noteq> 0 \<longrightarrow> off = p_offset p))"

definition flash_placed :: "image list \<Rightarrow> flash_type \<Rightarrow> partition \<Rightarrow> bool" where
  "flash_placed images ft p \<longleftrightarrow> unat (flash_pebsize ft) dvd unat (p_offset p) \<and>
     unat (flash_pebsize ft) dvd unat (p_size p) \<and>
     (\<forall>f. p_image p = Some f \<longrightarrow> (\<exists>child. image_get images f = Some child \<and> im_size child \<le> p_size p))"

lemma flash_loop_ok:
  "flash_loop images ft parts (lst, partsize) = Inr (ps, e) \<Longrightarrow>
   unat (flash_pebsize ft) dvd unat partsize \<Longrightarrow> \<forall>p \<in> set ps. no_wrap p \<Longrightarrow>
   chain (unat partsize) ps (unat e) \<and> (\<forall>p \<in> set ps. flash_placed images ft p) \<and> list_all2 flash_kept parts ps"
proof (induction parts arbitrary: lst partsize ps)
  case Nil
  then show ?case by simp
next
  case (Cons part parts)
  obtain q st' qs where s': "flash_setup_part images ft part (lst, partsize) = Inr (q, st')"
    and l': "flash_loop images ft parts st' = Inr (qs, e)" and ps: "ps = q # qs"
    using Cons.prems(1) unfolding flash_loop.simps
    by (elim rbindE case_prodE') auto
  obtain lst' e1 where st': "st' = (lst', e1)" by fastforce
  note s = s' [unfolded st'] and l = l' [unfolded st']
  note q = flash_setup_part_ok [OF s]
  have w: "no_wrap q" using Cons.prems(3) ps by simp
  then have e1: "unat e1 = unat (p_offset q) + unat (p_size q)" using q(2) by (simp add: no_wrap_def unat_add64)
  have d: "unat (flash_pebsize ft) dvd unat (p_offset q)" using q(6) Cons.prems(2) by (auto simp: dvd_eq_mod_eq_0)
  have d': "unat (flash_pebsize ft) dvd unat (p_size q)" using q(5) by (simp only: u64_mod0_dvd)
  have "chain (unat e1) qs (unat e) \<and> (\<forall>p \<in> set qs. flash_placed images ft p) \<and> list_all2 flash_kept parts qs"
  proof (rule Cons.IH [OF l])
    show "unat (flash_pebsize ft) dvd unat e1" using d d' by (simp add: e1)
    show "\<forall>p \<in> set qs. no_wrap p" using Cons.prems(3) ps by simp
  qed
  moreover have "flash_placed images ft q" using d d' q(8) by (simp add: flash_placed_def)
  moreover have "flash_kept part q" using q(7) by (simp add: flash_kept_def)
  ultimately show ?case using q(1) by (simp add: ps e1)
qed

lemma flash_setup_steps:
  assumes "flash_setup images im = Inr im'" and "\<forall>p \<in> set (im_partitions im'). no_wrap p"
  obtains ft e where "im_flash_type im = Some ft" "chain 0 (im_partitions im') (unat e)" "e \<le> flash_size ft"
    "\<forall>p \<in> set (im_partitions im'). flash_placed images ft p"
    "list_all2 flash_kept (im_partitions im) (im_partitions im')"
    "im' = im\<lparr>im_partitions := im_partitions im', im_size := if im_size im = 0 then e else im_size im\<rparr>"
proof -
  obtain ft ps e where ft: "im_flash_type im = Some ft"
    and l: "flash_loop images ft (im_partitions im) (False, 0) = Inr (ps, e)"
    and e: "e \<le> flash_size ft"
    and im': "im' = im\<lparr>im_partitions := ps, im_size := if im_size im = 0 then e else im_size im\<rparr>"
    using assms(1) by (auto simp: flash_setup_def not_less elim!: rbindE split: option.splits if_splits)
  have "chain (unat 0) ps (unat e) \<and> (\<forall>p \<in> set ps. flash_placed images ft p) \<and> list_all2 flash_kept (im_partitions im) ps"
    using flash_loop_ok [OF l] assms(2) by (simp add: im')
  then show thesis using that [OF ft, of e] e by (simp add: im')
qed

text \<open>
  C27: after a successful \<open>flash_setup\<close> the partitions follow one another without overlap, in the order of
  the configuration, in whole erase blocks and within the flash; the image of each exists and fits into
  it; and the offsets and sizes that were configured are kept. No partition wraps around 64 bits.
\<close>

theorem flash_setup_layout:
  assumes "flash_setup images im = Inr im'" and "\<forall>p \<in> set (im_partitions im'). no_wrap p"
  shows "\<exists>ft. im_flash_type im = Some ft \<and>
    sorted_wrt (\<lambda>p q. unat (p_offset p) + unat (p_size p) \<le> unat (p_offset q)) (im_partitions im') \<and>
    (\<forall>p \<in> set (im_partitions im'). flash_placed images ft p \<and>
       unat (p_offset p) + unat (p_size p) \<le> unat (flash_size ft)) \<and>
    list_all2 flash_kept (im_partitions im) (im_partitions im')"
  using assms
proof (rule flash_setup_steps)
  fix ft e
  assume ft: "im_flash_type im = Some ft" and c: "chain 0 (im_partitions im') (unat e)" and e: "e \<le> flash_size ft"
    and rest: "\<forall>p \<in> set (im_partitions im'). flash_placed images ft p"
    "list_all2 flash_kept (im_partitions im) (im_partitions im')"
  have "unat (p_offset p) + unat (p_size p) \<le> unat (flash_size ft)" if "p \<in> set (im_partitions im')" for p
    using chain_bounds [OF c] that e unfolding word_le_nat_alt by fastforce
  then show ?thesis using ft rest chain_sorted [OF c] by blast
qed

lemma flash_setup_chain:
  "flash_setup images im = Inr im' \<Longrightarrow> \<forall>p \<in> set (im_partitions im'). no_wrap p \<Longrightarrow> \<exists>e :: u64. chain 0 (im_partitions im') (unat e)"
  by (erule flash_setup_steps, assumption, rule exI)

section \<open>The contents\<close>

text \<open>
  The byte \<open>j\<close> of a partition that is written: that of the image, 0xFF instead of a zero where the image
  has a hole, and 0xFF for a partition without an image.
\<close>

definition flash_byte :: "(string \<Rightarrow> inode option) \<Rightarrow> image list \<Rightarrow> partition \<Rightarrow> nat \<Rightarrow> u8 \<Rightarrow> bool" where
  "flash_byte files images p j b = (case flash_child images p of None \<Rightarrow> b = 0xFF
     | Some child \<Rightarrow> \<exists>src. files (im_outfile child) = Some src \<and>
         (b = fdata src j \<or> fdata src j = 0 \<and> b = 0xFF))"

text \<open>The file at \<open>out\<close> is right from \<open>lo\<close> up to \<open>hi\<close>, and of length \<open>max n hi\<close>.\<close>

definition flash_bytes :: "(string \<Rightarrow> inode option) \<Rightarrow> image list \<Rightarrow> partition list \<Rightarrow> nat \<Rightarrow> nat \<Rightarrow> inode \<Rightarrow> bool" where
  "flash_bytes files images ps lo hi y \<longleftrightarrow> (\<forall>i. lo \<le> i \<and> i < hi \<longrightarrow>
     (case find (\<lambda>p. i \<in> covered p) ps of None \<Rightarrow> fdata y i = 0xFF
      | Some p \<Rightarrow> flash_byte files images p (i - unat (p_offset p)) (fdata y i)))"

lemma flash_pad_ok:
  assumes "flash_pad fm out lo hi w = (Inr u, w')" and wf: "wf_fs w" and x: "fs w out = Some x"
  shows "fs w' = (fs w)(out \<mapsto> write_at (unat lo) (replicate (unat hi - unat lo) 0xFF) x)"
proof (cases "hi > lo")
  case True
  then have n: "unat (hi - lo) = unat hi - unat lo" by (simp add: unat_sub64 word_less_nat_alt)
  have "unat lo + unat (hi - lo) < 2 ^ 64" using n True unat_lt64 [of hi] by (simp add: word_less_nat_alt)
  then have "fs w' = (fs w)(out \<mapsto> write_at (unat lo) (replicate (unat (hi - lo)) 0xFF) (file_at w out))"
    using assms(1) True by (intro insert_image_fill [OF _ wf]) (auto simp: flash_pad_def)
  then show ?thesis by (simp add: n x file_at_def)
next
  case False
  then show ?thesis using assms(1) x by (auto simp: flash_pad_def io_ok word_less_nat_alt fun_upd_idem)
qed

lemma wf_flash_pad: "keeps (\<lambda>w w'. wf_fs w \<longrightarrow> wf_fs w') (flash_pad fm out lo hi)"
  unfolding flash_pad_def by (intro keeps_if wff.keeps_insert_image wff.keeps_ret)

lemma flash_insert_ok:
  assumes ok: "insert_image fm out (map_option im_outfile (flash_child images p)) (p_size p) (p_offset p) 0 0xFF False w
      = (Inr u, w')"
    and wf: "wf_fs w" and x: "fs w out = Some x" and nw: "no_wrap p" and fm: "fiemap_ok fm"
    and ne: "\<forall>im \<in> set images. im_outfile im \<noteq> out"
  shows "\<exists>bs. length bs = unat (p_size p) \<and> fs w' = (fs w)(out \<mapsto> write_at (unat (p_offset p)) bs x) \<and>
     (\<forall>j < unat (p_size p). flash_byte (fs w) images p j (bs ! j))"
proof (cases "flash_child images p")
  case None
  have "fs w' = (fs w)(out \<mapsto> write_at (unat (p_offset p)) (replicate (unat (p_size p)) 0xFF) (file_at w out))"
    using ok nw unfolding None option.map by (intro insert_image_fill [OF _ wf]) (auto simp: no_wrap_def)
  then show ?thesis
    by (intro exI [of _ "replicate (unat (p_size p)) 0xFF"]) (simp add: flash_byte_def None file_at_def x)
next
  case (Some child)
  have "child \<in> set images" using Some by (auto simp: flash_child_def dest: image_get_SomeD split: option.splits)
  then have io: "im_outfile child \<noteq> out" using ne by blast
  have cov: "\<forall>y. fs w (im_outfile child) = Some y \<longrightarrow> covers (unat (p_size p + 0)) (to_extents (fm y)) y"
    using fm wf by (auto simp: wf_fs_def intro: fiemap_ok_covers)
  obtain src k where src: "fs w (im_outfile child) = Some src" and k: "k \<le> unat (p_size p)"
    and z: "\<forall>i. unat (0 :: u64) + k \<le> i \<and> i < unat (0 :: u64) + unat (p_size p) \<longrightarrow> fdata src i = 0"
    and w': "fs w' = (fs w)(out \<mapsto> write_at (unat (p_offset p))
      (map (fdata src) [unat (0 :: u64)..<unat (0 :: u64) + k] @ replicate (unat (p_size p) - k) 0xFF) (file_at w out))"
    using insert_image_ok [OF ok [unfolded Some option.map] io wf _ _ cov] nw unat_lt64 [of "p_size p"]
    by (auto simp: no_wrap_def)
  show ?thesis
    by (rule exI [of _ "map (fdata src) [0..<k] @ replicate (unat (p_size p) - k) 0xFF"])
      (use w' k z in \<open>auto simp: flash_byte_def Some src nth_append file_at_def x\<close>)
qed

lemma flash_byte_cong:
  "\<forall>im \<in> set images. im_outfile im \<noteq> out \<Longrightarrow> fs1 = fs0(out := z) \<Longrightarrow>
   flash_byte fs1 images p j b = flash_byte fs0 images p j b"
  by (auto simp: flash_byte_def flash_child_def dest: image_get_SomeD split: option.splits)

lemma not_covered_before: "chain lo ps hi \<Longrightarrow> i < lo \<Longrightarrow> find (\<lambda>p. i \<in> covered p) ps = None"
  using chain_bounds [of lo ps hi] by (fastforce simp: find_None_iff covered_def)

lemma covered_iff: "no_wrap p \<Longrightarrow> i \<in> covered p \<longleftrightarrow> unat (p_offset p) \<le> i \<and> i < unat (p_offset p) + unat (p_size p)"
  by (simp add: covered_def)

text \<open>One partition, with the padding before it, followed by the rest.\<close>

lemma flash_bytes_Cons:
  assumes c: "e \<le> unat (p_offset p)" "chain (unat (p_offset p) + unat (p_size p)) ps hi"
    and l1: "length b1 = unat (p_size p)" and nw: "no_wrap p"
    and f1: "\<forall>j < unat (p_size p). flash_byte files images p j (b1 ! j)"
    and l2: "length b2 = hi - (unat (p_offset p) + unat (p_size p))"
    and f2: "flash_bytes files images ps (unat (p_offset p) + unat (p_size p)) hi y"
    and y: "y = write_at e (replicate (unat (p_offset p) - e) 0xFF @ b1 @ b2) x"
  shows "flash_bytes files images (p # ps) e hi y"
  unfolding flash_bytes_def
proof (intro allI impI)
  let ?o = "unat (p_offset p)" and ?n = "unat (p_size p)"
  fix i assume i: "e \<le> i \<and> i < hi"
  have le: "?o + ?n \<le> hi" using chain_bounds [OF c(2)] by simp
  have rd: "fdata y i = (replicate (?o - e) 0xFF @ b1 @ b2) ! (i - e)"
    using i c(1) l1 l2 le unfolding y by (simp add: disk.rd_wr)
  consider "i < ?o" | "?o \<le> i" "i < ?o + ?n" | "?o + ?n \<le> i" by linarith
  then show "case find (\<lambda>p. i \<in> covered p) (p # ps) of None \<Rightarrow> fdata y i = 0xFF
      | Some p \<Rightarrow> flash_byte files images p (i - unat (p_offset p)) (fdata y i)"
  proof cases
    case 1
    then have "find (\<lambda>p. i \<in> covered p) (p # ps) = None"
      using not_covered_before [OF c(2), of i] by (simp add: covered_iff [OF nw])
    moreover have "i - e < ?o - e" using 1 i by linarith
    ultimately show ?thesis using rd by (simp add: nth_append)
  next
    case 2
    then have "\<not> i - e < ?o - e" "i - e - (?o - e) = i - ?o" "i - ?o < ?n" using c(1) by linarith+
    then have "fdata y i = b1 ! (i - ?o)" using rd l1 by (simp add: nth_append)
    then show ?thesis using 2 f1 by (simp add: covered_iff [OF nw])
  next
    case 3
    then show ?thesis using f2 i by (simp add: covered_iff [OF nw] flash_bytes_def)
  qed
qed

lemma flash_bytes_cong:
  "\<forall>im \<in> set images. im_outfile im \<noteq> out \<Longrightarrow> fs1 = fs0(out := z) \<Longrightarrow>
   flash_bytes fs1 images ps lo hi y = flash_bytes fs0 images ps lo hi y"
  unfolding flash_bytes_def by (simp only: flash_byte_cong)

lemma flash_parts_ok:
  "flash_parts fm images out ps e w = (Inr e', w') \<Longrightarrow> wf_fs w \<Longrightarrow> fs w out = Some x \<Longrightarrow> fiemap_ok fm \<Longrightarrow>
   \<forall>im \<in> set images. im_outfile im \<noteq> out \<Longrightarrow> \<forall>p \<in> set ps. no_wrap p \<Longrightarrow> chain (unat e) ps hi \<Longrightarrow>
   \<exists>bs. fs w' = (fs w)(out \<mapsto> write_at (unat e) bs x) \<and> unat e' = hi \<and> length bs = hi - unat e \<and> wf_fs w' \<and>
     flash_bytes (fs w) images ps (unat e) hi (write_at (unat e) bs x)"
proof (induction ps arbitrary: e w x)
  case Nil
  then show ?case by (auto simp: io_ok flash_bytes_def fun_upd_idem)
next
  case (Cons p ps)
  let ?o = "unat (p_offset p)" and ?n = "unat (p_size p)"
  let ?pad = "replicate (?o - unat e) (0xFF :: u8)"
  obtain w1 w2 where pd: "flash_pad fm out e (p_offset p) w = (Inr (), w1)"
    and ins: "insert_image fm out (map_option im_outfile (flash_child images p)) (p_size p) (p_offset p) 0 0xFF False w1
      = (Inr (), w2)"
    and rest: "flash_parts fm images out ps (partition_end p) w2 = (Inr e', w')"
    using Cons.prems(1) by (auto simp: bind_io_ok)
  have nw: "no_wrap p" and nws: "\<forall>p \<in> set ps. no_wrap p" using Cons.prems(6) by simp_all
  note c = Cons.prems(7) [unfolded chain.simps]
  note ne = Cons.prems(5)
  have f1: "fs w1 = (fs w)(out \<mapsto> write_at (unat e) ?pad x)" by (rule flash_pad_ok [OF pd Cons.prems(2,3)])
  have wf1: "wf_fs w1" by (rule keeps_wf [OF Cons.prems(2) wf_flash_pad pd])
  obtain b1 where l1: "length b1 = ?n"
    and f2: "fs w2 = (fs w1)(out \<mapsto> write_at ?o b1 (write_at (unat e) ?pad x))"
    and b1: "\<forall>j < ?n. flash_byte (fs w1) images p j (b1 ! j)"
    using flash_insert_ok [OF ins wf1 _ nw Cons.prems(4) ne] f1 by auto
  have wf2: "wf_fs w2" by (rule keeps_wf [OF wf1 wff.keeps_insert_image ins])
  have pe: "unat (partition_end p) = ?o + ?n" by (rule unat_partition_end [OF nw])
  have x2: "write_at ?o b1 (write_at (unat e) ?pad x) = write_at (unat e) (?pad @ b1) x"
    using write_at_append [of "unat e" ?pad b1 x] c by simp
  have c': "chain (unat (partition_end p)) ps hi" using c pe by simp
  have fx: "fs w2 out = Some (write_at (unat e) (?pad @ b1) x)" using f2 x2 by simp
  obtain b2 where f': "fs w' = (fs w2)(out \<mapsto> write_at (unat (partition_end p)) b2 (write_at (unat e) (?pad @ b1) x))"
    and e': "unat e' = hi" and l2: "length b2 = hi - unat (partition_end p)" and wf': "wf_fs w'"
    and b2: "flash_bytes (fs w2) images ps (unat (partition_end p)) hi
      (write_at (unat (partition_end p)) b2 (write_at (unat e) (?pad @ b1) x))"
    using Cons.IH [OF rest wf2 fx Cons.prems(4) ne nws c'] by blast
  have x3: "write_at (unat (partition_end p)) b2 (write_at (unat e) (?pad @ b1) x) = write_at (unat e) (?pad @ b1 @ b2) x"
    using write_at_append [of "unat e" "?pad @ b1" b2 x] c l1 pe by simp
  have w1: "fs w1 = (fs w)(out := fs w1 out)" and w2: "fs w2 = (fs w)(out := fs w2 out)" using f1 f2 by simp_all
  show ?case
  proof (intro exI [of _ "?pad @ b1 @ b2"] conjI)
    show "fs w' = (fs w)(out \<mapsto> write_at (unat e) (?pad @ b1 @ b2) x)" using f' f2 f1 x3 by simp
    show "length (?pad @ b1 @ b2) = hi - unat e" using l1 l2 pe c chain_bounds [OF c'] by simp
    show "flash_bytes (fs w) images (p # ps) (unat e) hi (write_at (unat e) (?pad @ b1 @ b2) x)"
      using c l1 l2 nw b1 b2 unfolding flash_byte_cong [OF ne w1] flash_bytes_cong [OF ne w2] x3 unfolding pe
      by (intro flash_bytes_Cons) auto
  qed (rule e' wf')+
qed



section \<open>A flash image\<close>

text \<open>Two erase blocks of 16 bytes: the image \<open>''in''\<close> of 3 bytes in the first, the rest left over.\<close>

definition demo_flash :: flash_type where
  "demo_flash = \<lparr>ft_name = ''nand'', ft_pebsize = 16, ft_lebsize = 16, ft_numpebs = 2, ft_minimum_io_unit_size = 1,
     ft_vid_header_offset = 0, ft_sub_page_size = 1\<rparr>"

definition demo_flash_image :: image where
  "demo_flash_image = (demo_image ''fl'' 0)\<lparr>im_flash_type := Some demo_flash, im_outfile := ''out'',
     im_partitions := [(zero_partition 1)\<lparr>p_image := Some ''in'', p_size := 16\<rparr>, zero_partition 2]\<rparr>"

definition demo_flash_parts :: "partition list" where
  "demo_flash_parts = [(zero_partition 1)\<lparr>p_image := Some ''in'', p_size := 16\<rparr>,
     (zero_partition 2)\<lparr>p_offset := 16, p_size := 16\<rparr>]"

lemma demo_flash_setup:
  "flash_setup [demo_image ''in'' 3] demo_flash_image
    = Inr (demo_flash_image\<lparr>im_size := 32, im_partitions := demo_flash_parts\<rparr>)"
  by (simp add: flash_setup_def flash_setup_part_def flash_part_size_def flash_check_image_def flash_size_def
      flash_pebsize_def demo_flash_image_def demo_flash_def demo_image_def zero_partition_def demo_flash_parts_def Let_def)

lemma demo_flash_no_wrap: "\<forall>p \<in> set demo_flash_parts. no_wrap p"
  by (simp add: demo_flash_parts_def zero_partition_def no_wrap_def)

lemma flash_setup_layout_witness:
  "\<exists>im' ft. flash_setup [demo_image ''in'' 3] demo_flash_image = Inr im' \<and> im_flash_type demo_flash_image = Some ft \<and>
    sorted_wrt (\<lambda>p q. unat (p_offset p) + unat (p_size p) \<le> unat (p_offset q)) (im_partitions im')"
  using flash_setup_layout [OF demo_flash_setup] demo_flash_no_wrap demo_flash_setup by auto

lemma fiemap_whole: "fiemap_ok (\<lambda>_. [(0, 0x8000000000000000)])"
  by (simp add: fiemap_ok_def covers_def to_extents_def off_max_def)

lemma demo_flash_run:
  "fst (flash_generate (\<lambda>_. [(0, 0x8000000000000000)]) [demo_image ''in'' 3]
     (demo_flash_image\<lparr>im_size := 32, im_partitions := demo_flash_parts\<rparr>) (demo_world ''in'')) = Inr ()"
  by (simp add: flash_generate_def demo_flash_image_def demo_flash_parts_def zero_partition_def flash_pad_def
    prepare_image_def open_file_def is_block_device_def eval_io demo_world_def demo_src_def demo_image_def
    insert_image_def write_bytes_def write_bytes_st_def write_loop.simps flash_child_def partition_end_def
    map_file_extents_def to_extents_def clip_last_def copy_step_def copy_extent.simps resize_def write_at_def)




end
