(* ===== verification/HdTables.thy ===== *)
theory HdTables
  imports Image Crc32 Random32
begin

text \<open>
  The partition tables of \<^verbatim>\<open>image-hd.c\<close>: the bytes of the MBR, of the extended boot records and of the
  GPT, and the functions that write them. The packed structs are byte strings built from their fields.
\<close>

section \<open>The state of an hdimage\<close>

datatype table_type = TYPE_NONE | TYPE_MBR | TYPE_GPT | TYPE_HYBRID

text \<open>\<open>table_type & TYPE_MBR\<close> and \<open>table_type & TYPE_GPT\<close>.\<close>

fun has_mbr :: "table_type \<Rightarrow> bool" where
  "has_mbr t \<longleftrightarrow> t = TYPE_MBR \<or> t = TYPE_HYBRID"

fun has_gpt :: "table_type \<Rightarrow> bool" where
  "has_gpt t \<longleftrightarrow> t = TYPE_GPT \<or> t = TYPE_HYBRID"

record hdimage =
  hd_extended_partition_index :: u32
  hd_extended_partition :: "nat option"
  hd_align :: u64
  hd_disksig :: u32
  hd_disk_uuid :: string
  hd_table_type :: table_type
  hd_gpt_location :: u64
  hd_gpt_no_backup :: bool
  hd_fill :: bool
  hd_file_size :: u64

definition PARTITION_TYPE_EXTENDED :: u8 where "PARTITION_TYPE_EXTENDED = 0x0F"

definition GPT_ENTRIES :: nat where "GPT_ENTRIES = 128"

definition GPT_SECTORS :: u64 where "GPT_SECTORS = 33"

section \<open>MBR\<close>

definition lba_to_chs :: "u32 \<Rightarrow> bytes" where
  "lba_to_chs lba =
     (let hpc = 255; spt = 63;
          c = lba div (spt * hpc);
          s = (if lba > 0 then lba mod spt + 1 else 0)
      in [ucast ((lba div spt) mod hpc), ucast (drop_bit 2 (c AND 0x300) OR (s AND 0xff)), ucast (c AND 0xff)])"

record mbr_partition_entry =
  me_boot :: u8
  me_partition_type :: u8
  me_relative_sectors :: u32
  me_total_sectors :: u32

text \<open>The 16 bytes of an entry, with the two CHS addresses that \<open>hdimage_setup_chs\<close> derives.\<close>

definition hdimage_setup_chs :: "mbr_partition_entry \<Rightarrow> u64 \<Rightarrow> bytes \<times> bytes" where
  "hdimage_setup_chs e offset_sectors =
     (lba_to_chs (ucast (ucast (me_relative_sectors e) + offset_sectors)),
      lba_to_chs (ucast (ucast (me_relative_sectors e + me_total_sectors e - 1) + offset_sectors)))"

definition mbr_entry_bytes :: "mbr_partition_entry \<Rightarrow> u64 \<Rightarrow> bytes" where
  "mbr_entry_bytes e offset_sectors =
     (let (first_chs, last_chs) = hdimage_setup_chs e offset_sectors in
      [me_boot e] @ first_chs @ [me_partition_type e] @ last_chs
        @ le32 (me_relative_sectors e) @ le32 (me_total_sectors e))"

definition mbr_entry :: "partition \<Rightarrow> mbr_partition_entry" where
  "mbr_entry part =
     \<lparr>me_boot = (if p_bootable part then 0x80 else 0), me_partition_type = p_partition_type part,
      me_relative_sectors = ucast (p_offset part div 512), me_total_sectors = ucast (p_size part div 512)\<rparr>"

text \<open>The partitions that get an MBR entry.\<close>

definition in_mbr :: "hdimage \<Rightarrow> partition \<Rightarrow> bool" where
  "in_mbr h part \<longleftrightarrow> p_in_partition_table part \<and> \<not> p_logical part \<and>
     \<not> (hd_table_type h = TYPE_HYBRID \<and> p_partition_type part = 0)"

definition gpt_mbr_entry :: "hdimage \<Rightarrow> mbr_partition_entry" where
  "gpt_mbr_entry h = \<lparr>me_boot = 0, me_partition_type = 0xee, me_relative_sectors = 1,
     me_total_sectors = ucast (hd_gpt_location h div 512 + GPT_SECTORS - 2)\<rparr>"

definition mbr_entries :: "hdimage \<Rightarrow> partition list \<Rightarrow> mbr_partition_entry list" where
  "mbr_entries h parts = map mbr_entry (filter (in_mbr h) parts)
     @ (if hd_table_type h = TYPE_HYBRID then [gpt_mbr_entry h] else [])"

definition zeros :: "nat \<Rightarrow> bytes" where "zeros n = replicate n 0"

definition mbr_tail_bytes :: "hdimage \<Rightarrow> mbr_partition_entry list \<Rightarrow> bytes" where
  "mbr_tail_bytes h es =
     le32 (hd_disksig h) @ le16 0 @ concat (map (\<lambda>e. mbr_entry_bytes e 0) es)
       @ zeros (16 * (4 - length es)) @ le16 0xaa55"

text \<open>\<open>mbr.part_entry\<close> has 4 elements; a fifth is outside the struct.\<close>

definition hdimage_insert_mbr :: "string \<Rightarrow> hdimage \<Rightarrow> partition list \<Rightarrow> unit io" where
  "hdimage_insert_mbr outfile h parts =
     (let es = mbr_entries h parts in
      if length es > 4 then throw Undefined
      else insert_data outfile (mbr_tail_bytes h es) 440)"

section \<open>Extended boot records\<close>

text \<open>The next logical partition after \<open>part\<close> in the list of the image.\<close>

fun next_logical :: "nat \<Rightarrow> partition list \<Rightarrow> partition option" where
  "next_logical addr [] = None"
| "next_logical addr (p # ps) = (if p_addr p = addr then find p_logical ps else next_logical addr ps)"

definition ebr_entry :: "hdimage \<Rightarrow> partition \<Rightarrow> mbr_partition_entry" where
  "ebr_entry h part =
     \<lparr>me_boot = 0, me_partition_type = p_partition_type part,
      me_relative_sectors = ucast (hd_align h div 512), me_total_sectors = ucast (p_size part div 512)\<rparr>"

definition ebr_link :: "hdimage \<Rightarrow> u64 \<Rightarrow> partition \<Rightarrow> mbr_partition_entry" where
  "ebr_link h ext_offset p =
     \<lparr>me_boot = 0, me_partition_type = PARTITION_TYPE_EXTENDED,
      me_relative_sectors = ucast ((p_offset p - hd_align h - ext_offset) div 512),
      me_total_sectors = ucast ((p_size p + hd_align h) div 512)\<rparr>"

definition ebr_bytes :: "hdimage \<Rightarrow> u64 \<Rightarrow> partition \<Rightarrow> partition option \<Rightarrow> bytes" where
  "ebr_bytes h ext_offset part nxt =
     mbr_entry_bytes (ebr_entry h part) ((p_offset part - hd_align h) div 512)
       @ (case nxt of None \<Rightarrow> zeros 16
          | Some p \<Rightarrow> mbr_entry_bytes (ebr_link h ext_offset p) (ext_offset div 512))
       @ zeros 32 @ [0x55, 0xaa]"

text \<open>\<open>hd->extended_partition\<close> is read only for a next partition; NULL is not readable.\<close>

definition extended_offset :: "hdimage \<Rightarrow> partition list \<Rightarrow> u64 option" where
  "extended_offset h parts =
     (case hd_extended_partition h of None \<Rightarrow> None
      | Some a \<Rightarrow> map_option p_offset (find (\<lambda>p. p_addr p = a) parts))"

definition ebr_offset :: "hdimage \<Rightarrow> partition \<Rightarrow> u64" where
  "ebr_offset h part = p_offset part - hd_align h + 446"

definition hdimage_insert_ebr :: "string \<Rightarrow> hdimage \<Rightarrow> partition list \<Rightarrow> partition \<Rightarrow> unit io" where
  "hdimage_insert_ebr outfile h parts part =
     (case (next_logical (p_addr part) parts, extended_offset h parts) of
        (Some p, None) \<Rightarrow> throw Undefined
      | (Some p, Some ext) \<Rightarrow> insert_data outfile (ebr_bytes h ext part (Some p)) (ebr_offset h part)
      | (None, _) \<Rightarrow> insert_data outfile (ebr_bytes h 0 part None) (ebr_offset h part))"

section \<open>GPT\<close>

record gpt_header =
  gh_header_crc :: u32
  gh_current_lba :: u64
  gh_backup_lba :: u64
  gh_first_usable_lba :: u64
  gh_last_usable_lba :: u64
  gh_disk_uuid :: bytes
  gh_starting_lba :: u64
  gh_table_crc :: u32

definition GPT_REVISION_1_0 :: u32 where "GPT_REVISION_1_0 = 0x00010000"

definition str_bytes :: "string \<Rightarrow> bytes" where
  "str_bytes s = map of_char s"

text \<open>The 92 bytes of \<open>struct gpt_header\<close>.\<close>

definition gpt_header_bytes :: "gpt_header \<Rightarrow> bytes" where
  "gpt_header_bytes g =
     str_bytes ''EFI PART'' @ le32 GPT_REVISION_1_0 @ le32 92 @ le32 (gh_header_crc g) @ le32 0
       @ le64 (gh_current_lba g) @ le64 (gh_backup_lba g) @ le64 (gh_first_usable_lba g)
       @ le64 (gh_last_usable_lba g) @ gh_disk_uuid g @ le64 (gh_starting_lba g)
       @ le32 (word_of_nat GPT_ENTRIES) @ le32 128 @ le32 (gh_table_crc g)"

text \<open>\<open>header.header_crc\<close> is the CRC of the header with that field 0.\<close>

definition seal :: "gpt_header \<Rightarrow> gpt_header" where
  "seal g = g\<lparr>gh_header_crc := crc32 (gpt_header_bytes (g\<lparr>gh_header_crc := 0\<rparr>))\<rparr>"

definition gpt_flags :: "partition \<Rightarrow> u64" where
  "gpt_flags part =
     (if p_bootable part then push_bit 2 1 else 0) OR (if p_read_only part then push_bit 60 1 else 0)
     OR (if p_hidden part then push_bit 62 1 else 0) OR (if p_no_automount part then push_bit 63 1 else 0)"

text \<open>The name: at most 36 characters; a \<open>char\<close> is signed, so it is sign-extended to 16 bits.\<close>

definition gpt_name :: "string \<Rightarrow> bytes" where
  "gpt_name s =
     (let cs = take 36 s in concat (map (\<lambda>c. le16 (scast (of_char c :: u8))) cs) @ zeros (2 * (36 - length cs)))"

definition uuid_field :: "string option \<Rightarrow> bytes result" where
  "uuid_field u = (case u of None \<Rightarrow> Inl Undefined | Some s \<Rightarrow> uuid_parse s)"

text \<open>The 128 bytes of \<open>struct gpt_partition_entry\<close>.\<close>

definition gpt_entry :: "partition \<Rightarrow> bytes result" where
  "gpt_entry part =
     rbind (uuid_field (p_type_uuid part)) (\<lambda>ty. rbind (uuid_field (p_uuid part)) (\<lambda>id.
       Inr (ty @ id @ le64 (p_offset part div 512) @ le64 (partition_end part div 512 - 1)
              @ le64 (gpt_flags part) @ gpt_name (p_name part))))"

fun rmap :: "('a \<Rightarrow> 'b result) \<Rightarrow> 'a list \<Rightarrow> 'b list result" where
  "rmap f [] = Inr []"
| "rmap f (x # xs) = rbind (f x) (\<lambda>y. rbind (rmap f xs) (\<lambda>ys. Inr (y # ys)))"

text \<open>The table: 128 entries of 128 bytes. A 129th is outside the array.\<close>

definition gpt_table :: "partition list \<Rightarrow> bytes result" where
  "gpt_table parts =
     (let ps = filter p_in_partition_table parts in
      if length ps > GPT_ENTRIES then Inl Undefined
      else rbind (rmap gpt_entry ps) (\<lambda>es. Inr (concat es @ zeros (128 * (GPT_ENTRIES - length es)))))"

definition smallest_offset :: "partition list \<Rightarrow> u64" where
  "smallest_offset parts = foldl (\<lambda>s part. if p_in_partition_table part \<and> p_offset part < s then p_offset part else s)
     (- 1) parts"

fun is_prefix :: "string \<Rightarrow> string \<Rightarrow> bool" where
  "is_prefix [] s = True"
| "is_prefix (c # cs) [] = False"
| "is_prefix (c # cs) (d # ds) = (c = d \<and> is_prefix cs ds)"

text \<open>\<open>strstr(s, t) != NULL\<close>.\<close>

fun strstr :: "string \<Rightarrow> string \<Rightarrow> bool" where
  "strstr [] t = (t = [])"
| "strstr (c # cs) t = (is_prefix t (c # cs) \<or> strstr cs t)"

definition first_usable_offset :: "partition list \<Rightarrow> u64" where
  "first_usable_offset parts =
     foldl (\<lambda>f part. if p_in_partition_table part \<or> strstr (p_name part) ''GPT backup'' then f
                     else let e = partition_end part in
                       if e \<le> smallest_offset parts \<and> e > f then e else f) 0 parts"

definition fill_gpt_header :: "hdimage \<Rightarrow> u64 \<Rightarrow> partition list \<Rightarrow> bytes \<Rightarrow> bytes \<Rightarrow> gpt_header" where
  "fill_gpt_header h isize parts uuid table =
     \<lparr>gh_header_crc = 0, gh_current_lba = 1,
      gh_backup_lba = (if hd_gpt_no_backup h then 1 else isize div 512 - 1),
      gh_first_usable_lba = roundup (first_usable_offset parts) 512 div 512,
      gh_last_usable_lba = isize div 512 - 1 - GPT_SECTORS,
      gh_disk_uuid = uuid, gh_starting_lba = hd_gpt_location h div 512,
      gh_table_crc = crc32 table\<rparr>"

definition gpt_backup_header :: "u64 \<Rightarrow> gpt_header \<Rightarrow> gpt_header" where
  "gpt_backup_header isize g = g\<lparr>gh_current_lba := isize div 512 - 1, gh_backup_lba := 1,
     gh_starting_lba := isize div 512 - GPT_SECTORS\<rparr>"

definition protective_partition :: "u64 \<Rightarrow> partition" where
  "protective_partition isize = (zero_partition 0)\<lparr>p_offset := 512, p_size := isize - 512,
     p_in_partition_table := True, p_partition_type := 0xee\<rparr>"

definition hdimage_insert_protective_mbr :: "string \<Rightarrow> hdimage \<Rightarrow> u64 \<Rightarrow> unit io" where
  "hdimage_insert_protective_mbr outfile h isize = hdimage_insert_mbr outfile h [protective_partition isize]"

definition insert_backup :: "string \<Rightarrow> u64 \<Rightarrow> gpt_header \<Rightarrow> bytes \<Rightarrow> unit io" where
  "insert_backup outfile isize g table =
     bind_io (extend_file outfile isize) (\<lambda>_.
     bind_io (insert_data outfile table (isize - GPT_SECTORS * 512)) (\<lambda>_.
       insert_data outfile (gpt_header_bytes (seal (gpt_backup_header isize g))) (isize - 512)))"

definition hdimage_insert_gpt :: "string \<Rightarrow> hdimage \<Rightarrow> u64 \<Rightarrow> partition list \<Rightarrow> unit io" where
  "hdimage_insert_gpt outfile h isize parts =
     bind_io (lift_io (uuid_parse (hd_disk_uuid h))) (\<lambda>uuid.
     bind_io (lift_io (gpt_table parts)) (\<lambda>table.
       let g = fill_gpt_header h isize parts uuid table in
       bind_io (insert_data outfile (gpt_header_bytes (seal g)) 512) (\<lambda>_.
       bind_io (insert_data outfile table (hd_gpt_location h)) (\<lambda>_.
       bind_io (if hd_gpt_no_backup h then ret () else insert_backup outfile isize g table) (\<lambda>_.
         if hd_table_type h = TYPE_HYBRID then hdimage_insert_mbr outfile h parts
         else hdimage_insert_protective_mbr outfile h isize)))))"

end
