(* ===== verification/HdSetup.thy ===== *)
theory HdSetup
  imports HdTables GptTypes
begin

text \<open>
  \<open>hdimage_setup\<close> of \<^verbatim>\<open>image-hd.c\<close>: it chooses the table type, inserts the extended partition and the
  partitions that stand for the tables, places every partition, and computes the sizes of the image and
  of its file. Counters of partitions are natural numbers: a list has fewer than \<open>2 ^ 32\<close> elements.
\<close>

section \<open>Options\<close>

text \<open>
  The options of \<open>hdimage_opts\<close> as libconfuse returns them. \<open>None\<close> is NULL for a string, and an option
  that was not set (\<open>cfg_size\<close> 0) for the two deprecated switches.
\<close>

record hd_cfg =
  cf_align :: "string option"
  cf_disk_signature :: "string option"
  cf_disk_uuid :: "string option"
  cf_partition_table :: "bool option"
  cf_extended_partition :: u32
  cf_partition_table_type :: string
  cf_gpt :: "bool option"
  cf_gpt_location :: "string option"
  cf_gpt_no_backup :: bool
  cf_fill :: bool

fun parse_table_type :: "string \<Rightarrow> table_type result" where
  "parse_table_type s =
     (if s = ''none'' then Inr TYPE_NONE
      else if s = ''mbr'' \<or> s = ''dos'' then Inr TYPE_MBR
      else if s = ''gpt'' then Inr TYPE_GPT
      else if s = ''hybrid'' then Inr TYPE_HYBRID
      else Inl EINVAL)"

definition choose_table_type :: "hd_cfg \<Rightarrow> table_type result" where
  "choose_table_type cfg =
     rbind (parse_table_type (cf_partition_table_type cfg)) (\<lambda>t0.
       let t1 = (case cf_partition_table cfg of None \<Rightarrow> t0 | Some b \<Rightarrow> if b then TYPE_MBR else TYPE_NONE);
           t2 = (case cf_gpt cfg of None \<Rightarrow> t1 | Some b \<Rightarrow> if b then TYPE_GPT else TYPE_MBR)
       in Inr t2)"

definition choose_align :: "table_type \<Rightarrow> u64 \<Rightarrow> u64 result" where
  "choose_align t a0 =
     (let a = (if a0 = 0 then if t = TYPE_NONE then 1 else 512 else a0) in
      if t \<noteq> TYPE_NONE \<and> (a mod 512 \<noteq> 0 \<or> a = 0) then Inl EINVAL else Inr a)"

section \<open>Holes and overlap\<close>

text \<open>A partition whose image is not found is a NULL dereference.\<close>

definition image_has_hole_covering :: "image list \<Rightarrow> string option \<Rightarrow> u64 \<Rightarrow> u64 \<Rightarrow> bool result" where
  "image_has_hole_covering images im start e =
     (case im of None \<Rightarrow> Inr False
      | Some f \<Rightarrow> (case image_get images f of None \<Rightarrow> Inl Undefined
          | Some child \<Rightarrow> Inr (list_ex (\<lambda>x. ext_start x \<le> start \<and> e \<le> ext_end x) (im_holes child))))"

fun check_overlap :: "image list \<Rightarrow> partition \<Rightarrow> partition list \<Rightarrow> unit result" where
  "check_overlap images p [] = Inl EIO"
| "check_overlap images p (q # qs) =
     (if p_addr p = p_addr q then Inr ()
      else if p_offset p \<ge> partition_end q then check_overlap images p qs
      else if p_offset q \<ge> partition_end p then check_overlap images p qs
      else let start = max_ull (p_offset p) (p_offset q);
               e = min_ull (partition_end p) (p_offset q + p_size q) in
        rbind (image_has_hole_covering images (p_image q) (start - p_offset q) (e - p_offset q))
          (\<lambda>b. if b then check_overlap images p qs else Inl EINVAL))"

section \<open>The extended partition and the logical ones\<close>

definition fake_partition :: "nat \<Rightarrow> string \<Rightarrow> u64 \<Rightarrow> u64 \<Rightarrow> partition" where
  "fake_partition addr name offset sz =
     (zero_partition addr)\<lparr>p_name := name, p_named := True, p_offset := offset, p_size := sz, p_align := 1\<rparr>"

text \<open>An address that no partition of the list has.\<close>

definition fresh_addr :: "partition list \<Rightarrow> nat" where
  "fresh_addr parts = Suc (foldr (\<lambda>p m. max (p_addr p) m) parts 0)"

definition ensure_extended_partition_index :: "hdimage \<Rightarrow> partition list \<Rightarrow> u32" where
  "ensure_extended_partition_index h parts =
     (if hd_extended_partition_index h \<noteq> 0 then hd_extended_partition_index h
      else if length (filter p_in_partition_table parts) > 4 then 4 else 0)"

definition extended_partition :: "hdimage \<Rightarrow> nat \<Rightarrow> partition \<Rightarrow> partition" where
  "extended_partition h addr part =
     (fake_partition addr ''[Extended]'' (if p_offset part \<noteq> 0 then p_offset part - hd_align h else 0) 0)
       \<lparr>p_in_partition_table := True, p_partition_type := PARTITION_TYPE_EXTENDED, p_align := hd_align h\<rparr>"

text \<open>
  The loop of \<open>setup_logical_partitions\<close>, with its four local variables. \<open>idx\<close> is the index of the
  extended partition and \<open>addr\<close> the address it gets; it is inserted before the partition it replaces.
\<close>

fun logical_loop ::
  "hdimage \<Rightarrow> nat \<Rightarrow> nat \<Rightarrow> nat \<times> nat \<times> bool \<times> bool \<Rightarrow> partition list \<Rightarrow> partition list result" where
  "logical_loop h idx addr (count, entries, in_ext, found) [] = Inr []"
| "logical_loop h idx addr (count, entries, in_ext, found) (part # ps) =
     (if \<not> p_in_partition_table part then
        rbind (logical_loop h idx addr (count, entries, in_ext, found) ps) (\<lambda>r. Inr (part # r))
      else
        let count' = Suc count;
            here = (idx = count');
            new = (if here then [extended_partition h addr part] else []);
            found' = (found \<or> here);
            entries' = (if here then Suc entries else entries);
            in_ext' = (if p_forced_primary part then False else in_ext \<or> here);
            part' = (if in_ext' then part\<lparr>p_logical := True\<rparr> else part);
            entries'' = (if in_ext' then entries' else Suc entries')
        in if p_forced_primary part \<and> \<not> found' then Inl EINVAL
           else if \<not> p_forced_primary part \<and> \<not> in_ext' \<and> found' then Inl EINVAL
           else if entries'' > 4 then Inl EINVAL
           else rbind (logical_loop h idx addr (count', entries'', in_ext', found') ps)
                  (\<lambda>r. Inr (new @ part' # r)))"

text \<open>The handler's record and the list of partitions, with \<open>hd->extended_partition\<close> set if it was made.\<close>

definition setup_logical_partitions :: "hdimage \<Rightarrow> partition list \<Rightarrow> (hdimage \<times> partition list) result" where
  "setup_logical_partitions h parts =
     (if hd_extended_partition_index h > 4 then Inl EINVAL
      else if hd_table_type h \<noteq> TYPE_MBR then Inr (h, parts)
      else let idx = ensure_extended_partition_index h parts;
               h' = h\<lparr>hd_extended_partition_index := idx\<rparr>; addr = fresh_addr parts in
        if idx = 0 then Inr (h', parts)
        else rbind (logical_loop h' (unat idx) addr (0, 0, False, False) parts) (\<lambda>ps.
          Inr (if list_ex (\<lambda>p. p_addr p = addr) ps then h'\<lparr>hd_extended_partition := Some addr\<rparr> else h', ps)))"

section \<open>UUIDs and the disk signature\<close>

definition setup_uuid :: "hd_cfg \<Rightarrow> hdimage \<Rightarrow> rng \<Rightarrow> (hdimage \<times> rng) result" where
  "setup_uuid cfg h g =
     rbind (case cf_disk_uuid cfg of
              Some u \<Rightarrow> if \<not> has_gpt (hd_table_type h) then Inl EINVAL
                        else if \<not> uuid_validate u then Inl EINVAL else Inr (u, g)
            | None \<Rightarrow> Inr (uuid_random g)) (\<lambda>(uuid, g1).
     rbind (case cf_disk_signature cfg of
              None \<Rightarrow> Inr (0, g1)
            | Some s \<Rightarrow> if s = ''random'' then Inr (random32 g1)
                else if \<not> has_mbr (hd_table_type h) then Inl EINVAL
                else Inr (ucast (fst (strtoull 0 s)), g1)) (\<lambda>(sig, g2).
       Inr (h\<lparr>hd_disk_uuid := uuid, hd_disksig := sig\<rparr>, g2)))"

section \<open>Size of a partition\<close>

definition setup_part_autoresize :: "hdimage \<Rightarrow> u64 \<Rightarrow> partition \<Rightarrow> bool \<Rightarrow> (partition \<times> bool) result" where
  "setup_part_autoresize h isize part resized =
     (if \<not> p_autoresize part then Inr (part, resized)
      else if resized then Inl EINVAL
      else if isize = 0 then Inl EINVAL
      else let s0 = isize - p_offset part;
               s1 = (if has_gpt (hd_table_type h) then s0 - GPT_SECTORS * 512 else s0);
               s2 = rounddown s1 (p_align part) in
        if sint s2 \<le> 0 then Inl EINVAL
        else if sint s2 < sint (p_size part) then Inl EINVAL
        else Inr (part\<lparr>p_size := s2\<rparr>, True))"

text \<open>The partition and the new \<open>hd->file_size\<close>.\<close>

definition setup_part_image :: "image list \<Rightarrow> partition \<Rightarrow> u64 \<Rightarrow> (partition \<times> u64) result" where
  "setup_part_image images part file_size =
     (case p_image part of None \<Rightarrow> Inr (part, file_size)
      | Some f \<Rightarrow> (case image_get images f of None \<Rightarrow> Inl EINVAL
          | Some child \<Rightarrow>
              if im_size child \<noteq> 0 \<and> p_imageoffset part > im_size child then Inl E2BIG
              else let data_size = (if im_size child \<noteq> 0 then im_size child - p_imageoffset part else 0);
                       part' = (if p_size part \<noteq> 0 then part
                                else if p_in_partition_table part
                                then part\<lparr>p_size := roundup data_size (p_align part)\<rparr>
                                else part\<lparr>p_size := data_size\<rparr>) in
                if data_size > p_size part' then Inl EINVAL
                else Inr (part', if p_offset part' + data_size > file_size
                                 then p_offset part' + data_size else file_size)))"

section \<open>One partition of the main loop\<close>

definition part_defaults :: "hdimage \<Rightarrow> partition \<Rightarrow> partition" where
  "part_defaults h part =
     (let p1 = (if hd_table_type h = TYPE_NONE then part\<lparr>p_in_partition_table := False\<rparr> else part) in
      if p_align p1 = 0 then
        p1\<lparr>p_align := if p_in_partition_table p1 \<or> hd_table_type h = TYPE_NONE then hd_align h else 1\<rparr>
      else p1)"

definition check_part_options :: "hdimage \<Rightarrow> partition \<Rightarrow> unit result" where
  "check_part_options h part =
     (if p_type_uuid part \<noteq> None \<and> \<not> has_gpt (hd_table_type h) then Inl EINVAL
      else if p_uuid part \<noteq> None \<and> \<not> has_gpt (hd_table_type h) then Inl EINVAL
      else if p_partition_type part \<noteq> 0 \<and> \<not> has_mbr (hd_table_type h) then Inl EINVAL
      else Inr ())"

text \<open>The type and the UUID of a GPT entry; also the count of hybrid entries and the generator.\<close>

definition resolve_type :: "(string \<times> string) list \<Rightarrow> string option \<Rightarrow> string result" where
  "resolve_type shortcuts ty0 =
     (let ty = (case ty0 of None \<Rightarrow> ''L'' | Some s \<Rightarrow> s) in
      rbind (if ty \<noteq> [] \<and> \<not> uuid_validate ty then
               (case gpt_partition_type_lookup shortcuts ty of None \<Rightarrow> Inl EINVAL | Some u \<Rightarrow> Inr u)
             else Inr ty)
        (\<lambda>u. if uuid_validate u then Inr u else Inl EINVAL))"

definition setup_part_uuids ::
  "(string \<times> string) list \<Rightarrow> hdimage \<Rightarrow> partition \<Rightarrow> nat \<Rightarrow> rng \<Rightarrow> (partition \<times> nat \<times> rng) result" where
  "setup_part_uuids shortcuts h part hybrid g =
     (if has_gpt (hd_table_type h) \<and> p_in_partition_table part then
        rbind (resolve_type shortcuts (p_type_uuid part)) (\<lambda>ty.
        rbind (case p_uuid part of Some u \<Rightarrow> if uuid_validate u then Inr (u, g) else Inl EINVAL
                 | None \<Rightarrow> Inr (uuid_random g)) (\<lambda>(u, g').
          Inr (part\<lparr>p_type_uuid := Some ty, p_uuid := Some u\<rparr>,
               if p_partition_type part \<noteq> 0 then Suc hybrid else hybrid, g')))
      else Inr (part, hybrid, g))"

text \<open>Where a partition goes: its offset and the new \<open>now\<close>. \<open>backup\<close> is the address of the GPT backup.\<close>

definition place_part :: "hdimage \<Rightarrow> nat option \<Rightarrow> partition \<Rightarrow> u64 \<Rightarrow> partition \<times> u64" where
  "place_part h backup part now =
     (let now1 = (if p_logical part then roundup (now + hd_align h) (p_align part) else now);
          (p1, now2) = (if backup = Some (p_addr part) \<and> p_offset part = 0
                        then (part\<lparr>p_offset := roundup (now1 + p_size part) 4096 - p_size part\<rparr>,
                              now1 + p_size part)
                        else (part, now1));
          p2 = (if p_offset p1 = 0 \<and> (p_in_partition_table p1 \<or> hd_table_type h = TYPE_NONE)
                then p1\<lparr>p_offset := roundup now2 (p_align p1)\<rparr> else p1)
      in (p2, now2))"

record hd_state =
  st_file_size :: u64
  st_now :: u64
  st_hybrid :: nat
  st_resized :: bool
  st_rng :: rng

text \<open>
  The checks at the end of an iteration; \<open>pre\<close> and \<open>post\<close> are the partitions before and after this one
  in the list.
\<close>

definition check_part :: "image list \<Rightarrow> hdimage \<Rightarrow> partition list \<Rightarrow> partition list \<Rightarrow> partition \<Rightarrow> u64 \<Rightarrow> unit result" where
  "check_part images h pre post part now =
     (if p_size part = 0 \<and> hd_extended_partition h \<noteq> Some (p_addr part) then Inl EINVAL
      else rbind (if \<not> p_logical part then check_overlap images part (pre @ part # post)
                  else if now > p_offset part then Inl EINVAL else Inr ())
             (\<lambda>_. if p_in_partition_table part \<and> p_size part mod 512 \<noteq> 0 then Inl EINVAL else Inr ()))"

definition advance :: "hdimage \<Rightarrow> partition \<Rightarrow> hd_state \<Rightarrow> hd_state" where
  "advance h part st =
     (let st1 = (if partition_end part > st_now st then st\<lparr>st_now := partition_end part\<rparr> else st);
          fs = p_offset part - hd_align h + 512 in
      if p_logical part \<and> fs > st_file_size st1 then st1\<lparr>st_file_size := fs\<rparr> else st1)"

text \<open>The environment of the loop: the images, the configured shortcuts, the image size, the backup.\<close>

record hd_env =
  ev_images :: "image list"
  ev_shortcuts :: "(string \<times> string) list"
  ev_size :: u64
  ev_backup :: "nat option"

definition setup_part ::
  "hd_env \<Rightarrow> hdimage \<Rightarrow> partition list \<Rightarrow> partition list \<Rightarrow> partition \<Rightarrow> hd_state \<Rightarrow> (partition \<times> hd_state) result" where
  "setup_part ev h pre post part0 st =
     (let part1 = part_defaults h part0 in
      rbind (check_part_options h part1) (\<lambda>_.
      rbind (setup_part_uuids (ev_shortcuts ev) h part1 (st_hybrid st) (st_rng st)) (\<lambda>(part2, hybrid, g).
      let (part3, now) = place_part h (ev_backup ev) part2 (st_now st) in
      if p_offset part3 mod p_align part3 \<noteq> 0 then Inl EINVAL
      else rbind (setup_part_autoresize h (ev_size ev) part3 (st_resized st)) (\<lambda>(part4, resized).
      rbind (setup_part_image (ev_images ev) part4 (st_file_size st)) (\<lambda>(part5, file_size).
      rbind (check_part (ev_images ev) h pre post part5 now) (\<lambda>_.
        Inr (part5, advance h part5 \<lparr>st_file_size = file_size, st_now = now, st_hybrid = hybrid,
                                       st_resized = resized, st_rng = g\<rparr>)))))))"

text \<open>After a logical partition the extended one, which stands before it, is made to end at \<open>now\<close>.\<close>

definition grow_extended :: "hdimage \<Rightarrow> partition \<Rightarrow> u64 \<Rightarrow> partition list \<Rightarrow> partition list result" where
  "grow_extended h part now parts =
     (if \<not> p_logical part then Inr parts
      else (case hd_extended_partition h of None \<Rightarrow> Inl Undefined
        | Some a \<Rightarrow> Inr (map (\<lambda>q. if p_addr q = a then q\<lparr>p_size := now - p_offset q\<rparr> else q) parts)))"

fun setup_loop ::
  "hd_env \<Rightarrow> hdimage \<Rightarrow> partition list \<Rightarrow> partition list \<Rightarrow> hd_state \<Rightarrow> (partition list \<times> hd_state) result" where
  "setup_loop ev h pre [] st = Inr (pre, st)"
| "setup_loop ev h pre (part # post) st =
     rbind (setup_part ev h pre post part st) (\<lambda>(part', st').
     rbind (grow_extended h part' (st_now st') (pre @ [part'])) (\<lambda>pre'.
       setup_loop ev h pre' post st'))"

section \<open>hdimage_setup\<close>

text \<open>
  The partitions that stand for the tables, appended to the list; the first free byte after them; and
  the address of the backup.
\<close>

definition table_partitions :: "hdimage \<Rightarrow> u64 \<Rightarrow> nat \<Rightarrow> partition list \<times> u64 \<times> nat option" where
  "table_partitions h isize addr =
     (if hd_table_type h = TYPE_NONE then ([], 0, None)
      else let mbr = fake_partition addr ''[MBR]'' 440 72 in
        if \<not> has_gpt (hd_table_type h) then ([mbr], partition_end mbr, None)
        else let hdr = fake_partition (addr + 1) ''[GPT header]'' 512 512;
                 arr = fake_partition (addr + 2) ''[GPT array]'' (hd_gpt_location h) ((GPT_SECTORS - 1) * 512);
                 bsize = GPT_SECTORS * 512;
                 boff = (if isize \<noteq> 0 then isize - bsize else 0);
                 bak = fake_partition (addr + 3) ''[GPT backup]'' boff bsize
             in ([mbr, hdr, arr, bak], partition_end arr, Some (addr + 3)))"

text \<open>The checks after the loop, and the final sizes of the image and of the file.\<close>

definition finish_setup :: "hdimage \<Rightarrow> u64 \<Rightarrow> hd_state \<Rightarrow> (hdimage \<times> u64) result" where
  "finish_setup h isize st =
     (if st_hybrid st > 3 then Inl EINVAL
      else if hd_table_type h = TYPE_HYBRID \<and> st_hybrid st = 0 then Inl EINVAL
      else if isize > 0 \<and> st_now st > isize then Inl EINVAL
      else let isize' = (if isize = 0 then st_now st else isize);
               fs = (if hd_fill h \<or> has_gpt (hd_table_type h) \<and> \<not> hd_gpt_no_backup h
                     then isize' else st_file_size st)
           in Inr (h\<lparr>hd_file_size := fs\<rparr>, isize'))"

text \<open>
  Everything between the size of a block device and the loop; \<open>a0\<close> and \<open>loc\<close> are the values of the
  options align and gpt-location.
\<close>

definition start_setup :: "hd_cfg \<Rightarrow> u64 \<Rightarrow> u64 \<Rightarrow> partition list \<Rightarrow> rng \<Rightarrow>
   (hdimage \<times> partition list \<times> rng) result" where
  "start_setup cfg a0 loc parts g =
     rbind (choose_table_type cfg) (\<lambda>t.
     rbind (choose_align t a0) (\<lambda>a.
     rbind (setup_logical_partitions
              \<lparr>hd_extended_partition_index = cf_extended_partition cfg, hd_extended_partition = None,
               hd_align = a, hd_disksig = 0, hd_disk_uuid = [], hd_table_type = t,
               hd_gpt_location = loc, hd_gpt_no_backup = cf_gpt_no_backup cfg, hd_fill = cf_fill cfg,
               hd_file_size = 0\<rparr> parts) (\<lambda>(h1, parts1).
     rbind (setup_uuid cfg h1 g) (\<lambda>(h2, g1).
       Inr (if hd_gpt_location h2 = 0 then h2\<lparr>hd_gpt_location := 2 * 512\<rparr> else h2, parts1, g1)))))"

definition setup_layout ::
  "image list \<Rightarrow> (string \<times> string) list \<Rightarrow> hd_cfg \<Rightarrow> u64 \<Rightarrow> u64 \<Rightarrow> u64 \<Rightarrow> partition list \<Rightarrow> rng \<Rightarrow>
   (hdimage \<times> u64 \<times> partition list \<times> rng) result" where
  "setup_layout images shortcuts cfg a0 loc isize parts g =
     rbind (start_setup cfg a0 loc parts g) (\<lambda>(h, parts1, g1).
     let (fakes, now, backup) = table_partitions h isize (fresh_addr parts1) in
     rbind (setup_loop \<lparr>ev_images = images, ev_shortcuts = shortcuts, ev_size = isize, ev_backup = backup\<rparr> h
              [] (parts1 @ fakes)
              \<lparr>st_file_size = now, st_now = now, st_hybrid = 0, st_resized = False, st_rng = g1\<rparr>) (\<lambda>(parts2, st).
     rbind (finish_setup h isize st) (\<lambda>(h', isize'). Inr (h', isize', parts2, st_rng st))))"

definition hdimage_setup ::
  "image list \<Rightarrow> (string \<times> string) list \<Rightarrow> hd_cfg \<Rightarrow> image \<Rightarrow> rng \<Rightarrow> (hdimage \<times> image \<times> rng) io" where
  "hdimage_setup images shortcuts cfg im g =
     bind_io (lift_io (cfg_getint_suffix (cf_align cfg))) (\<lambda>a0.
     bind_io (lift_io (cfg_getint_suffix (cf_gpt_location cfg))) (\<lambda>loc.
     bind_io (is_block_device (im_outfile im)) (\<lambda>blk.
     bind_io (if \<not> blk then ret (im_size im)
              else if im_size im \<noteq> 0 then throw EINVAL else block_device_size (im_outfile im)) (\<lambda>isize.
     bind_io (lift_io (setup_layout images shortcuts cfg a0 loc isize (im_partitions im) g))
       (\<lambda>(h, isize', parts, g'). ret (h, im\<lparr>im_size := isize', im_partitions := parts\<rparr>, g'))))))"

end
