(* ===== verification/HdGenerate.thy ===== *)
theory HdGenerate
  imports HdSetup
begin

text \<open>
  \<open>hdimage_generate\<close> of \<^verbatim>\<open>image-hd.c\<close>: it writes the images of the partitions in their order, the boot
  records of the logical ones, and then the tables.
\<close>

text \<open>One iteration of its loop. \<open>fm\<close> is the kernel's extent map, a parameter.\<close>

definition insert_child :: "fiemap \<Rightarrow> image list \<Rightarrow> string \<Rightarrow> partition \<Rightarrow> unit io" where
  "insert_child fm images outfile part =
     (case p_image part of None \<Rightarrow> ret ()
      | Some f \<Rightarrow> (case image_get images f of None \<Rightarrow> throw Undefined
          | Some child \<Rightarrow>
              if im_size child = 0 \<and> \<not> p_fill part then ret ()
              else if p_imageoffset part > im_size child then throw E2BIG
              else let data_size = im_size child - p_imageoffset part in
                if data_size > p_size part then throw E2BIG
                else insert_image fm outfile (Some (im_outfile child)) (if p_fill part then p_size part else data_size)
                       (p_offset part) (p_imageoffset part) 0 (p_sparse part)))"

definition generate_part :: "fiemap \<Rightarrow> image list \<Rightarrow> string \<Rightarrow> hdimage \<Rightarrow> partition list \<Rightarrow> partition \<Rightarrow> unit io" where
  "generate_part fm images outfile h parts part =
     bind_io (if p_logical part then hdimage_insert_ebr outfile h parts part else ret ())
       (\<lambda>_. insert_child fm images outfile part)"

fun for_each :: "('a \<Rightarrow> unit io) \<Rightarrow> 'a list \<Rightarrow> unit io" where
  "for_each f [] = ret ()"
| "for_each f (x # xs) = bind_io (f x) (\<lambda>_. for_each f xs)"

definition insert_tables :: "string \<Rightarrow> hdimage \<Rightarrow> u64 \<Rightarrow> partition list \<Rightarrow> unit io" where
  "insert_tables outfile h isize parts =
     (if hd_table_type h = TYPE_NONE then ret ()
      else if has_gpt (hd_table_type h) then hdimage_insert_gpt outfile h isize parts
      else hdimage_insert_mbr outfile h parts)"

definition check_file_size :: "string \<Rightarrow> hdimage \<Rightarrow> unit io" where
  "check_file_size outfile h =
     bind_io (is_block_device outfile) (\<lambda>blk.
       if blk then ret ()
       else bind_io (sys_stat outfile) (\<lambda>s.
         if hd_file_size h \<noteq> word_of_nat (fsize s) then throw EINVAL else ret ()))"

definition hdimage_generate :: "fiemap \<Rightarrow> image list \<Rightarrow> hdimage \<Rightarrow> image \<Rightarrow> unit io" where
  "hdimage_generate fm images h im =
     (let outfile = im_outfile im; parts = im_partitions im in
      bind_io (prepare_image fm outfile (hd_file_size h)) (\<lambda>_.
      bind_io (for_each (generate_part fm images outfile h parts) parts) (\<lambda>_.
      bind_io (insert_tables outfile h (im_size im) parts) (\<lambda>_.
      bind_io (if hd_fill h then extend_file outfile (im_size im) else ret ()) (\<lambda>_.
      bind_io (check_file_size outfile h) (\<lambda>_.
        if hd_table_type h \<noteq> TYPE_NONE then reload_partitions outfile else ret ()))))))"

end
