(* ===== verification/Tools.thy ===== *)
theory Tools
  imports Genimage GptTypes
begin

text \<open>
  The handlers that call a tool to make a file system or an archive: \<^verbatim>\<open>image-cpio.c\<close>, \<^verbatim>\<open>image-cramfs.c\<close>,
  \<^verbatim>\<open>image-tar.c\<close>, \<^verbatim>\<open>image-iso.c\<close>, \<^verbatim>\<open>image-jffs2.c\<close>, \<^verbatim>\<open>image-f2fs.c\<close>, \<^verbatim>\<open>image-btrfs.c\<close>, \<^verbatim>\<open>image-ubifs.c\<close>,
  \<^verbatim>\<open>image-erofs.c\<close>, \<^verbatim>\<open>image-squashfs.c\<close>, \<^verbatim>\<open>image-custom.c\<close>, \<^verbatim>\<open>image-ext2.c\<close> and \<^verbatim>\<open>image-vfat.c\<close>. A
  generate function returns its image, whose size some of them change.
\<close>

section \<open>Arguments of the commands\<close>

text \<open>An option of a section; there is none without a section. \<open>%s\<close> prints a NULL pointer as \<open>(null)\<close>.\<close>

definition sec_str :: "cfg option \<Rightarrow> string \<Rightarrow> string option" where
  "sec_str sec n = Option.bind sec (\<lambda>c. cfg_getstr c n)"

definition sec_bool :: "cfg option \<Rightarrow> string \<Rightarrow> bool" where
  "sec_bool sec n = (case sec of None \<Rightarrow> False | Some c \<Rightarrow> cfg_getbool c n)"

definition sec_strs :: "cfg option \<Rightarrow> string \<Rightarrow> string list" where
  "sec_strs sec n = (case sec of None \<Rightarrow> [] | Some c \<Rightarrow> cfg_strs c n)"

definition sec_secs :: "cfg option \<Rightarrow> string \<Rightarrow> cfg list" where
  "sec_secs sec n = (case sec of None \<Rightarrow> [] | Some c \<Rightarrow> cfg_secs c n)"

definition cstr :: "string option \<Rightarrow> string" where
  "cstr s = (case s of None \<Rightarrow> ''(null)'' | Some t \<Rightarrow> t)"

definition sec_arg :: "cfg option \<Rightarrow> string \<Rightarrow> string" where
  "sec_arg sec n = cstr (sec_str sec n)"

text \<open>\<open>get_opt\<close> as an argument: the program of a tool.\<close>

definition tool :: "config list \<Rightarrow> string \<Rightarrow> string" where
  "tool opts n = cstr (get_opt n opts)"

text \<open>\<open>%d\<close>.\<close>

definition sdec :: "int \<Rightarrow> string" where
  "sdec i = (if i < 0 then CHR ''-'' # dec (nat (- i)) else dec (nat i))"

text \<open>\<open>strstr\<close> and \<open>strncmp\<close> as predicates.\<close>

definition starts_with :: "string \<Rightarrow> string \<Rightarrow> bool" where
  "starts_with pre s \<longleftrightarrow> take (length pre) s = pre"

fun strstr :: "string \<Rightarrow> string \<Rightarrow> bool" where
  "strstr [] pat \<longleftrightarrow> pat = []"
| "strstr (c # cs) pat \<longleftrightarrow> starts_with pat (c # cs) \<or> strstr cs pat"

text \<open>An option that is left out when it is not given or empty.\<close>

definition if_given :: "string option \<Rightarrow> (string \<Rightarrow> string) \<Rightarrow> string" where
  "if_given s f = (case s of None \<Rightarrow> [] | Some t \<Rightarrow> f t)"

definition non_empty :: "string option \<Rightarrow> string option" where
  "non_empty s = (if s = Some [] then None else s)"

text \<open>The source directory, quoted, unless the image is empty.\<close>

definition with_mountpath :: "'p genv \<Rightarrow> string \<Rightarrow> string \<Rightarrow> (string \<Rightarrow> 'a io) \<Rightarrow> 'a io" where
  "with_mountpath e pre post f =
     (if im_empty (g_image e) then f [] else bind_io (lift_io (g_mountpath e)) (\<lambda>mp. f (pre @ mp @ post)))"

text \<open>Run a command and return the image as it is.\<close>

definition run_tool :: "shell \<Rightarrow> image \<Rightarrow> string list \<Rightarrow> image io" where
  "run_tool sh im cmd = bind_io (systemp sh (concat cmd)) (\<lambda>_. ret im)"

section \<open>cpio, cramfs, tar and iso\<close>

definition cpio_generate :: "config list \<Rightarrow> shell \<Rightarrow> 'p genv \<Rightarrow> image io" where
  "cpio_generate opts sh e =
     (let compr = sec_arg (g_sec e) ''compress'' in
      bind_io (lift_io (g_mountpath e)) (\<lambda>mp.
        run_tool sh (g_image e)
          [''(cd '', single_quoted mp, '' && find . | '', tool opts ''cpio'', '' -H '',
           single_quoted (sec_arg (g_sec e) ''format''), '' '', sec_arg (g_sec e) ''extraargs'', '' -o '',
           if compr \<noteq> [] then ''|'' else [], '' '', compr, '') > '', single_quoted (im_outfile (g_image e))]))"

definition cram_generate :: "config list \<Rightarrow> shell \<Rightarrow> 'p genv \<Rightarrow> image io" where
  "cram_generate opts sh e =
     bind_io (lift_io (g_mountpath e)) (\<lambda>mp.
       run_tool sh (g_image e)
         [tool opts ''mkcramfs'', if im_name (g_image e) \<noteq> None then '' -n '' else [],
          if_given (im_name (g_image e)) (\<lambda>n. n), '' '', sec_arg (g_sec e) ''extraargs'', '' '', single_quoted mp,
          '' '', single_quoted (im_outfile (g_image e))])"

definition tar_comp :: "string \<Rightarrow> string" where
  "tar_comp f = (if strstr f ''.tar.bz2'' then ''j'' else if strstr f ''.tar.gz'' \<or> strstr f ''tgz'' then ''z'' else ''a'')"

definition tar_generate :: "config list \<Rightarrow> shell \<Rightarrow> 'p genv \<Rightarrow> image io" where
  "tar_generate opts sh e =
     bind_io (lift_io (g_mountpath e)) (\<lambda>mp.
       run_tool sh (g_image e)
         [tool opts ''tar'', '' c'', tar_comp (im_file (g_image e)), '' -f '', single_quoted (im_outfile (g_image e)),
          '' -C '', single_quoted mp, '' .''])"

definition iso_generate :: "config list \<Rightarrow> shell \<Rightarrow> 'p genv \<Rightarrow> image io" where
  "iso_generate opts sh e =
     (let boot = if_given (sec_str (g_sec e) ''boot-image'')
            (\<lambda>b. ''-b '' @ single_quoted b @ '' '' @ sec_arg (g_sec e) ''bootargs'') in
      bind_io (lift_io (g_mountpath e)) (\<lambda>mp.
        run_tool sh (g_image e)
          [tool opts ''genisoimage'', '' -input-charset '', sec_arg (g_sec e) ''input-charset'', '' -R -hide-rr-moved '',
           boot, '' -V '', single_quoted (sec_arg (g_sec e) ''volume-id''), '' '', sec_arg (g_sec e) ''extraargs'',
           '' -o '', single_quoted (im_outfile (g_image e)), '' '', single_quoted mp]))"

section \<open>jffs2 and ubifs\<close>

definition jffs2_setup :: "image \<Rightarrow> unit result" where
  "jffs2_setup im = ensure (im_flash_type im \<noteq> None) EINVAL"

definition jffs2_generate :: "config list \<Rightarrow> shell \<Rightarrow> 'p genv \<Rightarrow> image io" where
  "jffs2_generate opts sh e =
     (case im_flash_type (g_image e) of None \<Rightarrow> throw Undefined
      | Some ft \<Rightarrow> with_mountpath e (''-d '' @ [CHR 0x27]) [CHR 0x27] (\<lambda>dir.
          run_tool sh (g_image e)
            [tool opts ''mkfsjffs2'', '' --eraseblock='', sdec (sint (ft_pebsize ft)), '' '', dir, '' -o '',
             single_quoted (im_outfile (g_image e)), '' '', sec_arg (g_sec e) ''extraargs'']))"

definition ubifs_setup :: "image \<Rightarrow> unit result" where
  "ubifs_setup im =
     (case im_flash_type im of None \<Rightarrow> Inl EINVAL | Some ft \<Rightarrow> ensure (\<not> sint (ft_lebsize ft) \<le> 0) EINVAL)"

text \<open>The quotient is one of 64 bits, and then an \<open>int\<close>.\<close>

definition ubifs_max_leb_cnt :: "u64 \<Rightarrow> u64 \<Rightarrow> u32 \<Rightarrow> int" where
  "ubifs_max_leb_cnt max_size isize lebsize =
     sint (ucast ((if max_size \<noteq> 0 then max_size else isize) div scast lebsize) :: u32)"

definition ubifs_generate :: "config list \<Rightarrow> shell \<Rightarrow> 'p genv \<Rightarrow> image io" where
  "ubifs_generate opts sh e =
     (case im_flash_type (g_image e) of None \<Rightarrow> throw Undefined
      | Some ft \<Rightarrow>
        bind_io (lift_io (cfg_getint_suffix (sec_str (g_sec e) ''max-size''))) (\<lambda>max_size.
        with_mountpath e (''-d '' @ [CHR 0x27]) [CHR 0x27] (\<lambda>dir.
          run_tool sh (g_image e)
            [tool opts ''mkfsubifs'', '' '', dir, '' '', if sec_bool (g_sec e) ''space-fixup'' then ''-F'' else [],
             '' -e '', sdec (sint (ft_lebsize ft)), '' -m '', sdec (sint (ft_minimum_io_unit_size ft)), '' -c '',
             sdec (ubifs_max_leb_cnt max_size (im_size (g_image e)) (ft_lebsize ft)), '' -o '',
             single_quoted (im_outfile (g_image e)), '' '', sec_arg (g_sec e) ''extraargs''])))"

section \<open>f2fs and btrfs\<close>

definition f2fs_generate :: "config list \<Rightarrow> shell \<Rightarrow> fiemap \<Rightarrow> 'p genv \<Rightarrow> image io" where
  "f2fs_generate opts sh fm e =
     (let im = g_image e; label = sec_str (g_sec e) ''label'' in
      bind_io (prepare_image fm (im_outfile im) (im_size im)) (\<lambda>_.
      bind_io (systemp sh (concat [tool opts ''mkfsf2fs'', '' '', if label \<noteq> None then ''-l'' else [], '' '',
        if_given label single_quoted, '' '', sec_arg (g_sec e) ''extraargs'', '' '', single_quoted (im_outfile im)])) (\<lambda>_.
      if im_empty im then ret im
      else bind_io (lift_io (g_mountpath e)) (\<lambda>mp.
        run_tool sh im [tool opts ''sloadf2fs'', '' -f '', single_quoted mp, '' '', single_quoted (im_outfile im)]))))"

text \<open>
  \<open>btrfs_generate\<close>: \<open>stat\<close> fails with -1. An empty image is not measured.
\<close>

definition btrfs_generate :: "config list \<Rightarrow> shell \<Rightarrow> fiemap \<Rightarrow> 'p genv \<Rightarrow> image io" where
  "btrfs_generate opts sh fm e =
     (let im = g_image e; label = sec_str (g_sec e) ''label'' in
      bind_io (prepare_image fm (im_outfile im) (im_size im)) (\<lambda>_.
      with_mountpath e [CHR 0x27] [CHR 0x27] (\<lambda>dir.
      bind_io (systemp sh (concat [tool opts ''mkfsbtrfs'', '' '', if label \<noteq> None then ''-L'' else [], '' '',
        if_given label (\<lambda>l. l), '' '', if im_empty im then [] else ''-r'', '' '', dir, '' '',
        sec_arg (g_sec e) ''extraargs'', '' '', single_quoted (im_outfile im)])) (\<lambda>_.
      if im_empty im then ret im
      else try_io (sys_stat (im_outfile im)) (\<lambda>r.
        case r of Inl _ \<Rightarrow> throw (Errno 1)
        | Inr st \<Rightarrow>
            if im_size im \<noteq> 0 \<and> im_size im \<noteq> word_of_nat (fsize st) then throw E2BIG
            else ret (if im_size im = 0 then im\<lparr>im_size := word_of_nat (fsize st)\<rparr> else im))))))"

section \<open>erofs and squashfs\<close>

text \<open>The private data of \<open>erofs\<close> is the label.\<close>

definition erofs_setup :: "cfg option \<Rightarrow> string option result" where
  "erofs_setup sec =
     (let label = non_empty (sec_str sec ''label'') in
      case label of Some l \<Rightarrow> if length l > 15 then Inl EINVAL else Inr label | None \<Rightarrow> Inr label)"

definition erofs_generate :: "config list \<Rightarrow> shell \<Rightarrow> string option \<Rightarrow> 'p genv \<Rightarrow> image io" where
  "erofs_generate opts sh label e =
     (let ts = sec_str (g_sec e) ''fs-timestamp'' in
      bind_io (lift_io (g_mountpath e)) (\<lambda>mp.
        run_tool sh (g_image e)
          [tool opts ''mkfserofs'', '' '', if_given label (\<lambda>l. ''-L '' @ single_quoted l), '' '',
           if_given ts (\<lambda>t. ''-T '' @ t), '' '', sec_arg (g_sec e) ''extraargs'', '' '',
           single_quoted (im_outfile (g_image e)), '' '', single_quoted mp]))"

text \<open>The compression options; \<open>snprintf\<close> keeps 127 characters.\<close>

definition squash_compression :: "string \<Rightarrow> string" where
  "squash_compression compr =
     (if strcasecmp_eq compr ''none''
      then ''-comp gzip -noInodeCompression -noDataCompression -noFragmentCompression -noXattrCompression''
      else take 127 (''-comp '' @ compr))"

text \<open>The size of a file that a tool made becomes that of the image, if it is not larger.\<close>

definition take_size :: "image \<Rightarrow> image io" where
  "take_size im = bind_io (sys_stat (im_outfile im)) (\<lambda>st.
     if im_size im \<noteq> 0 \<and> word_of_nat (fsize st) > im_size im then throw E2BIG
     else ret (im\<lparr>im_size := word_of_nat (fsize st)\<rparr>))"

definition squash_generate :: "config list \<Rightarrow> shell \<Rightarrow> 'p genv \<Rightarrow> image io" where
  "squash_generate opts sh e =
     bind_io (lift_io (cfg_getint_suffix (sec_str (g_sec e) ''block-size''))) (\<lambda>block_size.
     bind_io (lift_io (g_mountpath e)) (\<lambda>mp.
     bind_io (systemp sh (concat
       [tool opts ''mksquashfs'', '' '', single_quoted mp, '' '', single_quoted (im_outfile (g_image e)), '' -b '',
        dec (unat (ucast block_size :: u32)), '' -noappend '', squash_compression (sec_arg (g_sec e) ''compression''),
        '' '', sec_arg (g_sec e) ''extraargs''])) (\<lambda>_.
       take_size (g_image e))))"

section \<open>custom\<close>

definition custom_parse :: "image \<Rightarrow> image" where
  "custom_parse im = (if non_empty (im_mountpoint im) = None then im\<lparr>im_empty := True\<rparr> else im)"

definition custom_setup :: "cfg option \<Rightarrow> string result" where
  "custom_setup sec = (case sec_str sec ''exec'' of None \<Rightarrow> Inl EINVAL | Some c \<Rightarrow> Inr c)"

text \<open>A positive result of \<open>prepare_image\<close> is no error here; it has none.\<close>

definition custom_generate :: "shell \<Rightarrow> fiemap \<Rightarrow> string \<Rightarrow> 'p genv \<Rightarrow> image io" where
  "custom_generate sh fm exec e =
     (let im = g_image e in
      bind_io (prepare_image fm (im_outfile im) (im_size im)) (\<lambda>_.
      bind_io (systemp sh exec) (\<lambda>_.
      bind_io (sys_stat (im_outfile im)) (\<lambda>st.
        ret (if im_size im = 0 then im\<lparr>im_size := word_of_nat (fsize st)\<rparr> else im)))))"

section \<open>ext2, ext3 and ext4\<close>

record ext =
  use_mke2fs :: bool
  ext_features :: "string option"
  usage_type_args :: string
  conf_env :: string
  size_features :: string

definition mb :: u64 where "mb = 1024 * 1024"

text \<open>The features without \<open>mke2fs\<close>, by the type of the handler.\<close>

definition default_features :: "string \<Rightarrow> string option" where
  "default_features t =
     (if t = ''ext3'' then Some ''has_journal''
      else if t = ''ext4'' then Some ''extents,uninit_bg,dir_index,has_journal'' else None)"

definition ext_size_features :: "u64 \<Rightarrow> string" where
  "ext_size_features sz =
     (if sz \<ge> 4 * 1024 * mb then [] else '' -O '' @ single_quoted ''^large_file'') @
     (if sz \<ge> 2048 * 1024 * mb then [] else '' -O '' @ single_quoted ''^huge_file'')"

definition ext2_setup :: "image \<Rightarrow> cfg option \<Rightarrow> ext io" where
  "ext2_setup im sec =
     (let conf = (case sec_str sec ''mke2fs-conf'' of None \<Rightarrow> sec_str sec ''mke2fs_conf'' | Some c \<Rightarrow> Some c);
          usage = sec_str sec ''usage-type'';
          mke2fs = sec_bool sec ''use-mke2fs'';
          feat = sec_str sec ''features'';
          features = (if feat = None \<and> \<not> mke2fs then default_features (im_handler im) else feat) in
      if im_size im = 0 then throw EINVAL
      else if mke2fs then
        bind_io (case conf of None \<Rightarrow> ret [] | Some c \<Rightarrow>
          bind_io (sys_stat c) (\<lambda>_. ret (''MKE2FS_CONFIG='' @ quoted c @ '' ''))) (\<lambda>env.
        ret \<lparr>use_mke2fs = True, ext_features = features,
             usage_type_args = if_given usage (\<lambda>u. '' -T '' @ single_quoted u),
             conf_env = env, size_features = ext_size_features (im_size im)\<rparr>)
      else if conf \<noteq> None \<or> usage \<noteq> None then throw EINVAL
      else ret \<lparr>use_mke2fs = False, ext_features = features, usage_type_args = [], conf_env = [], size_features = []\<rparr>)"

text \<open>\<open>size / 1024\<close> is printed with \<open>%lld\<close>; it is below \<open>2 ^ 54\<close>.\<close>

definition ext2_generate_genext2fs :: "config list \<Rightarrow> shell \<Rightarrow> ext \<Rightarrow> 'p genv \<Rightarrow> unit io" where
  "ext2_generate_genext2fs opts sh ex e =
     (let im = g_image e; out = single_quoted (im_outfile im) in
      with_mountpath e (''-d '' @ [CHR 0x27]) [CHR 0x27] (\<lambda>dir.
      bind_io (systemp sh (concat [tool opts ''genext2fs'', '' '', dir, '' --size-in-blocks='',
        dec (unat (im_size im div 1024)), '' -i 16384 '', out, '' '', sec_arg (g_sec e) ''extraargs''])) (\<lambda>_.
      bind_io (case non_empty (ext_features ex) of None \<Rightarrow> ret ()
        | Some f \<Rightarrow> systemp sh (concat [tool opts ''tune2fs'', '' -O '', single_quoted f, '' '', out])) (\<lambda>_.
      (case non_empty (sec_str (g_sec e) ''label'') of None \<Rightarrow> ret ()
        | Some l \<Rightarrow> systemp sh (concat [tool opts ''tune2fs'', '' -L '', single_quoted l, '' '', out]))))))"

definition ext2_generate_mke2fs :: "config list \<Rightarrow> shell \<Rightarrow> fiemap \<Rightarrow> ext \<Rightarrow> 'p genv \<Rightarrow> unit io" where
  "ext2_generate_mke2fs opts sh fm ex e =
     (let im = g_image e in
      bind_io (prepare_image fm (im_outfile im) (im_size im)) (\<lambda>_.
      with_mountpath e (''-d '' @ [CHR 0x27]) [CHR 0x27] (\<lambda>dir.
        systemp sh (concat [conf_env ex, tool opts ''mke2fs'', '' -t '', im_handler im, usage_type_args ex,
          '' -I 256 -E '', single_quoted (''root_owner='' @ sec_arg (g_sec e) ''root-owner'' @
            '',lazy_itable_init=0,lazy_journal_init=0''), size_features ex, '' '', dir, '' '',
          sec_arg (g_sec e) ''extraargs'', '' '',
          if_given (non_empty (sec_str (g_sec e) ''label'')) (\<lambda>l. ''-L '' @ single_quoted l), '' '',
          if_given (non_empty (ext_features ex)) (\<lambda>f. ''-O '' @ single_quoted f), '' '',
          single_quoted (im_outfile im), '' '', dec (unat (im_size im div 1024)), ''k'']))))"

text \<open>An exit status of \<open>e2fsck\<close> up to 2, and every failure to run it, is no error.\<close>

definition e2fsck :: "config list \<Rightarrow> shell \<Rightarrow> string \<Rightarrow> unit io" where
  "e2fsck opts sh out = try_io (systemp sh (concat [tool opts ''e2fsck'', '' -pvfD '', single_quoted out]))
     (\<lambda>r. case r of Inl x \<Rightarrow> if ret_code x > 2 then throw x else ret () | Inr _ \<Rightarrow> ret ())"

definition nl :: char where "nl = char_of (10 :: nat)"

definition ext2_generate :: "config list \<Rightarrow> shell \<Rightarrow> fiemap \<Rightarrow> ext \<Rightarrow> 'p genv \<Rightarrow> image io" where
  "ext2_generate opts sh fm ex e =
     (let im = g_image e in
      bind_io (if use_mke2fs ex then ext2_generate_mke2fs opts sh fm ex e else ext2_generate_genext2fs opts sh ex e) (\<lambda>_.
      bind_io (e2fsck opts sh (im_outfile im)) (\<lambda>_.
      (case sec_str (g_sec e) ''fs-timestamp'' of None \<Rightarrow> ret im
       | Some ts \<Rightarrow> run_tool sh im
           [''echo '', single_quoted (concat [''set_current_time '', ts, [nl], ''set_super_value mkfs_time '', ts, [nl],
              ''set_super_value lastcheck '', ts, [nl], ''set_super_value mtime 00000000'']), '' | '',
            tool opts ''debugfs'', '' -w '', single_quoted (im_outfile im)]))))"

section \<open>vfat\<close>

definition vfat_parse :: "image \<Rightarrow> cfg option \<Rightarrow> image" where
  "vfat_parse im sec =
     fold (\<lambda>f. add_partition (file_part (Some []) (Some f))) (sec_strs sec ''files'')
       (fold (\<lambda>c. add_partition (file_part (Some (cfg_title c)) (cfg_getstr c ''image''))) (sec_secs sec ''file'') im)"

definition vfat_setup :: "image \<Rightarrow> cfg option \<Rightarrow> unit result" where
  "vfat_setup im sec =
     (if im_size im = 0 then Inl EINVAL
      else case sec_str sec ''label'' of Some l \<Rightarrow> ensure (\<not> length l > 11) EINVAL | None \<Rightarrow> Inr ())"

text \<open>The image of a partition, which must exist.\<close>

definition get_child :: "image list \<Rightarrow> partition \<Rightarrow> image io" where
  "get_child ims part = (case Option.bind (p_image part) (image_get ims) of None \<Rightarrow> throw Undefined | Some c \<Rightarrow> ret c)"

text \<open>The directories of a path: what comes before each of its slashes.\<close>

fun parents_of :: "string \<Rightarrow> string \<Rightarrow> string list" where
  "parents_of pre [] = []"
| "parents_of pre (c # cs) = (if c = CHR ''/'' then [pre] else []) @ parents_of (pre @ [c]) cs"

fun mmd_all :: "config list \<Rightarrow> shell \<Rightarrow> string \<Rightarrow> string list \<Rightarrow> unit io" where
  "mmd_all opts sh out [] = ret ()"
| "mmd_all opts sh out (p # ps) =
     try_io (systemp sh (concat [''MTOOLS_SKIP_CHECK=1 '', tool opts ''mmd'', '' -DsS -i '', out, '' '',
       single_quoted (''::'' @ p)])) (\<lambda>_. mmd_all opts sh out ps)"

fun vfat_copy :: "config list \<Rightarrow> shell \<Rightarrow> image list \<Rightarrow> string \<Rightarrow> partition list \<Rightarrow> unit io" where
  "vfat_copy opts sh ims out [] = ret ()"
| "vfat_copy opts sh ims out (part # parts) =
     bind_io (get_child ims part) (\<lambda>child.
     bind_io (mmd_all opts sh out (parents_of [] (p_name part))) (\<lambda>_.
     bind_io (systemp sh (concat [''MTOOLS_SKIP_CHECK=1 '', tool opts ''mcopy'', '' -sp -i '', single_quoted out, '' '',
       single_quoted (im_outfile child), '' '', single_quoted (''::'' @ p_name part)])) (\<lambda>_.
     vfat_copy opts sh ims out parts)))"

definition vfat_generate :: "config list \<Rightarrow> shell \<Rightarrow> fiemap \<Rightarrow> 'p genv \<Rightarrow> image io" where
  "vfat_generate opts sh fm e =
     (let im = g_image e; out = im_outfile im in
      bind_io (prepare_image fm out (im_size im)) (\<lambda>_.
      bind_io (systemp sh (concat [tool opts ''mkdosfs'', '' '', sec_arg (g_sec e) ''extraargs'', '' '',
        if_given (non_empty (sec_str (g_sec e) ''label'')) (\<lambda>l. ''-n '' @ single_quoted l), '' '', single_quoted out])) (\<lambda>_.
      bind_io (vfat_copy opts sh (g_images e) out (im_partitions im)) (\<lambda>_.
      if im_partitions im \<noteq> [] \<or> im_empty im then ret im
      else bind_io (lift_io (g_mountpath e)) (\<lambda>mp.
        run_tool sh im [''MTOOLS_SKIP_CHECK=1 '', tool opts ''mcopy'', '' -sp -i '', single_quoted out, '' '',
          single_quoted mp, ''/* ::''])))))"

end
