(* ===== verification/Bundles.thy ===== *)
theory Bundles
  imports Tools HdTables
begin

text \<open>
  The handlers that hand other images to a tool: \<^verbatim>\<open>image-qemu.c\<close>, \<^verbatim>\<open>image-ubi.c\<close>, \<^verbatim>\<open>image-fit.c\<close>,
  \<^verbatim>\<open>image-fip.c\<close> and \<^verbatim>\<open>image-rauc.c\<close>. The images are those of the partitions, which \<open>fit\<close>, \<open>fip\<close> and \<open>rauc\<close> add
  when they parse their sections.
\<close>

section \<open>qemu\<close>

definition qemu_setup :: "image \<Rightarrow> cfg option \<Rightarrow> (string \<times> string) result" where
  "qemu_setup im sec =
     (if list_all (\<lambda>p. p_image p = None) (im_partitions im) then Inl EINVAL
      else Inr (sec_arg sec ''format'', sec_arg sec ''extraargs''))"

text \<open>The quoted files of the images of the partitions, with blanks between them.\<close>

fun qemu_files :: "image list \<Rightarrow> partition list \<Rightarrow> string option \<Rightarrow> string option io" where
  "qemu_files ims [] acc = ret acc"
| "qemu_files ims (part # parts) acc =
     (if p_image part = None then qemu_files ims parts acc
      else bind_io (get_child ims part) (\<lambda>child.
        qemu_files ims parts (Some (if_given acc (\<lambda>a. a @ '' '') @ single_quoted (im_outfile child)))))"

definition qemu_generate :: "shell \<Rightarrow> string \<times> string \<Rightarrow> 'p genv \<Rightarrow> image io" where
  "qemu_generate sh = (\<lambda>(fmt, extraargs) e.
     bind_io (qemu_files (g_images e) (im_partitions (g_image e)) None) (\<lambda>fls.
       run_tool sh (g_image e) [''qemu-img convert '', extraargs, '' -O '', fmt, '' '', cstr fls, '' '',
         single_quoted (im_outfile (g_image e))]))"

section \<open>ubi\<close>

definition ubi_setup :: "image \<Rightarrow> unit result" where
  "ubi_setup im =
     (if im_flash_type im = None then Inl EINVAL
      else ensure (\<not> length (filter p_autoresize (im_partitions im)) > 1) EINVAL)"

text \<open>The lines of one volume.\<close>

definition ubi_volume :: "image option \<Rightarrow> u64 \<Rightarrow> nat \<Rightarrow> partition \<Rightarrow> string list" where
  "ubi_volume child sz i part =
     [''['' @ p_name part @ '']'', ''mode=ubi''] @
     (case child of None \<Rightarrow> [] | Some c \<Rightarrow> [''image='' @ im_outfile c]) @
     [''vol_id='' @ dec i, ''vol_size='' @ sdec (sint sz),
      ''vol_type='' @ (if p_read_only part then ''static'' else ''dynamic''), ''vol_name='' @ p_name part] @
     (if p_autoresize part then [''vol_flags=autoresize''] else []) @
     [''vol_alignment=1'']"

fun put_lines :: "string \<Rightarrow> string list \<Rightarrow> unit io" where
  "put_lines path [] = ret ()"
| "put_lines path (l # ls) = bind_io (sys_append path (str_bytes (l @ [nl]))) (\<lambda>_. put_lines path ls)"

text \<open>A volume without a size has that of its image.\<close>

fun ubi_volumes :: "image list \<Rightarrow> string \<Rightarrow> nat \<Rightarrow> partition list \<Rightarrow> unit io" where
  "ubi_volumes ims ini i [] = ret ()"
| "ubi_volumes ims ini i (part # parts) =
     (let child = Option.bind (p_image part) (image_get ims) in
      bind_io (lift_io (if p_size part \<noteq> 0 then Inr (p_size part)
        else case child of None \<Rightarrow> Inl EINVAL | Some c \<Rightarrow> Inr (im_size c))) (\<lambda>sz.
      bind_io (put_lines ini (ubi_volume child sz i part)) (\<lambda>_.
      ubi_volumes ims ini (Suc i) parts)))"

definition ubi_generate :: "config list \<Rightarrow> shell \<Rightarrow> 'p genv \<Rightarrow> image io" where
  "ubi_generate opts sh e =
     (let im = g_image e; ini = g_tmp e @ ''/ubi.ini'' in
      bind_io (sys_open_w ini True True) (\<lambda>_.
      bind_io (ubi_volumes (g_images e) ini 0 (im_partitions im)) (\<lambda>_.
      case im_flash_type im of None \<Rightarrow> throw Undefined
      | Some ft \<Rightarrow>
          run_tool sh im
            [tool opts ''ubinize'', '' -s '', sdec (sint (ft_sub_page_size ft)), '' -O '', sdec (sint (ft_vid_header_offset ft)),
             '' -p '', sdec (sint (ft_pebsize ft)), '' -m '', sdec (sint (ft_minimum_io_unit_size ft)), '' -o '',
             single_quoted (im_outfile im), '' '', single_quoted ini, '' '', sec_arg (g_sec e) ''extraargs''])))"

section \<open>fit\<close>

definition fit_parse :: "image \<Rightarrow> cfg option \<Rightarrow> image" where
  "fit_parse im sec = add_partition (file_part (Some ''its'') (sec_str sec ''its'')) im"

definition partition_by_name :: "image \<Rightarrow> string \<Rightarrow> partition option" where
  "partition_by_name im n = find (\<lambda>p. p_name p = n) (im_partitions im)"

text \<open>The line that includes the image of a partition.\<close>

definition fit_incbin :: "partition \<Rightarrow> image \<Rightarrow> string" where
  "fit_incbin part child =
     ''/ { images { '' @ p_name part @ '' { data = /incbin/('' @ quoted (im_outfile child) @ ''); };};};''"

fun fit_incbins :: "image list \<Rightarrow> string \<Rightarrow> nat \<Rightarrow> partition list \<Rightarrow> unit io" where
  "fit_incbins ims path its [] = ret ()"
| "fit_incbins ims path its (part # parts) =
     bind_io (get_child ims part) (\<lambda>child.
     bind_io (if p_addr part = its then ret () else sys_append path (str_bytes (fit_incbin part child @ [nl]))) (\<lambda>_.
     fit_incbins ims path its parts))"

definition fit_generate :: "config list \<Rightarrow> shell \<Rightarrow> 'p genv \<Rightarrow> image io" where
  "fit_generate opts sh e =
     (let im = g_image e; path = g_tmp e @ ''/fit.its'' in
      case partition_by_name im ''its'' of None \<Rightarrow> throw EINVAL
      | Some its \<Rightarrow>
        bind_io (get_child (g_images e) its) (\<lambda>itsimg.
        bind_io (systemp sh (concat [''cat '', single_quoted (im_outfile itsimg), '' > '', single_quoted path])) (\<lambda>_.
        bind_io (sys_open_w path False False) (\<lambda>_.
        bind_io (sys_append path (str_bytes [nl])) (\<lambda>_.
        bind_io (fit_incbins (g_images e) path (p_addr its) (im_partitions im)) (\<lambda>_.
        bind_io (case non_empty (sec_str (g_sec e) ''keydir'') of None \<Rightarrow> ret []
          | Some k \<Rightarrow> if hd k \<noteq> CHR ''/'' then throw EINVAL else ret (''-k '' @ single_quoted k)) (\<lambda>keyopt.
        run_tool sh im [tool opts ''mkimage'', '' -r '', keyopt, '' -f '', single_quoted path, '' '',
          single_quoted (im_outfile im)])))))))"

section \<open>fip\<close>

text \<open>The options of \<open>fip_opts\<close> that are passed as they are, in their order.\<close>

definition fip_opts :: "string list" where
  "fip_opts =
     [''scp-fwu-cfg'', ''ap-fwu-cfg'', ''fwu'', ''fwu-cert'', ''tb-fw'', ''scp-fw'', ''soc-fw'', ''nt-fw'', ''fw-config'',
      ''hw-config'', ''tb-fw-config'', ''soc-fw-config'', ''tos-fw-config'', ''nt-fw-config'', ''rot-cert'',
      ''trusted-key-cert'', ''scp-fw-key-cert'', ''soc-fw-key-cert'', ''tos-fw-key-cert'', ''nt-fw-key-cert'',
      ''tb-fw-cert'', ''scp-fw-cert'', ''soc-fw-cert'', ''tos-fw-cert'', ''nt-fw-cert'', ''sip-sp-cert'', ''plat-sp-cert'']"

definition tos_fw :: "string list" where
  "tos_fw = [''tos-fw'', ''tos-fw-extra1'', ''tos-fw-extra2'']"

definition fip_add_part :: "string \<Rightarrow> string \<Rightarrow> image \<Rightarrow> image" where
  "fip_add_part n path = add_partition (file_part (Some n) (Some path))"

definition fip_parse :: "image \<Rightarrow> cfg option \<Rightarrow> image result" where
  "fip_parse im sec =
     (let tos = sec_strs sec ''tos-fw'' in
      if length tos > length tos_fw then Inl EINVAL
      else Inr (fold (\<lambda>n im. case sec_str sec n of None \<Rightarrow> im | Some f \<Rightarrow> fip_add_part n f im) fip_opts
                 (fold (\<lambda>(n, f). fip_add_part n f) (zip tos_fw tos) im)))"

fun fip_args :: "image list \<Rightarrow> partition list \<Rightarrow> string \<Rightarrow> string io" where
  "fip_args ims [] acc = ret acc"
| "fip_args ims (part # parts) acc =
     bind_io (get_child ims part) (\<lambda>child.
       fip_args ims parts (acc @ '' --'' @ p_name part @ '' '' @ single_quoted (im_outfile child)))"

text \<open>\<open>stat\<close> fails with -1.\<close>

definition fip_generate :: "config list \<Rightarrow> shell \<Rightarrow> 'p genv \<Rightarrow> image io" where
  "fip_generate opts sh e =
     (let im = g_image e in
      bind_io (fip_args (g_images e) (im_partitions im) []) (\<lambda>args.
      bind_io (systemp sh (concat [tool opts ''fiptool'', '' create '', args, '' '', sec_arg (g_sec e) ''extraargs'', '' '',
        single_quoted (im_outfile im)])) (\<lambda>_.
      try_io (sys_stat (im_outfile im)) (\<lambda>r.
        case r of Inl _ \<Rightarrow> throw (Errno 1) | Inr st \<Rightarrow> ret (im\<lparr>im_size := word_of_nat (fsize st)\<rparr>)))))"

section \<open>rauc\<close>

definition RAUC_CONTENT :: u8 where "RAUC_CONTENT = 0"
definition RAUC_KEY :: u8 where "RAUC_KEY = 1"
definition RAUC_CERT :: u8 where "RAUC_CERT = 2"
definition RAUC_KEYRING :: u8 where "RAUC_KEYRING = 3"
definition RAUC_INTERMEDIATE :: u8 where "RAUC_INTERMEDIATE = 4"

definition pkcs11_prefix :: string where "pkcs11_prefix = ''pkcs11:''"

text \<open>A partition of a kind; one that is a PKCS#11 URI is left out.\<close>

definition rauc_part :: "u8 \<Rightarrow> string \<Rightarrow> image \<Rightarrow> image" where
  "rauc_part kind f = add_partition (\<lambda>p. (file_part None (Some f) p)\<lparr>p_partition_type := kind\<rparr>)"

definition rauc_part_unless :: "u8 \<Rightarrow> string \<Rightarrow> image \<Rightarrow> image" where
  "rauc_part_unless kind f im = (if starts_with pkcs11_prefix f then im else rauc_part kind f im)"

definition rauc_file :: "cfg \<Rightarrow> image \<Rightarrow> image result" where
  "rauc_file c im =
     rbind (cfg_getint_suffix (cfg_getstr c ''offset'')) (\<lambda>off.
       Inr (add_partition (\<lambda>p. (file_part (Some (cfg_title c)) (cfg_getstr c ''image'') p)
         \<lparr>p_imageoffset := off, p_partition_type := RAUC_CONTENT\<rparr>) im))"

fun rauc_files :: "cfg list \<Rightarrow> image \<Rightarrow> image result" where
  "rauc_files [] im = Inr im"
| "rauc_files (c # cs) im = rbind (rauc_file c im) (rauc_files cs)"

definition rauc_parse :: "image \<Rightarrow> cfg option \<Rightarrow> image result" where
  "rauc_parse im sec =
     (case sec_str sec ''key'' of None \<Rightarrow> Inl EINVAL
      | Some key \<Rightarrow>
        (case sec_str sec ''cert'' of None \<Rightarrow> Inl EINVAL
         | Some cert \<Rightarrow>
           let im1 = rauc_part_unless RAUC_CERT cert (rauc_part_unless RAUC_KEY key im);
               im2 = (case sec_str sec ''keyring'' of None \<Rightarrow> im1 | Some k \<Rightarrow> rauc_part RAUC_KEYRING k im1);
               im3 = fold (rauc_part_unless RAUC_INTERMEDIATE) (sec_strs sec ''intermediate'') im2 in
           rbind (rauc_files (sec_secs sec ''file'') im3) (\<lambda>im4.
             Inr (fold (rauc_part RAUC_CONTENT) (sec_strs sec ''files'') im4))))"

definition rauc_setup :: "cfg option \<Rightarrow> unit result" where
  "rauc_setup sec = ensure (sec_str sec ''manifest'' \<noteq> None) EINVAL"

text \<open>The arguments that the loop over the partitions collects.\<close>

record rauc_args =
  ra_cert :: "string option"
  ra_key :: "string option"
  ra_keyring :: "string option"
  ra_intermediate :: string

definition rauc_arg :: "u8 \<Rightarrow> string \<Rightarrow> rauc_args \<Rightarrow> rauc_args" where
  "rauc_arg kind f a =
     (if kind = RAUC_CERT then a\<lparr>ra_cert := Some f\<rparr>
      else if kind = RAUC_KEY then a\<lparr>ra_key := Some f\<rparr>
      else if kind = RAUC_KEYRING then a\<lparr>ra_keyring := Some f\<rparr>
      else if kind = RAUC_INTERMEDIATE then a\<lparr>ra_intermediate := ra_intermediate a @ '' --intermediate='' @ single_quoted f\<rparr>
      else a)"

text \<open>The part of a path before its last slash, and the part after it.\<close>

definition dir_part :: "string \<Rightarrow> string option" where
  "dir_part path = (case parents_of [] path of [] \<Rightarrow> None | ps \<Rightarrow> Some (last ps))"

definition base_part :: "string \<Rightarrow> string" where
  "base_part path = (case dir_part path of None \<Rightarrow> path | Some d \<Rightarrow> drop (Suc (length d)) path)"

text \<open>The copy of one file of the bundle.\<close>

definition rauc_content :: "shell \<Rightarrow> string \<Rightarrow> image \<Rightarrow> partition \<Rightarrow> unit io" where
  "rauc_content sh tmpdir child part =
     (let target = (if p_named part then p_name part else base_part (im_file child));
          tmptarget = tmpdir @ ''/'' @ target; file' = im_outfile child in
      bind_io (case dir_part target of None \<Rightarrow> ret ()
        | Some d \<Rightarrow> systemp sh (''mkdir -p '' @ single_quoted (tmpdir @ ''/'' @ d))) (\<lambda>_.
      if p_imageoffset part \<noteq> 0 then
        try_io (sys_unlink tmptarget) (\<lambda>_.
          systemp sh (concat [''dd if='', single_quoted file', '' of='', single_quoted tmptarget, '' iflag=skip_bytes skip='',
            sdec (sint (p_imageoffset part))]))
      else systemp sh (concat [''cp --remove-destination '', single_quoted file', '' '', single_quoted tmptarget])))"

fun rauc_loop :: "shell \<Rightarrow> image list \<Rightarrow> string \<Rightarrow> partition list \<Rightarrow> rauc_args \<Rightarrow> rauc_args io" where
  "rauc_loop sh ims tmpdir [] a = ret a"
| "rauc_loop sh ims tmpdir (part # parts) a =
     bind_io (get_child ims part) (\<lambda>child.
     bind_io (if p_partition_type part = RAUC_CONTENT then rauc_content sh tmpdir child part else ret ()) (\<lambda>_.
     rauc_loop sh ims tmpdir parts (rauc_arg (p_partition_type part) (im_outfile child) a)))"

definition rauc_generate :: "config list \<Rightarrow> shell \<Rightarrow> 'p genv \<Rightarrow> image io" where
  "rauc_generate opts sh e =
     (let im = g_image e; sec = g_sec e; out = single_quoted (im_outfile im);
          tmpdir = g_tmp e @ ''/rauc-'' @ sanitize_path (im_file im);
          uris = filter (starts_with pkcs11_prefix) (sec_strs sec ''intermediate'');
          a0 = \<lparr>ra_cert = sec_str sec ''cert'', ra_key = sec_str sec ''key'', ra_keyring = sec_str sec ''keyring'',
                ra_intermediate = concat (map (\<lambda>u. '' --intermediate='' @ single_quoted u) uris)\<rparr> in
      bind_io (systemp sh (''mkdir -p '' @ single_quoted tmpdir)) (\<lambda>_.
      case sec_str sec ''manifest'' of None \<Rightarrow> throw Undefined
      | Some manifest \<Rightarrow>
        bind_io (insert_data (tmpdir @ ''/manifest.raucm'') (str_bytes manifest) 0) (\<lambda>_.
        bind_io (rauc_loop sh (g_images e) tmpdir (im_partitions im) a0) (\<lambda>a.
        try_io (systemp sh (''rm -f '' @ out)) (\<lambda>_.
        run_tool sh im
          [tool opts ''rauc'', '' bundle '', single_quoted tmpdir, '' --cert='', single_quoted (cstr (ra_cert a)),
           '' --key='', single_quoted (cstr (ra_key a)), '' '',
           if_given (ra_keyring a) (\<lambda>k. ''--keyring='' @ single_quoted k), '' '', ra_intermediate a, '' '',
           sec_arg sec ''extraargs'', '' '', out])))))"

end
