(* ===== verification/Verity.thy ===== *)
theory Verity
  imports Bundles
begin

text \<open>
  dm-verity images and their signatures, \<^verbatim>\<open>image-verity.c\<close>. The signature is a JSON file put together from
  three text files that tools have made.
\<close>

section \<open>Reading text files\<close>

definition file_text :: "inode \<Rightarrow> string" where
  "file_text x = map (\<lambda>i. char_of (unat (fdata x i))) [0..<fsize x]"

text \<open>\<open>fopen\<close> and the reads are one call of the script.\<close>

definition read_text :: "string \<Rightarrow> string io" where
  "read_text path = syscall (with_file path (\<lambda>x. ret (file_text x)))"

text \<open>\<open>fgets\<close> with a buffer of 128 bytes: up to 127 characters, the newline included; NULL at the end.\<close>

fun take_line :: "nat \<Rightarrow> string \<Rightarrow> string \<times> string" where
  "take_line 0 s = ([], s)"
| "take_line (Suc k) [] = ([], [])"
| "take_line (Suc k) (c # cs) = (if c = nl then ([c], cs) else (case take_line k cs of (l, r) \<Rightarrow> (c # l, r)))"

definition fgets :: "string \<Rightarrow> (string \<times> string) option" where
  "fgets s = (if s = [] then None else Some (take_line 127 s))"

text \<open>A buffer as a C string.\<close>

definition until_nul :: "string \<Rightarrow> string" where
  "until_nul s = takeWhile (\<lambda>c. c \<noteq> CHR 0x00) s"

lemma take_line_length: "length (snd (take_line k s)) \<le> length s"
  by (induction k s rule: take_line.induct) (auto split: prod.splits)

lemma fgets_shorter: "fgets s = Some (l, r) \<Longrightarrow> length r < length s"
proof -
  assume a: "fgets s = Some (l, r)"
  then obtain c cs where s: "s = c # cs" by (cases s) (auto simp: fgets_def)
  have "take_line (Suc 126) (c # cs) = (l, r)" using a by (simp add: fgets_def s)
  then have "(if c = nl then ([c], cs) else (case take_line 126 cs of (l, r) \<Rightarrow> (c # l, r))) = (l, r)"
    unfolding take_line.simps .
  then show ?thesis using take_line_length [of 126 cs] by (auto simp: s split: if_splits prod.splits)
qed

section \<open>The JSON file\<close>

text \<open>Each part is what is written and whether it went well; what was written before an error stays.\<close>

definition json_rh :: "string \<Rightarrow> unit result \<times> string" where
  "json_rh t = (case fgets t of None \<Rightarrow> (Inl EIO, [])
     | Some (line, _) \<Rightarrow> (Inr (), quoted ''rootHash'' @ '':'' @ quoted (until_nul line)))"

text \<open>
  \<open>%02hhX\<close> of \<open>fscanf\<close>: blanks are skipped; then at most two characters, of a sign and digits, or \<open>0x\<close>.
\<close>

definition xval :: "char \<Rightarrow> u8" where
  "xval c = (case digit_val c of Some n \<Rightarrow> word_of_nat n | None \<Rightarrow> 0)"

definition scan_hh :: "string \<Rightarrow> (u8 \<times> string) option" where
  "scan_hh s = (case skip_ws s of [] \<Rightarrow> None
     | c # r \<Rightarrow>
         if c = CHR ''+'' \<or> c = CHR ''-'' then
           (case r of d # r' \<Rightarrow> if isxdigit d then Some (if c = CHR ''-'' then - xval d else xval d, r') else None | [] \<Rightarrow> None)
         else if \<not> isxdigit c then None
         else (case r of [] \<Rightarrow> Some (xval c, [])
           | d # r' \<Rightarrow> if isxdigit d then Some (16 * xval c + xval d, r')
               else if c = CHR ''0'' \<and> (d = CHR ''x'' \<or> d = CHR ''X'') then Some (0, r') else Some (xval c, r)))"

text \<open>The numbers that \<open>fscanf\<close> converts, at most \<open>n\<close>, with colons between them.\<close>

fun scan_bytes :: "nat \<Rightarrow> string \<Rightarrow> bytes" where
  "scan_bytes 0 s = []"
| "scan_bytes (Suc n) s = (case scan_hh s of None \<Rightarrow> []
     | Some (b, []) \<Rightarrow> [b]
     | Some (b, c # r) \<Rightarrow> b # (if c = CHR '':'' then scan_bytes n r else []))"

text \<open>The blank of the format matches any number of blanks.\<close>

definition scan_certfp :: "string \<Rightarrow> bytes" where
  "scan_certfp s =
     (if \<not> starts_with ''sha256'' s then []
      else let r = skip_ws (drop 6 s) in
        if \<not> starts_with ''Fingerprint='' r then [] else scan_bytes 32 (drop 12 r))"

definition json_certfp :: "string \<Rightarrow> unit result \<times> string" where
  "json_certfp t =
     (let b = scan_certfp t in
      if length b \<noteq> 32 then (Inl EIO, [])
      else (Inr (), quoted ''certificateFingerprint'' @ '':'' @ quoted (concat (map hex2 b))))"

function json_p7s_lines :: "string \<Rightarrow> unit result \<times> string" where
  "json_p7s_lines t = (case fgets t of None \<Rightarrow> (Inl EIO, [])
     | Some (line, rest) \<Rightarrow>
         if starts_with ''-----END CMS-----'' (until_nul line) then (Inr (), [CHR 0x22])
         else if until_nul line = [] then (Inl Undefined, [])
         else (case json_p7s_lines rest of (r, s) \<Rightarrow> (r, butlast (until_nul line) @ s)))"
  by pat_completeness auto
termination
  by (relation "measure length") (auto dest: fgets_shorter)

declare json_p7s_lines.simps [simp del]

definition json_p7s :: "string \<Rightarrow> unit result \<times> string" where
  "json_p7s t = (case fgets t of None \<Rightarrow> (Inl EIO, [])
     | Some (line, rest) \<Rightarrow>
         if \<not> starts_with ''-----BEGIN CMS-----'' (until_nul line) then (Inl EIO, [])
         else (case json_p7s_lines rest of (r, s) \<Rightarrow> (r, quoted ''signature'' @ '':'' @ [CHR 0x22] @ s)))"

text \<open>A part that is written only if all went well before; a file that cannot be opened is EIO.\<close>

definition json_part :: "string \<Rightarrow> (string \<Rightarrow> unit result \<times> string) \<Rightarrow> unit result \<times> string \<Rightarrow> (unit result \<times> string) io" where
  "json_part path f = (\<lambda>(r, acc). case r of Inl e \<Rightarrow> ret (Inl e, acc)
     | Inr _ \<Rightarrow> try_io (read_text path) (\<lambda>t. case t of Inl _ \<Rightarrow> ret (Inl EIO, acc)
         | Inr text \<Rightarrow> (case f text of (r', s) \<Rightarrow> ret (r', acc @ s))))"

text \<open>
  The stream is written when it is closed, after the file got its length; the result of \<open>fclose\<close> is ignored.
\<close>

definition json_size :: "string \<Rightarrow> u64" where
  "json_size json = (word_of_nat (length json) + 4095) AND NOT 4095"

definition flush_json :: "string \<Rightarrow> string \<Rightarrow> unit io" where
  "flush_json out json = try_io (sys_pwrite out (str_bytes json) 0) (\<lambda>_. ret ())"

definition verity_sig_write_json :: "string \<Rightarrow> string \<Rightarrow> string \<Rightarrow> string \<Rightarrow> u64 io" where
  "verity_sig_write_json out rh certfp p7s =
     bind_io (sys_open_w out True True) (\<lambda>_.
     bind_io (json_part rh json_rh (Inr (), ''{'')) (\<lambda>(r1, a1).
     bind_io (json_part certfp json_certfp (r1, a1 @ '','')) (\<lambda>(r2, a2).
     bind_io (json_part p7s json_p7s (r2, a2 @ '','')) (\<lambda>(r3, a3).
       let json = a3 @ ''}'' in
       finally_io (case r3 of Inl e \<Rightarrow> throw e
         | Inr _ \<Rightarrow> bind_io (sys_ftruncate out (json_size json)) (\<lambda>_. ret (json_size json)))
         (flush_json out json)))))"

section \<open>The handlers\<close>

definition VERITY_SIG_CERT :: u8 where "VERITY_SIG_CERT = 0"
definition VERITY_SIG_KEY :: u8 where "VERITY_SIG_KEY = 1"

definition verity_tmp_path :: "string \<Rightarrow> string \<Rightarrow> string \<Rightarrow> string" where
  "verity_tmp_path tmp verity suffix = tmp @ ''/'' @ sanitize_path verity @ ''.'' @ suffix"

text \<open>The certificate and the key: those of the last partition of each kind, else those of the section.\<close>

fun verity_sig_files :: "image list \<Rightarrow> partition list \<Rightarrow> string option \<times> string option \<Rightarrow> (string option \<times> string option) io" where
  "verity_sig_files ims [] ck = ret ck"
| "verity_sig_files ims (part # parts) ck =
     (if p_partition_type part = VERITY_SIG_CERT then
        bind_io (get_child ims part) (\<lambda>c. verity_sig_files ims parts (Some (im_outfile c), snd ck))
      else if p_partition_type part = VERITY_SIG_KEY then
        bind_io (get_child ims part) (\<lambda>c. verity_sig_files ims parts (fst ck, Some (im_outfile c)))
      else verity_sig_files ims parts ck)"

definition verity_sig_generate :: "config list \<Rightarrow> shell \<Rightarrow> fiemap \<Rightarrow> 'p genv \<Rightarrow> image io" where
  "verity_sig_generate opts sh fm e =
     (let im = g_image e; out = im_outfile im; sec = g_sec e;
          p7s = verity_tmp_path (g_tmp e) (im_file im) ''p7s''; certfp = verity_tmp_path (g_tmp e) (im_file im) ''certfp'' in
      bind_io (prepare_image fm out (im_size im)) (\<lambda>_.
      bind_io (verity_sig_files (g_images e) (im_partitions im) (sec_str sec ''cert'', sec_str sec ''key'')) (\<lambda>(cert, key).
      case sec_str sec ''image'' of None \<Rightarrow> throw Undefined
      | Some verity \<Rightarrow>
        let rh = verity_tmp_path (g_tmp e) verity ''root-hash'' in
        bind_io (systemp sh (concat [tool opts ''openssl'', '' cms -sign -noattr -signer '', single_quoted (cstr cert),
          '' -inkey '', single_quoted (cstr key), '' -binary -in '', single_quoted rh, '' -outform PEM -out '', single_quoted p7s])) (\<lambda>_.
        bind_io (systemp sh (concat [tool opts ''openssl'', '' x509 -fingerprint -sha256 -in '', single_quoted (cstr cert),
          '' -noout >'', single_quoted certfp])) (\<lambda>_.
        bind_io (verity_sig_write_json out rh certfp p7s) (\<lambda>sz.
        if im_size im \<noteq> 0 \<and> im_size im < sz then throw E2BIG else ret (im\<lparr>im_size := sz\<rparr>)))))))"

definition verity_part :: "u8 \<Rightarrow> string \<Rightarrow> image \<Rightarrow> image" where
  "verity_part kind f im = (if starts_with pkcs11_prefix f then im
     else add_partition (\<lambda>p. (file_part None (Some f) p)\<lparr>p_partition_type := kind\<rparr>) im)"

definition verity_sig_parse :: "image \<Rightarrow> cfg option \<Rightarrow> image result" where
  "verity_sig_parse im sec =
     (if sec_str sec ''image'' = None then Inl EINVAL
      else case sec_str sec ''cert'' of None \<Rightarrow> Inl EINVAL
      | Some cert \<Rightarrow>
        (case sec_str sec ''key'' of None \<Rightarrow> Inl EINVAL
         | Some key \<Rightarrow> Inr (verity_part VERITY_SIG_KEY key (verity_part VERITY_SIG_CERT cert im))))"

text \<open>The parse functions of \<open>verity\<close> and of \<open>android-sparse\<close>: the image of the option is a partition.\<close>

definition source_parse :: "image \<Rightarrow> cfg option \<Rightarrow> image result" where
  "source_parse im sec =
     (case sec_str sec ''image'' of None \<Rightarrow> Inl EINVAL | Some f \<Rightarrow> Inr (add_partition (file_part None (Some f)) im))"

definition verity_parse :: "image \<Rightarrow> cfg option \<Rightarrow> image result" where
  "verity_parse = source_parse"

definition verity_generate :: "config list \<Rightarrow> shell \<Rightarrow> fiemap \<Rightarrow> 'p genv \<Rightarrow> image io" where
  "verity_generate opts sh fm e =
     (let im = g_image e in
      bind_io (prepare_image fm (im_outfile im) (im_size im)) (\<lambda>_.
      case im_partitions im of [] \<Rightarrow> throw Undefined
      | part # _ \<Rightarrow>
        bind_io (get_child (g_images e) part) (\<lambda>child.
        bind_io (systemp sh (concat [tool opts ''veritysetup'', '' format --root-hash-file '',
          single_quoted (verity_tmp_path (g_tmp e) (im_file im) ''root-hash''), '' '',
          if_given (sec_str (g_sec e) ''extraargs'') (\<lambda>x. x), '' '', single_quoted (im_outfile child), '' '',
          single_quoted (im_outfile im)])) (\<lambda>_.
        take_size im))))"

end
