(* ===== verification/AndroidSparse.thy ===== *)
theory AndroidSparse
  imports Verity Crc32
begin

text \<open>
  Android sparse images, \<^verbatim>\<open>image-android-sparse.c\<close>: a file in chunks of blocks, each with its data, a
  repeated value, or nothing for a hole. The header of a chunk is written twice, first as a placeholder
  and then, at its place, with the final counts.
\<close>

section \<open>The structures\<close>

record sparse =
  sp_block_size :: u32
  sp_fill_holes :: bool
  sp_add_crc :: bool

text \<open>\<open>struct sparse_header\<close>, whose fields are fixed but for three: the size and number of the blocks, and the chunks.\<close>

definition sparse_header_bytes :: "u32 \<Rightarrow> u32 \<Rightarrow> u32 \<Rightarrow> bytes" where
  "sparse_header_bytes block_size output_blocks input_chunks =
     le32 0xed26ff3a @ le16 1 @ le16 0 @ le16 28 @ le16 12 @ le32 block_size @ le32 output_blocks @
     le32 input_chunks @ le32 0"

definition SPARSE_RAW :: u16 where "SPARSE_RAW = 0xCAC1"
definition SPARSE_FILL :: u16 where "SPARSE_FILL = 0xCAC2"
definition SPARSE_DONT_CARE :: u16 where "SPARSE_DONT_CARE = 0xCAC3"
definition SPARSE_CRC32 :: u16 where "SPARSE_CRC32 = 0xCAC4"

record sparse_chunk_header =
  ck_type :: u16
  ck_blocks :: u32
  ck_size :: u32

definition chunk_header_bytes :: "sparse_chunk_header \<Rightarrow> bytes" where
  "chunk_header_bytes h = le16 (ck_type h) @ le16 0 @ le32 (ck_blocks h) @ le32 (ck_size h)"

section \<open>Extents in whole blocks\<close>

definition align_down :: "u64 \<Rightarrow> u64 \<Rightarrow> u64" where
  "align_down bs x = x div bs * bs"

definition blocks_of :: "u64 \<Rightarrow> u64 \<Rightarrow> u64" where
  "blocks_of bs x = (x - 1 + bs) div bs"

definition align_extent :: "u64 \<Rightarrow> u64 \<Rightarrow> extent \<Rightarrow> extent" where
  "align_extent bs sz e =
     \<lparr>ext_start = align_down bs (ext_start e), ext_end = min_ull (blocks_of bs (ext_end e) * bs) sz\<rparr>"

text \<open>The loop variable \<open>j\<close>: the last extent that was not removed; at index 0 it is not looked at.\<close>

fun prev_extent :: "extent list \<Rightarrow> nat \<Rightarrow> nat" where
  "prev_extent es 0 = 0"
| "prev_extent es (Suc j) = (if ext_end (es ! Suc j) \<noteq> 0 then Suc j else prev_extent es j)"

definition merge_extent :: "u64 \<Rightarrow> u64 \<Rightarrow> extent list \<Rightarrow> extent \<Rightarrow> extent list" where
  "merge_extent bs sz es e =
     (let e' = align_extent bs sz e in
      if es = [] then [e']
      else let j = prev_extent es (length es - 1) in
        if ext_start e' \<le> ext_end (es ! j)
        then es[j := (es ! j)\<lparr>ext_end := ext_end e'\<rparr>] @ [\<lparr>ext_start = 0, ext_end = 0\<rparr>]
        else es @ [e'])"

definition align_extents :: "u64 \<Rightarrow> u64 \<Rightarrow> extent list \<Rightarrow> extent list" where
  "align_extents bs sz es = foldl (merge_extent bs sz) [] es"

section \<open>Writing\<close>

text \<open>\<open>pos\<close> is the position of the file descriptor; the result is the position after the write.\<close>

definition write_data :: "string \<Rightarrow> bytes \<Rightarrow> u64 \<Rightarrow> u64 io" where
  "write_data out bs pos = bind_io (sys_pwrite out bs pos) (\<lambda>n.
     if n \<noteq> length bs then throw EINVAL else ret (pos + word_of_nat n))"

definition flush_header :: "string \<Rightarrow> sparse_chunk_header \<Rightarrow> u64 option \<Rightarrow> u64 \<Rightarrow> u64 io" where
  "flush_header out h offset pos =
     (if ck_type h = 0 then ret pos
      else case offset of None \<Rightarrow> write_data out (chunk_header_bytes h) pos
      | Some off \<Rightarrow>
          bind_io (sys_seek off) (\<lambda>_. bind_io (write_data out (chunk_header_bytes h) off) (\<lambda>_. sys_seek_end out)))"

text \<open>
  The running variables: the position in the output, the chunks of the header, the block, the CRC, the
  header of the current chunk, where it is, and its fill value.
\<close>

record sparse_state =
  st_at :: u64
  st_chunks :: u32
  st_block :: u64
  st_crc :: u32
  st_chunk :: sparse_chunk_header
  st_pos :: u64
  st_fill :: bytes

definition is_fill :: "nat \<Rightarrow> bytes \<Rightarrow> bool" where
  "is_fill bs buf \<longleftrightarrow> list_all (\<lambda>i. field (4 * i) 4 buf = field 0 4 buf) [1..<bs div 4]"

text \<open>The current chunk is ended, and one of the type \<open>t\<close> is begun, whose header is written with no blocks.\<close>

definition begin_chunk :: "string \<Rightarrow> u16 \<Rightarrow> u32 \<Rightarrow> sparse_state \<Rightarrow> sparse_state io" where
  "begin_chunk out t sz st =
     bind_io (flush_header out (st_chunk st) (Some (st_pos st)) (st_at st)) (\<lambda>pos.
     let h = \<lparr>ck_type = t, ck_blocks = 0, ck_size = sz\<rparr> in
     bind_io (flush_header out h None pos) (\<lambda>at.
       ret (st\<lparr>st_chunks := st_chunks st + 1, st_pos := pos, st_at := at, st_chunk := h\<rparr>)))"

definition count_block :: "u32 \<Rightarrow> sparse_state \<Rightarrow> sparse_state" where
  "count_block sz st =
     st\<lparr>st_chunk := (st_chunk st)\<lparr>ck_blocks := ck_blocks (st_chunk st) + 1, ck_size := ck_size (st_chunk st) + sz\<rparr>\<rparr>"

definition fill_block :: "string \<Rightarrow> bytes \<Rightarrow> sparse_state \<Rightarrow> sparse_state io" where
  "fill_block out buf st =
     bind_io (if ck_type (st_chunk st) \<noteq> SPARSE_FILL \<or> st_fill st \<noteq> take 4 buf then
         bind_io (begin_chunk out SPARSE_FILL 16 st) (\<lambda>st1.
         bind_io (write_data out (take 4 buf) (st_at st1)) (\<lambda>at. ret (st1\<lparr>st_at := at, st_fill := take 4 buf\<rparr>)))
       else ret st) (\<lambda>st2. ret (count_block 0 st2))"

definition raw_block :: "string \<Rightarrow> u32 \<Rightarrow> bytes \<Rightarrow> sparse_state \<Rightarrow> sparse_state io" where
  "raw_block out bs buf st =
     bind_io (if ck_type (st_chunk st) \<noteq> SPARSE_RAW \<or> ck_blocks (st_chunk st) \<ge> (0xFFFFFFFF - 12) div bs
       then begin_chunk out SPARSE_RAW 12 st else ret st) (\<lambda>st1.
     bind_io (write_data out buf (st_at st1)) (\<lambda>at. ret ((count_block bs st1)\<lparr>st_at := at\<rparr>)))"

text \<open>One block that was read; the last is padded with zeros.\<close>

definition sparse_block :: "string \<Rightarrow> u32 \<Rightarrow> bytes \<Rightarrow> sparse_state \<Rightarrow> sparse_state io" where
  "sparse_block out bs r st =
     (let buf = r @ zeros (unat bs - length r);
          st1 = st\<lparr>st_crc := crc32_next buf (st_crc st)\<rparr> in
      if is_fill (unat bs) buf then fill_block out buf st1 else raw_block out bs buf st1)"

text \<open>The loop over the blocks of an extent of \<open>sz\<close> bytes at \<open>pos\<close>.\<close>

function sparse_data :: "string \<Rightarrow> string \<Rightarrow> u32 \<Rightarrow> u64 \<Rightarrow> u64 \<Rightarrow> sparse_state \<Rightarrow> sparse_state io" where
  "sparse_data out infile bs sz pos st w =
     (if sz = 0 then (Inr st, w)
      else if bs = 0 then (Inl Undefined, w)
      else let now = min_ull sz (ucast bs) in
        (case sys_pread infile (unat now) pos w of (Inl e, w1) \<Rightarrow> (Inl e, w1)
         | (Inr r, w1) \<Rightarrow>
             if length r \<noteq> unat now then (Inl EINVAL, w1)
             else (case sparse_block out bs r st w1 of (Inl e, w2) \<Rightarrow> (Inl e, w2)
               | (Inr st', w2) \<Rightarrow> sparse_data out infile bs (sz - now) (pos + now) st' w2)))"
  by pat_completeness auto
termination
proof (relation "measure (\<lambda>(out, infile, bs, sz, pos, st, w). unat sz)", goal_cases)
  case (2 out infile bs sz pos st w now)
  have "unat bs \<noteq> 0" "unat sz \<noteq> 0" using 2(1,2) by (simp_all add: unat_eq0)
  then have "0 < unat now" "unat now \<le> unat sz" by (simp_all add: 2(3) unat_ucast32)
  then show ?case by (simp add: unat_sub64)
qed simp

declare sparse_data.simps [simp del]

text \<open>A chunk without data, and the CRC over the zeros that it stands for.\<close>

definition skip_chunk :: "string \<Rightarrow> u32 \<Rightarrow> u32 \<Rightarrow> sparse_state \<Rightarrow> sparse_state io" where
  "skip_chunk out bs n st =
     (let h = \<lparr>ck_type = SPARSE_DONT_CARE, ck_blocks = n, ck_size = 12\<rparr> in
      bind_io (flush_header out h None (st_at st)) (\<lambda>at.
        ret (st\<lparr>st_chunks := st_chunks st + 1, st_at := at, st_chunk := h,
                st_crc := ((\<lambda>c. crc32_next (zeros (unat bs)) c) ^^ unat n) (st_crc st)\<rparr>)))"

text \<open>One extent; a removed one has the size 0.\<close>

definition sparse_extent :: "string \<Rightarrow> string \<Rightarrow> u32 \<Rightarrow> extent \<Rightarrow> sparse_state \<Rightarrow> sparse_state io" where
  "sparse_extent out infile bs e st =
     (let start_block = ucast (ext_start e div ucast bs) :: u32; sz = ext_end e - ext_start e in
      if sz = 0 then ret st
      else bind_io (if st_block st < ucast start_block then
             bind_io (skip_chunk out bs (ucast (ucast start_block - st_block st)) st)
               (\<lambda>st1. ret (st1\<lparr>st_block := ucast start_block\<rparr>))
           else ret st) (\<lambda>st1.
        bind_io (sys_seek (ext_start e)) (\<lambda>_.
        bind_io (sparse_data out infile bs sz (ext_start e)
          (st1\<lparr>st_chunk := (st_chunk st1)\<lparr>ck_type := 0, ck_blocks := 0\<rparr>, st_pos := st_at st1, st_fill := zeros 4\<rparr>)) (\<lambda>st2.
        bind_io (flush_header out (st_chunk st2) (Some (st_pos st2)) (st_at st2)) (\<lambda>at.
          ret (st2\<lparr>st_at := at, st_block := blocks_of (ucast bs) (ext_end e)\<rparr>))))))"

fun sparse_extents :: "string \<Rightarrow> string \<Rightarrow> u32 \<Rightarrow> extent list \<Rightarrow> sparse_state \<Rightarrow> sparse_state io" where
  "sparse_extents out infile bs [] st = ret st"
| "sparse_extents out infile bs (e # es) st =
     bind_io (sparse_extent out infile bs e st) (sparse_extents out infile bs es)"

definition first_state :: "u64 \<Rightarrow> sparse_state" where
  "first_state at =
     \<lparr>st_at = at, st_chunks = 0, st_block = 0, st_crc = 0, st_chunk = \<lparr>ck_type = 0, ck_blocks = 0, ck_size = 0\<rparr>,
      st_pos = 0, st_fill = zeros 4\<rparr>"

text \<open>After the extents: the blocks that are left, the CRC, and the header again.\<close>

definition sparse_tail :: "string \<Rightarrow> u32 \<Rightarrow> u64 \<Rightarrow> sparse_state \<Rightarrow> sparse_state io" where
  "sparse_tail out bs block_count st =
     (if st_block st < block_count then skip_chunk out bs (ucast (block_count - st_block st)) st else ret st)"

definition sparse_crc :: "string \<Rightarrow> sparse_state \<Rightarrow> sparse_state io" where
  "sparse_crc out st =
     (let h = \<lparr>ck_type = SPARSE_CRC32, ck_blocks = 0, ck_size = 16\<rparr> in
      bind_io (flush_header out h None (st_at st)) (\<lambda>at1.
      bind_io (write_data out (le32 (st_crc st)) at1) (\<lambda>at2.
        ret (st\<lparr>st_chunks := st_chunks st + 1, st_at := at2, st_chunk := h\<rparr>))))"

definition sparse_write :: "sparse \<Rightarrow> string \<Rightarrow> string \<Rightarrow> u64 \<Rightarrow> extent list \<Rightarrow> unit io" where
  "sparse_write p out infile block_count es =
     (let bs = sp_block_size p in
      bind_io (write_data out (sparse_header_bytes bs (ucast block_count) 0) 0) (\<lambda>at.
      bind_io (sparse_extents out infile bs es (first_state at)) (\<lambda>st1.
      bind_io (sparse_tail out bs block_count st1) (\<lambda>st2.
      bind_io (if sp_add_crc p then sparse_crc out st2 else ret st2) (\<lambda>st3.
      bind_io (sys_seek 0) (\<lambda>_.
      bind_io (write_data out (sparse_header_bytes bs (ucast block_count) (st_chunks st3)) 0) (\<lambda>_. ret ())))))))"

section \<open>The handler\<close>

definition android_sparse_parse :: "image \<Rightarrow> cfg option \<Rightarrow> image result" where
  "android_sparse_parse = source_parse"

definition android_sparse_setup :: "cfg option \<Rightarrow> sparse result" where
  "android_sparse_setup sec =
     rbind (cfg_getint_suffix (sec_str sec ''block-size'')) (\<lambda>n.
     let bs = ucast n :: u32 in
     if bs mod 512 \<noteq> 0 then Inl EINVAL
     else Inr \<lparr>sp_block_size = bs, sp_fill_holes = sec_bool sec ''fill-holes'', sp_add_crc = sec_bool sec ''add-crc''\<rparr>)"

text \<open>A block size of 0 passes the check; then \<open>max_raw_blocks\<close> is a division by zero.\<close>

definition android_sparse_generate :: "fiemap \<Rightarrow> sparse \<Rightarrow> 'p genv \<Rightarrow> image io" where
  "android_sparse_generate fm p e =
     (let im = g_image e; out = im_outfile im; bs = ucast (sp_block_size p) :: u64 in
      if sp_block_size p = 0 then throw Undefined
      else case im_partitions im of [] \<Rightarrow> throw Undefined
      | part # _ \<Rightarrow>
        bind_io (get_child (g_images e) part) (\<lambda>inimage.
        let infile = im_outfile inimage in
        bind_io (sys_open_r infile) (\<lambda>_.
        bind_io (sys_stat infile) (\<lambda>s.
        let st_size = word_of_nat (fsize s) in
        bind_io (if sp_fill_holes p then ret (whole_file_exent st_size) else map_file_extents fm infile st_size) (\<lambda>es.
        bind_io (open_file out True) (\<lambda>_.
        bind_io (sparse_write p out infile (blocks_of bs st_size) (align_extents bs st_size es)) (\<lambda>_.
          ret im)))))))"

end
