(* ===== verification/Handlers.thy ===== *)
theory Handlers
  imports Walk Flash HdGenerate AndroidSparse
begin

text \<open>
  The table \<open>handlers\<close> of \<^verbatim>\<open>genimage.c\<close>, with the handler of files (\<^verbatim>\<open>image-file.c\<close>) and the calls of the
  functions of the others. The handler of RAID members is not in it, as it reads and changes the private data of
  another image; see \<open>Mdraid\<close>.
\<close>

section \<open>Private data\<close>

text \<open>The private data of the handlers: \<open>struct hdimage\<close>, \<open>struct file\<close> with its input file and flag, and so on.\<close>

datatype hpriv = HdPriv hdimage | FilePriv string bool | ErofsPriv "string option" | CustomPriv string
  | ExtPriv ext | QemuPriv "string \<times> string" | SparsePriv sparse

text \<open>What the handlers use of the configuration and of the system.\<close>

record surroundings =
  su_opts :: "config list"
  su_shell :: shell
  su_fiemap :: fiemap
  su_inputpath :: string
  su_shortcuts :: "(string \<times> string) list"

section \<open>image-file.c\<close>

definition file_infile :: "string \<Rightarrow> string \<Rightarrow> string" where
  "file_infile indir n = (if n \<noteq> [] \<and> hd n = CHR ''/'' then n else indir @ ''/'' @ n)"

text \<open>An implicit image has no section; then its name is that of the image and it is not copied.\<close>

definition file_name :: "image \<Rightarrow> cfg option \<Rightarrow> string" where
  "file_name im sec = (case Option.bind sec (\<lambda>c. cfg_getstr c ''name'') of None \<Rightarrow> im_file im | Some n \<Rightarrow> n)"

definition file_setup :: "string \<Rightarrow> image \<Rightarrow> cfg option \<Rightarrow> (hpriv option \<times> image) io" where
  "file_setup indir im sec =
     (let infile = file_infile indir (file_name im sec) in
      bind_io (sys_stat infile) (\<lambda>st.
      let im1 = (if im_size im = 0 then im\<lparr>im_size := word_of_nat (fsize st)\<rparr> else im);
          copy = (case sec of None \<Rightarrow> False | Some c \<Rightarrow> cfg_getbool c ''copy'');
          im2 = (if copy then im1 else im1\<lparr>im_outfile := infile\<rparr>) in
      (case parse_holes (im_holes im2) (map_option (\<lambda>c. cfg_strs c ''holes'') sec) of
         (Inl e, _) \<Rightarrow> throw e
       | (Inr _, holes) \<Rightarrow> ret (Some (FilePriv infile copy), im2\<lparr>im_holes := holes\<rparr>))))"

definition file_generate :: "shell \<Rightarrow> string \<Rightarrow> bool \<Rightarrow> 'p genv \<Rightarrow> image io" where
  "file_generate sh infile copy e =
     (let im = g_image e in
      if \<not> copy then ret im
      else if infile = im_outfile im then ret im
      else run_tool sh im [''cp '', single_quoted infile, '' '', single_quoted (im_outfile im)])"

definition file_parse :: "image \<Rightarrow> image" where
  "file_parse im = (if im_exec_pre im = None \<and> im_exec_post im = None then im\<lparr>im_empty := True\<rparr> else im)"

section \<open>hdimage\<close>

text \<open>The options of an \<open>hdimage\<close> section.\<close>

definition hd_cfg_of :: "cfg \<Rightarrow> hd_cfg" where
  "hd_cfg_of c =
     \<lparr>cf_align = cfg_getstr c ''align'', cf_disk_signature = cfg_getstr c ''disk-signature'',
      cf_disk_uuid = cfg_getstr c ''disk-uuid'',
      cf_partition_table = (if cfg_given c ''partition-table'' then Some (cfg_getbool c ''partition-table'') else None),
      cf_extended_partition = word_of_int (cfg_getint c ''extended-partition''),
      cf_partition_table_type = (case cfg_getstr c ''partition-table-type'' of None \<Rightarrow> [] | Some t \<Rightarrow> t),
      cf_gpt = (if cfg_given c ''gpt'' then Some (cfg_getbool c ''gpt'') else None),
      cf_gpt_location = cfg_getstr c ''gpt-location'', cf_gpt_no_backup = cfg_getbool c ''gpt-no-backup'',
      cf_fill = cfg_getbool c ''fill''\<rparr>"

definition set_rand :: "rng \<Rightarrow> unit io" where
  "set_rand g w = (Inr (), w\<lparr>rand := g\<rparr>)"

definition hd_setup_call ::
  "(string \<times> string) list \<Rightarrow> image list \<Rightarrow> image \<Rightarrow> cfg option \<Rightarrow> (hpriv option \<times> image) io" where
  "hd_setup_call shortcuts ims im sec w =
     (case sec of None \<Rightarrow> (Inl Undefined, w)
      | Some c \<Rightarrow> bind_io (hdimage_setup ims shortcuts (hd_cfg_of c) im (rand w))
          (\<lambda>(h, im', g). bind_io (set_rand g) (\<lambda>_. ret (Some (HdPriv h), im'))) w)"

section \<open>Calls through the table\<close>

text \<open>A setup function that only checks, and one that makes the private data.\<close>

definition check_setup :: "(image \<Rightarrow> cfg option \<Rightarrow> unit result) \<Rightarrow>
    image list \<Rightarrow> image \<Rightarrow> cfg option \<Rightarrow> 'p option \<Rightarrow> ('p option \<times> image) io" where
  "check_setup f ims im sec p = bind_io (lift_io (f im sec)) (\<lambda>_. ret (p, im))"

definition priv_setup :: "('a \<Rightarrow> 'p) \<Rightarrow> (image \<Rightarrow> cfg option \<Rightarrow> 'a io) \<Rightarrow>
    image list \<Rightarrow> image \<Rightarrow> cfg option \<Rightarrow> 'p option \<Rightarrow> ('p option \<times> image) io" where
  "priv_setup C f ims im sec p = bind_io (f im sec) (\<lambda>x. ret (Some (C x), im))"

text \<open>A parse function that only changes the image.\<close>

definition image_parse :: "(image \<Rightarrow> cfg option \<Rightarrow> image result) \<Rightarrow>
    image list \<Rightarrow> image \<Rightarrow> cfg option \<Rightarrow> ('p option \<times> image) io" where
  "image_parse f ims im sec = bind_io (lift_io (f im sec)) (\<lambda>im'. ret (None, im'))"

text \<open>A generate function that reads its private data.\<close>

definition with_priv :: "('p \<Rightarrow> 'a option) \<Rightarrow> ('a \<Rightarrow> 'p genv \<Rightarrow> image io) \<Rightarrow> 'p genv \<Rightarrow> image io" where
  "with_priv pick f e = (case Option.bind (g_priv e) pick of None \<Rightarrow> throw Undefined | Some x \<Rightarrow> f x e)"

fun pick_hd :: "hpriv \<Rightarrow> hdimage option" where "pick_hd (HdPriv h) = Some h" | "pick_hd _ = None"
fun pick_file :: "hpriv \<Rightarrow> (string \<times> bool) option" where "pick_file (FilePriv f c) = Some (f, c)" | "pick_file _ = None"
fun pick_erofs :: "hpriv \<Rightarrow> string option option" where "pick_erofs (ErofsPriv l) = Some l" | "pick_erofs _ = None"
fun pick_custom :: "hpriv \<Rightarrow> string option" where "pick_custom (CustomPriv c) = Some c" | "pick_custom _ = None"
fun pick_ext :: "hpriv \<Rightarrow> ext option" where "pick_ext (ExtPriv x) = Some x" | "pick_ext _ = None"
fun pick_qemu :: "hpriv \<Rightarrow> (string \<times> string) option" where "pick_qemu (QemuPriv q) = Some q" | "pick_qemu _ = None"
fun pick_sparse :: "hpriv \<Rightarrow> sparse option" where "pick_sparse (SparsePriv s) = Some s" | "pick_sparse _ = None"

text \<open>A handler without a parse and a setup function.\<close>

definition tool_handler :: "string \<Rightarrow> bool \<Rightarrow> ('p genv \<Rightarrow> image io) \<Rightarrow> 'p handler" where
  "tool_handler t no_root g =
     \<lparr>h_type = t, h_no_rootpath = no_root, h_parse = None, h_setup = None, h_generate = Some g\<rparr>"

section \<open>The handlers with functions of their own\<close>

definition file_handler :: "surroundings \<Rightarrow> hpriv handler" where
  "file_handler u =
     (tool_handler ''file'' False (with_priv pick_file (\<lambda>(infile, copy). file_generate (su_shell u) infile copy)))
     \<lparr>h_parse := Some (image_parse (\<lambda>im sec. Inr (file_parse im))),
      h_setup := Some (\<lambda>ims im sec p. file_setup (su_inputpath u) im sec)\<rparr>"

definition flash_handler :: "surroundings \<Rightarrow> hpriv handler" where
  "flash_handler u =
     (tool_handler ''flash'' True (\<lambda>e. bind_io (flash_generate (su_fiemap u) (g_images e) (g_image e)) (\<lambda>_. ret (g_image e))))
     \<lparr>h_setup := Some (\<lambda>ims im sec p. bind_io (lift_io (flash_setup ims im)) (\<lambda>im'. ret (None, im')))\<rparr>"

definition hdimage_handler :: "surroundings \<Rightarrow> hpriv handler" where
  "hdimage_handler u =
     (tool_handler ''hdimage'' True (with_priv pick_hd (\<lambda>h e.
        bind_io (hdimage_generate (su_fiemap u) (g_images e) h (g_image e)) (\<lambda>_. ret (g_image e)))))
     \<lparr>h_setup := Some (\<lambda>ims im sec p. hd_setup_call (su_shortcuts u) ims im sec)\<rparr>"

definition custom_handler :: "surroundings \<Rightarrow> hpriv handler" where
  "custom_handler u =
     (tool_handler ''custom'' False (with_priv pick_custom (custom_generate (su_shell u) (su_fiemap u))))
     \<lparr>h_parse := Some (image_parse (\<lambda>im sec. Inr (custom_parse im))),
      h_setup := Some (priv_setup CustomPriv (\<lambda>im sec. lift_io (custom_setup sec)))\<rparr>"

definition erofs_handler :: "surroundings \<Rightarrow> hpriv handler" where
  "erofs_handler u =
     (tool_handler ''erofs'' False (with_priv pick_erofs (erofs_generate (su_opts u) (su_shell u))))
     \<lparr>h_setup := Some (priv_setup ErofsPriv (\<lambda>im sec. lift_io (erofs_setup sec)))\<rparr>"

definition ext_handler :: "surroundings \<Rightarrow> string \<Rightarrow> hpriv handler" where
  "ext_handler u t =
     (tool_handler t False (with_priv pick_ext (ext2_generate (su_opts u) (su_shell u) (su_fiemap u))))
     \<lparr>h_setup := Some (priv_setup ExtPriv ext2_setup)\<rparr>"

definition android_sparse_handler :: "surroundings \<Rightarrow> hpriv handler" where
  "android_sparse_handler u =
     (tool_handler ''android-sparse'' True (with_priv pick_sparse (android_sparse_generate (su_fiemap u))))
     \<lparr>h_parse := Some (image_parse android_sparse_parse),
      h_setup := Some (priv_setup SparsePriv (\<lambda>im sec. lift_io (android_sparse_setup sec)))\<rparr>"

definition fit_handler :: "surroundings \<Rightarrow> 'p handler" where
  "fit_handler u = (tool_handler ''fit'' True (fit_generate (su_opts u) (su_shell u)))
     \<lparr>h_parse := Some (image_parse (\<lambda>im sec. Inr (fit_parse im sec)))\<rparr>"

definition fip_handler :: "surroundings \<Rightarrow> 'p handler" where
  "fip_handler u = (tool_handler ''fip'' True (fip_generate (su_opts u) (su_shell u)))
     \<lparr>h_parse := Some (image_parse fip_parse)\<rparr>"

definition jffs2_handler :: "surroundings \<Rightarrow> 'p handler" where
  "jffs2_handler u = (tool_handler ''jffs2'' False (jffs2_generate (su_opts u) (su_shell u)))
     \<lparr>h_setup := Some (check_setup (\<lambda>im sec. jffs2_setup im))\<rparr>"

definition ubifs_handler :: "surroundings \<Rightarrow> 'p handler" where
  "ubifs_handler u = (tool_handler ''ubifs'' False (ubifs_generate (su_opts u) (su_shell u)))
     \<lparr>h_setup := Some (check_setup (\<lambda>im sec. ubifs_setup im))\<rparr>"

definition ubi_handler :: "surroundings \<Rightarrow> 'p handler" where
  "ubi_handler u = (tool_handler ''ubi'' True (ubi_generate (su_opts u) (su_shell u)))
     \<lparr>h_setup := Some (check_setup (\<lambda>im sec. ubi_setup im))\<rparr>"

definition qemu_handler :: "surroundings \<Rightarrow> hpriv handler" where
  "qemu_handler u =
     (tool_handler ''qemu'' True (with_priv pick_qemu (qemu_generate (su_shell u))))
     \<lparr>h_setup := Some (priv_setup QemuPriv (\<lambda>im sec. lift_io (qemu_setup im sec)))\<rparr>"

definition rauc_handler :: "surroundings \<Rightarrow> 'p handler" where
  "rauc_handler u = (tool_handler ''rauc'' True (rauc_generate (su_opts u) (su_shell u)))
     \<lparr>h_parse := Some (image_parse rauc_parse), h_setup := Some (check_setup (\<lambda>im sec. rauc_setup sec))\<rparr>"

definition verity_handler :: "surroundings \<Rightarrow> 'p handler" where
  "verity_handler u = (tool_handler ''verity'' True (verity_generate (su_opts u) (su_shell u) (su_fiemap u)))
     \<lparr>h_parse := Some (image_parse verity_parse)\<rparr>"

definition verity_sig_handler :: "surroundings \<Rightarrow> 'p handler" where
  "verity_sig_handler u = (tool_handler ''verity-sig'' True (verity_sig_generate (su_opts u) (su_shell u) (su_fiemap u)))
     \<lparr>h_parse := Some (image_parse verity_sig_parse)\<rparr>"

definition vfat_handler :: "surroundings \<Rightarrow> 'p handler" where
  "vfat_handler u = (tool_handler ''vfat'' False (vfat_generate (su_opts u) (su_shell u) (su_fiemap u)))
     \<lparr>h_parse := Some (image_parse (\<lambda>im sec. Inr (vfat_parse im sec))), h_setup := Some (check_setup vfat_setup)\<rparr>"

section \<open>The table\<close>

definition handlers :: "surroundings \<Rightarrow> hpriv handler list" where
  "handlers u =
     [android_sparse_handler u,
      tool_handler ''cpio'' False (cpio_generate (su_opts u) (su_shell u)),
      tool_handler ''cramfs'' False (cram_generate (su_opts u) (su_shell u)),
      custom_handler u, erofs_handler u, ext_handler u ''ext2'', ext_handler u ''ext3'', ext_handler u ''ext4'',
      tool_handler ''f2fs'' False (f2fs_generate (su_opts u) (su_shell u) (su_fiemap u)),
      tool_handler ''btrfs'' False (btrfs_generate (su_opts u) (su_shell u) (su_fiemap u)),
      file_handler u, fit_handler u, fip_handler u, flash_handler u, hdimage_handler u,
      tool_handler ''iso'' False (iso_generate (su_opts u) (su_shell u)),
      jffs2_handler u, qemu_handler u, rauc_handler u,
      tool_handler ''squashfs'' False (squash_generate (su_opts u) (su_shell u)),
      tool_handler ''tar'' False (tar_generate (su_opts u) (su_shell u)),
      ubi_handler u, ubifs_handler u, verity_handler u, verity_sig_handler u, vfat_handler u]"

end
