(* ===== verification/HdLayout.thy ===== *)
theory HdLayout
  imports HdSetup
begin

text \<open>
  What a successful \<open>hdimage_setup\<close> promises of the layout: the overlap check, where partitions go, and
  the invariant of the main loop.
\<close>

section \<open>check_overlap\<close>

text \<open>Bytes that lie in a hole of the image of \<open>q\<close>, where the image is placed.\<close>

definition hole_in :: "image list \<Rightarrow> partition \<Rightarrow> nat set \<Rightarrow> bool" where
  "hole_in images q A \<longleftrightarrow> (\<exists>f child x. p_image q = Some f \<and> image_get images f = Some child \<and>
     x \<in> set (im_holes child) \<and>
     A \<subseteq> {unat (p_offset q) + unat (ext_start x)..<unat (p_offset q) + unat (ext_end x)})"

text \<open>What the overlap check promises of an earlier partition \<open>q\<close> and a later one \<open>p\<close>.\<close>

definition apart :: "image list \<Rightarrow> partition \<Rightarrow> partition \<Rightarrow> bool" where
  "apart images q p \<longleftrightarrow> covered q \<inter> covered p = {} \<or> hole_in images q (covered q \<inter> covered p)"

lemma no_wrap_le: "unat (p_offset p) + unat (p_size p) \<le> 2 ^ 62 \<Longrightarrow> no_wrap p"
  by (simp add: no_wrap_def)

lemma hole_covering_True:
  "image_has_hole_covering images im s e = Inr True \<Longrightarrow>
   \<exists>f child x. im = Some f \<and> image_get images f = Some child \<and> x \<in> set (im_holes child) \<and>
     ext_start x \<le> s \<and> e \<le> ext_end x"
  by (auto simp: image_has_hole_covering_def list_ex_iff split: option.splits)

lemma overlap_clear:
  assumes nw: "no_wrap p" "no_wrap q"
    and c: "p_offset p \<ge> partition_end q \<or> p_offset q \<ge> partition_end p"
  shows "covered q \<inter> covered p = {}"
  using c unat_partition_end [OF nw(1)] unat_partition_end [OF nw(2)]
  by (auto simp: covered_def word_le_nat_alt)

lemma overlap_hole:
  assumes nw: "no_wrap p" "no_wrap q"
    and c: "\<not> p_offset p \<ge> partition_end q" "\<not> p_offset q \<ge> partition_end p"
    and h: "image_has_hole_covering images (p_image q) (max_ull (p_offset p) (p_offset q) - p_offset q)
      (min_ull (partition_end p) (p_offset q + p_size q) - p_offset q) = Inr True"
  shows "hole_in images q (covered q \<inter> covered p)"
proof -
  obtain f child x where x: "p_image q = Some f" "image_get images f = Some child" "x \<in> set (im_holes child)"
    and s: "ext_start x \<le> max_ull (p_offset p) (p_offset q) - p_offset q"
    and e: "min_ull (partition_end p) (partition_end q) - p_offset q \<le> ext_end x"
    using hole_covering_True [OF h] unfolding partition_end_def [of q] by auto
  note u = unat_partition_end [OF nw(1)] unat_partition_end [OF nw(2)]
  have "unat (max_ull (p_offset p) (p_offset q) - p_offset q)
      = max (unat (p_offset p)) (unat (p_offset q)) - unat (p_offset q)"
    by (subst unat_sub64) simp_all
  moreover have "unat (min_ull (partition_end p) (partition_end q) - p_offset q)
      = min (unat (partition_end p)) (unat (partition_end q)) - unat (p_offset q)"
    using c u by (subst unat_sub64) (simp_all add: word_le_nat_alt)
  ultimately have "covered q \<inter> covered p
      \<subseteq> {unat (p_offset q) + unat (ext_start x)..<unat (p_offset q) + unat (ext_end x)}"
    using s e u c
    by (auto simp: covered_def word_le_nat_alt max_def min_def simp del: unat_max_ull unat_min_ull split: if_splits)
  then show ?thesis using x by (auto simp: hole_in_def)
qed

lemma check_overlap_ok:
  "check_overlap images p (pre @ p # post) = Inr u \<Longrightarrow> p_addr p \<notin> p_addr ` set pre \<Longrightarrow> no_wrap p \<Longrightarrow>
   (\<And>q. q \<in> set pre \<Longrightarrow> no_wrap q) \<Longrightarrow> q \<in> set pre \<Longrightarrow> apart images q p"
proof (induction pre)
  case (Cons r pre)
  have d: "p_addr p \<noteq> p_addr r" using Cons.prems(2) by auto
  have rest: "check_overlap images p (pre @ p # post) = Inr u \<and> apart images r p"
  proof (cases "p_offset p \<ge> partition_end r \<or> p_offset r \<ge> partition_end p")
    case True
    then show ?thesis using Cons.prems(1,3,4) d overlap_clear [of p r]
      by (auto simp: apart_def split: if_splits)
  next
    case False
    then show ?thesis using Cons.prems(1,3,4) d overlap_hole [of p r images]
      by (auto simp: apart_def Let_def rbind_ok split: if_splits)
  qed
  show ?case
  proof (cases "q = r")
    case False
    then show ?thesis using rest Cons.prems by (intro Cons.IH) auto
  qed (use rest in simp)
qed simp

section \<open>What a step leaves of a partition\<close>

definition same_id :: "partition \<Rightarrow> partition \<Rightarrow> bool" where
  "same_id p p' \<longleftrightarrow> p_addr p' = p_addr p \<and> p_logical p' = p_logical p \<and> p_image p' = p_image p \<and>
     p_name p' = p_name p \<and> p_imageoffset p' = p_imageoffset p \<and> p_partition_type p' = p_partition_type p \<and>
     p_fill p' = p_fill p"

lemma same_id_trans: "same_id a b \<Longrightarrow> same_id b c \<Longrightarrow> same_id a c"
  by (simp add: same_id_def)

lemma part_defaults_id: "same_id p (part_defaults h p)"
  by (simp add: same_id_def part_defaults_def Let_def)

lemma setup_part_uuids_id:
  "setup_part_uuids sc h p n g = Inr (p', n', g') \<Longrightarrow>
   same_id p p' \<and> p_offset p' = p_offset p \<and> p_size p' = p_size p \<and> p_align p' = p_align p \<and>
   p_in_partition_table p' = p_in_partition_table p \<and> p_autoresize p' = p_autoresize p"
  by (auto simp: setup_part_uuids_def same_id_def rbind_ok split: if_splits)

lemma place_part_id:
  "place_part h b p now = (p', now') \<Longrightarrow>
   same_id p p' \<and> p_size p' = p_size p \<and> p_align p' = p_align p \<and>
   p_in_partition_table p' = p_in_partition_table p \<and> p_autoresize p' = p_autoresize p"
  by (auto simp: place_part_def same_id_def Let_def split: if_splits)

lemma setup_part_autoresize_id:
  "setup_part_autoresize h s p r = Inr (p', r') \<Longrightarrow>
   same_id p p' \<and> p_offset p' = p_offset p \<and> p_align p' = p_align p \<and>
   p_in_partition_table p' = p_in_partition_table p \<and> (\<not> p_autoresize p \<longrightarrow> p_size p' = p_size p)"
  by (auto simp: setup_part_autoresize_def same_id_def Let_def split: if_splits)

lemma setup_part_image_id:
  "setup_part_image images p fz = Inr (p', fz') \<Longrightarrow>
   same_id p p' \<and> p_offset p' = p_offset p \<and> p_align p' = p_align p \<and>
   p_in_partition_table p' = p_in_partition_table p \<and> (p_image p = None \<longrightarrow> p_size p' = p_size p)"
  by (auto simp: setup_part_image_def same_id_def Let_def split: if_splits option.splits)


text \<open>A step of the loop that succeeds, taken apart.\<close>

lemma setup_part_ok:
  assumes "setup_part ev h pre post part0 st = Inr (p', st')"
  obtains part2 hybrid g part3 now part4 resized file_size where
    "check_part_options h (part_defaults h part0) = Inr ()"
    "setup_part_uuids (ev_shortcuts ev) h (part_defaults h part0) (st_hybrid st) (st_rng st) = Inr (part2, hybrid, g)"
    "place_part h (ev_backup ev) part2 (st_now st) = (part3, now)"
    "p_offset part3 mod p_align part3 = 0"
    "setup_part_autoresize h (ev_size ev) part3 (st_resized st) = Inr (part4, resized)"
    "setup_part_image (ev_images ev) part4 (st_file_size st) = Inr (p', file_size)"
    "check_part (ev_images ev) h pre post p' now = Inr ()"
    "st' = advance h p' \<lparr>st_file_size = file_size, st_now = now, st_hybrid = hybrid,
                          st_resized = resized, st_rng = g\<rparr>"
proof -
  obtain part2 hybrid g where o: "check_part_options h (part_defaults h part0) = Inr ()"
    and u: "setup_part_uuids (ev_shortcuts ev) h (part_defaults h part0) (st_hybrid st) (st_rng st) = Inr (part2, hybrid, g)"
    using assms by (auto simp: setup_part_def Let_def rbind_ok)
  obtain part3 now where pl: "place_part h (ev_backup ev) part2 (st_now st) = (part3, now)" by fastforce
  show thesis
    using assms by (auto simp: setup_part_def Let_def rbind_ok o u pl split: if_splits intro!: that [OF o u pl] del: mod_0_imp_dvd)
qed

lemma advance_simps [simp]:
  "st_now (advance h p st) = (if partition_end p > st_now st then partition_end p else st_now st)"
  "st_hybrid (advance h p st) = st_hybrid st" "st_resized (advance h p st) = st_resized st"
  "st_rng (advance h p st) = st_rng st"
  by (simp_all add: advance_def Let_def)

lemma setup_part_id:
  assumes "setup_part ev h pre post p st = Inr (p', st')"
  shows "same_id p p'" "p_offset p' mod p_align p' = 0" "p_align p' = p_align (part_defaults h p)"
    "p_in_partition_table p' = p_in_partition_table (part_defaults h p)"
    "p_image p = None \<Longrightarrow> \<not> p_autoresize p \<Longrightarrow> p_size p' = p_size p"
proof -
  obtain part2 hybrid g part3 now part4 resized file_size where s:
    "setup_part_uuids (ev_shortcuts ev) h (part_defaults h p) (st_hybrid st) (st_rng st) = Inr (part2, hybrid, g)"
    "place_part h (ev_backup ev) part2 (st_now st) = (part3, now)"
    "p_offset part3 mod p_align part3 = 0"
    "setup_part_autoresize h (ev_size ev) part3 (st_resized st) = Inr (part4, resized)"
    "setup_part_image (ev_images ev) part4 (st_file_size st) = Inr (p', file_size)"
    using assms by (rule setup_part_ok)
  note ids = part_defaults_id [of p h] setup_part_uuids_id [OF s(1)] place_part_id [OF s(2)]
    setup_part_autoresize_id [OF s(4)] setup_part_image_id [OF s(5)]
  show "same_id p p'" using ids by (simp add: same_id_def)
  show "p_offset p' mod p_align p' = 0" "p_align p' = p_align (part_defaults h p)"
    "p_in_partition_table p' = p_in_partition_table (part_defaults h p)" using ids s(3) by simp_all
  have "p_autoresize (part_defaults h p) = p_autoresize p" "p_size (part_defaults h p) = p_size p"
    by (simp_all add: part_defaults_def Let_def)
  then show "p_size p' = p_size p" if "p_image p = None" "\<not> p_autoresize p"
    using ids that by (simp add: same_id_def)
qed

section \<open>Where partitions go\<close>

text \<open>For a partition whose place and alignment are small, \<open>now\<close> does not decrease or wrap around.\<close>

lemma roundup_ge:
  assumes "unat v \<le> 2 ^ 63" "unat a \<le> 2 ^ 62" "a \<noteq> 0"
  shows "unat v \<le> unat (roundup v a)" "unat (roundup v a) < unat v + unat a"
proof -
  have a: "0 < unat a" using assms(3) unat_eq0 by blast
  have "unat v \<le> unat (roundup v a) \<and> unat (roundup v a) < unat v + unat a"
  proof (cases "v = 0")
    case True
    have "\<not> unat a dvd 2 ^ 64 \<Longrightarrow> 0 < 2 ^ 64 mod unat a" by (simp add: dvd_eq_mod_eq_0)
    then show ?thesis using a unfolding True roundup_zero [OF assms(3)] by (auto intro: diff_less)
  next
    case False
    have lt: "ceil_mult (unat v) (unat a) < unat v + unat a" by (rule ceil_mult_lt [OF a])
    then have "ceil_mult (unat v) (unat a) < 2 ^ 64" using assms(1,2) by simp
    then show ?thesis using lt ceil_mult_ge [OF a] roundup_unat [OF False assms(3)] by simp
  qed
  then show "unat v \<le> unat (roundup v a)" "unat (roundup v a) < unat v + unat a" by simp_all
qed

lemma place_part_logical:
  assumes "place_part h b p now = (p', now')" and "unat now \<le> 2 ^ 62" "unat (hd_align h) \<le> 2 ^ 62"
    "unat (p_align p) \<le> 2 ^ 62" "p_align p \<noteq> 0" "b = Some (p_addr p) \<Longrightarrow> \<not> p_logical p" and l: "p_logical p"
  shows "unat now + unat (hd_align h) \<le> unat now'"
proof -
  have "now' = roundup (now + hd_align h) (p_align p)"
    using assms(1,6) l by (auto simp: place_part_def Let_def split: if_splits)
  moreover have "unat (now + hd_align h) = unat now + unat (hd_align h)" using assms(2,3) by (simp add: unat_add64)
  ultimately show ?thesis using roundup_ge(1) [of "now + hd_align h" "p_align p"] assms(2-5) by simp
qed

lemma place_part_now:
  assumes "place_part h b p now = (p', now')" and "unat now \<le> 2 ^ 62" "unat (hd_align h) \<le> 2 ^ 62"
    "unat (p_align p) \<le> 2 ^ 62" "p_align p \<noteq> 0" "b = Some (p_addr p) \<Longrightarrow> \<not> p_logical p \<and> unat (p_size p) \<le> 2 ^ 62"
  shows "unat now \<le> unat now'"
proof (cases "p_logical p")
  case True
  then show ?thesis using place_part_logical [OF assms(1-5)] assms(6) by fastforce
next
  case False
  then have "now' = now \<or> b = Some (p_addr p) \<and> now' = now + p_size p"
    using assms(1) by (auto simp: place_part_def Let_def split: if_splits)
  then show ?thesis using assms(2,6) by (auto simp: unat_add64)
qed

text \<open>The backup of the GPT, when its place is computed, ends at or after \<open>now\<close>.\<close>

lemma place_part_backup:
  assumes "place_part h b p now = (p', now')" and "\<not> p_logical p" and "unat now \<le> 2 ^ 62"
    "unat (p_size p) \<le> 2 ^ 62" "unat (p_align p) \<le> 2 ^ 62" "p_align p \<noteq> 0" and nw: "no_wrap p'"
  shows "now' = now \<or> unat now' \<le> unat (p_offset p') + unat (p_size p')"
proof (cases "b = Some (p_addr p) \<and> p_offset p = 0")
  case False
  then have "now' = now" using assms(1,2) by (auto simp: place_part_def Let_def split: if_splits)
  then show ?thesis by simp
next
  case True
  let ?n = "now + p_size p"
  have n: "now' = ?n" "p_size p' = p_size p"
    and o: "p_offset p' = roundup ?n 4096 - p_size p \<or> p_offset p' = roundup ?n (p_align p)"
    using assms(1,2) True by (auto simp: place_part_def Let_def split: if_splits)
  have un: "unat ?n \<le> 2 ^ 63" using assms(3,4) by (simp add: unat_add64)
  have "unat ?n \<le> unat (p_offset p') + unat (p_size p')"
    using o
  proof
    assume "p_offset p' = roundup ?n 4096 - p_size p"
    then have "partition_end p' = roundup ?n 4096" by (simp add: partition_end_def n)
    then show ?thesis using roundup_ge(1) [OF un, of 4096] unat_partition_end [OF nw] by simp
  next
    assume "p_offset p' = roundup ?n (p_align p)"
    then show ?thesis using roundup_ge(1) [OF un assms(5,6)] by simp
  qed
  then show ?thesis using n by simp
qed

section \<open>The layout invariant\<close>

text \<open>
  \<open>layout\<close> is what holds of the partitions placed so far: they end at or before \<open>now\<close>, and any two of
  them, the extended partition aside, are apart; before a logical partition there is room for its boot
  record, \<open>al\<close> bytes that no earlier partition reaches.
\<close>

definition small :: "partition \<Rightarrow> bool" where
  "small p \<longleftrightarrow> unat (p_offset p) + unat (p_size p) \<le> 2 ^ 62 \<and> unat (p_align p) \<le> 2 ^ 62"

definition ebr_room :: "u64 \<Rightarrow> partition \<Rightarrow> partition \<Rightarrow> bool" where
  "ebr_room al q p \<longleftrightarrow> (p_logical p \<longrightarrow> unat (p_offset q) + unat (p_size q) + unat al \<le> unat (p_offset p))"

definition apart_unless :: "u64 \<Rightarrow> nat option \<Rightarrow> image list \<Rightarrow> partition \<Rightarrow> partition \<Rightarrow> bool" where
  "apart_unless al ext images q p \<longleftrightarrow>
     ext = Some (p_addr q) \<or> ext = Some (p_addr p) \<or> apart images q p \<and> ebr_room al q p"

definition layout :: "u64 \<Rightarrow> image list \<Rightarrow> nat option \<Rightarrow> partition list \<Rightarrow> u64 \<Rightarrow> bool" where
  "layout al images ext ps now \<longleftrightarrow> (\<forall>q \<in> set ps. unat (p_offset q) + unat (p_size q) \<le> unat now) \<and>
     sorted_wrt (apart_unless al ext images) ps \<and> unat now \<le> 2 ^ 62 \<and>
     (\<forall>q \<in> set ps. p_logical q \<longrightarrow> unat al \<le> unat (p_offset q))"

text \<open>The partitions that the setup itself adds: no image, not logical, not resized.\<close>

definition plain :: "partition \<Rightarrow> bool" where
  "plain p \<longleftrightarrow> p_image p = None \<and> \<not> p_autoresize p \<and> \<not> p_logical p"

lemma part_defaults_align:
  "hd_align h \<noteq> 0 \<Longrightarrow> p_align (part_defaults h p) \<noteq> 0"
  by (simp add: part_defaults_def Let_def)

lemma layout_step:
  assumes lay: "layout (hd_align h) (ev_images ev) ext pre (st_now st)"
    and s: "setup_part ev h pre post p st = Inr (p', st')"
    and new: "p_addr p \<notin> p_addr ` set pre"
    and al: "hd_align h \<noteq> 0" "unat (hd_align h) \<le> 2 ^ 62"
    and sm: "small p'" and bak: "ev_backup ev = Some (p_addr p) \<Longrightarrow> plain p"
  shows "layout (hd_align h) (ev_images ev) ext (pre @ [p']) (st_now st')"
proof -
  obtain part2 hybrid g part3 now part4 resized file_size where u:
    "setup_part_uuids (ev_shortcuts ev) h (part_defaults h p) (st_hybrid st) (st_rng st) = Inr (part2, hybrid, g)"
    and pl: "place_part h (ev_backup ev) part2 (st_now st) = (part3, now)"
    and ar: "setup_part_autoresize h (ev_size ev) part3 (st_resized st) = Inr (part4, resized)"
    and im: "setup_part_image (ev_images ev) part4 (st_file_size st) = Inr (p', file_size)"
    and ck: "check_part (ev_images ev) h pre post p' now = Inr ()"
    and st': "st' = advance h p' \<lparr>st_file_size = file_size, st_now = now, st_hybrid = hybrid,
                          st_resized = resized, st_rng = g\<rparr>"
    using s by (rule setup_part_ok)
  note id = setup_part_id [OF s] and i1 = part_defaults_id [of p h] and i2 = setup_part_uuids_id [OF u]
    and i3 = place_part_id [OF pl] and i4 = setup_part_autoresize_id [OF ar] and i5 = setup_part_image_id [OF im]
  have now0: "unat (st_now st) \<le> 2 ^ 62" using lay by (simp add: layout_def)
  have al2: "p_align part2 = p_align p'" "p_align part2 \<noteq> 0" "unat (p_align part2) \<le> 2 ^ 62"
    using i2 id(3) part_defaults_align [OF al(1), of p] sm by (simp_all add: small_def)
  have lg: "p_logical p' = p_logical p" "p_logical part2 = p_logical p" "p_addr part2 = p_addr p" "p_addr p' = p_addr p"
    using id(1) i1 i2 by (simp_all add: same_id_def)
  have pln: "plain part2 \<and> p_size part2 = p_size p' \<and> p_offset part3 = p_offset p' \<and> p_size part3 = p_size p'"
    if "ev_backup ev = Some (p_addr p)"
    using bak [OF that] i1 i2 i3 i4 i5 by (auto simp: plain_def same_id_def part_defaults_def Let_def)
  have sz: "unat (p_size part2) \<le> 2 ^ 62" if "ev_backup ev = Some (p_addr p)"
    using pln [OF that] sm by (simp add: small_def)
  have mono: "unat (st_now st) \<le> unat now"
    using place_part_now [OF pl now0 al(2) al2(3,2)] pln sz lg by (auto simp: plain_def)
  note nw = no_wrap_le [of p']
  have nwp: "no_wrap p'" using sm by (intro nw) (simp add: small_def)
  note e = unat_partition_end [OF nwp]
  have ends: "\<forall>q \<in> set pre. unat (p_offset q) + unat (p_size q) \<le> unat now"
    using lay mono by (auto simp: layout_def)
  have nwq: "no_wrap q" if "q \<in> set pre" for q
    using lay that by (intro no_wrap_le) (auto simp: layout_def)
  have ap: "apart (ev_images ev) q p'" if q: "q \<in> set pre" for q
  proof (cases "p_logical p'")
    case True
    then have "unat now \<le> unat (p_offset p')"
      using ck by (auto simp: check_part_def rbind_ok ensure_ok word_le_nat_alt not_less split: if_splits)
    then have "covered q \<inter> covered p' = {}" using ends q by (fastforce simp: covered_def)
    then show ?thesis by (simp add: apart_def)
  next
    case False
    then have "check_overlap (ev_images ev) p' (pre @ p' # post) = Inr ()"
      using ck by (auto simp: check_part_def rbind_ok split: if_splits)
    then show ?thesis using new lg(4) nwp nwq q by (intro check_overlap_ok [of _ p' pre post]) auto
  qed
  have lroom: "unat (st_now st) + unat (hd_align h) \<le> unat (p_offset p')" if "p_logical p'"
  proof -
    have nb: "ev_backup ev \<noteq> Some (p_addr part2)" using pln lg that by (auto simp: plain_def)
    have "unat (st_now st) + unat (hd_align h) \<le> unat now"
      by (rule place_part_logical [OF pl now0 al(2) al2(3,2)]) (use nb lg that in auto)
    moreover have "unat now \<le> unat (p_offset p')"
      using ck that by (auto simp: check_part_def rbind_ok word_le_nat_alt not_less split: if_splits)
    ultimately show ?thesis by linarith
  qed
  have room: "ebr_room (hd_align h) q p'" if q: "q \<in> set pre" for q
  proof -
    have "unat (p_offset q) + unat (p_size q) \<le> unat (st_now st)" using lay q by (simp add: layout_def)
    then show ?thesis using lroom by (auto simp: ebr_room_def)
  qed
  have bound: "unat now \<le> 2 ^ 62 \<or> unat now \<le> unat (partition_end p')"
  proof (cases "p_logical p'")
    case True
    then have "unat now \<le> unat (p_offset p')"
      using ck by (auto simp: check_part_def rbind_ok word_le_nat_alt not_less split: if_splits)
    then show ?thesis using sm by (simp add: small_def)
  next
    case False
    show ?thesis
    proof (cases "ev_backup ev = Some (p_addr p)")
      case True
      have "no_wrap part3" using nwp pln [OF True] by (simp add: no_wrap_def)
      then have "now = st_now st \<or> unat now \<le> unat (p_offset part3) + unat (p_size part3)"
        using place_part_backup [OF pl _ now0 sz [OF True] al2(3,2)] False lg by simp
      then show ?thesis using now0 e pln [OF True] by auto
    next
      case no: False
      then have "now = st_now st" using pl False lg by (auto simp: place_part_def Let_def split: if_splits)
      then show ?thesis using now0 by simp
    qed
  qed
  have n': "unat (st_now st') = max (unat now) (unat (partition_end p'))"
    by (simp add: st' word_less_nat_alt max_def)
  show ?thesis
    unfolding layout_def
  proof (intro conjI)
    show "\<forall>q \<in> set (pre @ [p']). unat (p_offset q) + unat (p_size q) \<le> unat (st_now st')"
      using ends e n' by auto
    show "sorted_wrt (apart_unless (hd_align h) ext (ev_images ev)) (pre @ [p'])"
      using lay ap room by (simp add: layout_def sorted_wrt_append apart_unless_def)
    show "unat (st_now st') \<le> 2 ^ 62" using bound sm e n' by (auto simp: small_def)
    show "\<forall>q \<in> set (pre @ [p']). p_logical q \<longrightarrow> unat (hd_align h) \<le> unat (p_offset q)"
      using lay lroom by (auto simp: layout_def)
  qed
qed


section \<open>The loop\<close>

definition resized_ext :: "nat option \<Rightarrow> partition \<Rightarrow> partition \<Rightarrow> bool" where
  "resized_ext ext q q' \<longleftrightarrow> q' = q \<or> ext = Some (p_addr q) \<and> (\<exists>s. q' = q\<lparr>p_size := s\<rparr>)"

lemma resized_ext_refl [simp]: "resized_ext ext q q"
  by (simp add: resized_ext_def)

lemma resized_ext_trans: "resized_ext ext a b \<Longrightarrow> resized_ext ext b c \<Longrightarrow> resized_ext ext a c"
  by (cases a; cases b; cases c) (auto simp: resized_ext_def)

lemma grow_extended_ok:
  assumes "grow_extended h p now ps = Inr ps'"
  obtains f where "ps' = map f ps" "\<And>q. resized_ext (hd_extended_partition h) q (f q)"
    "\<And>q. f q = q \<or> p_addr (f q) = p_addr q \<and> f q = q\<lparr>p_size := now - p_offset q\<rparr>"
proof (cases "p_logical p")
  case False
  then show thesis using assms that [of id] by (simp add: grow_extended_def)
next
  case True
  then obtain a where a: "hd_extended_partition h = Some a"
    "ps' = map (\<lambda>q. if p_addr q = a then q\<lparr>p_size := now - p_offset q\<rparr> else q) ps"
    using assms by (auto simp: grow_extended_def split: option.splits)
  show thesis by (rule that [OF a(2)]) (auto simp: resized_ext_def a(1))
qed

lemma grow_extended_layout:
  assumes lay: "layout (hd_align h) images (hd_extended_partition h) ps now" and g: "grow_extended h p now ps = Inr ps'"
  shows "layout (hd_align h) images (hd_extended_partition h) ps' now"
proof -
  obtain f where f: "ps' = map f ps" and r: "\<And>q. resized_ext (hd_extended_partition h) q (f q)"
    and v: "\<And>q. f q = q \<or> p_addr (f q) = p_addr q \<and> f q = q\<lparr>p_size := now - p_offset q\<rparr>"
    by (rule grow_extended_ok [OF g]) blast
  have e: "unat (p_offset (f q)) + unat (p_size (f q)) \<le> unat now" if q: "q \<in> set ps" for q
  proof -
    have "unat (p_offset q) + unat (p_size q) \<le> unat now" using lay q by (simp add: layout_def)
    then show ?thesis using v [of q] by (auto simp: unat_sub64)
  qed
  have "apart_unless (hd_align h) (hd_extended_partition h) images (f a) (f b)"
    if "apart_unless (hd_align h) (hd_extended_partition h) images a b" for a b
    using that r [of a] r [of b] by (auto simp: apart_unless_def resized_ext_def ebr_room_def)
  then have "sorted_wrt (apart_unless (hd_align h) (hd_extended_partition h) images) (map f ps)"
    using lay by (auto simp: layout_def sorted_wrt_map intro: sorted_wrt_mono_rel [rotated])
  moreover have "p_logical (f q) \<longrightarrow> unat (hd_align h) \<le> unat (p_offset (f q))" if "q \<in> set ps" for q
    using v [of q] lay that by (auto simp: layout_def)
  ultimately show ?thesis using e lay by (auto simp: f layout_def)
qed

lemma grow_extended_addr:
  "grow_extended h p now ps = Inr ps' \<Longrightarrow> map p_addr ps' = map p_addr ps"
  by (auto simp: grow_extended_def split: if_splits option.splits)

lemma setup_loop_keeps:
  "setup_loop ev h pre post st = Inr (ps, st') \<Longrightarrow> q \<in> set pre \<Longrightarrow>
   \<exists>q' \<in> set ps. resized_ext (hd_extended_partition h) q q'"
proof (induction post arbitrary: pre st q)
  case Nil
  then show ?case by (auto intro: resized_ext_refl)
next
  case (Cons p post)
  then obtain p' st1 pre' where g: "grow_extended h p' (st_now st1) (pre @ [p']) = Inr pre'"
    and l: "setup_loop ev h pre' post st1 = Inr (ps, st')" by (auto simp: rbind_ok)
  obtain f where f: "pre' = map f (pre @ [p'])" "\<And>q. resized_ext (hd_extended_partition h) q (f q)"
    by (rule grow_extended_ok [OF g]) blast
  have "f q \<in> set pre'" using Cons.prems(2) f(1) by simp
  from Cons.IH [OF l this] show ?case using f(2) [of q] resized_ext_trans by blast
qed

lemma setup_loop_layout:
  "setup_loop ev h pre post st = Inr (ps, st') \<Longrightarrow> layout (hd_align h) (ev_images ev) (hd_extended_partition h) pre (st_now st) \<Longrightarrow>
   distinct (map p_addr (pre @ post)) \<Longrightarrow> hd_align h \<noteq> 0 \<Longrightarrow> unat (hd_align h) \<le> 2 ^ 62 \<Longrightarrow>
   (\<And>p. p \<in> set post \<Longrightarrow> ev_backup ev = Some (p_addr p) \<Longrightarrow> plain p) \<Longrightarrow>
   (\<And>p. p \<in> set post \<Longrightarrow> hd_extended_partition h = Some (p_addr p) \<Longrightarrow> plain p \<and> p_size p = 0) \<Longrightarrow>
   (\<And>p. p \<in> set ps \<Longrightarrow> small p) \<Longrightarrow>
   layout (hd_align h) (ev_images ev) (hd_extended_partition h) ps (st_now st') \<and> map p_addr ps = map p_addr (pre @ post)"
proof (induction post arbitrary: pre st)
  case Nil
  then show ?case by simp
next
  case (Cons p post)
  from Cons.prems(1) obtain p' st1 pre' where s: "setup_part ev h pre post p st = Inr (p', st1)"
    and g: "grow_extended h p' (st_now st1) (pre @ [p']) = Inr pre'"
    and l: "setup_loop ev h pre' post st1 = Inr (ps, st')" by (auto simp: rbind_ok)
  obtain f where f: "pre' = map f (pre @ [p'])" "\<And>q. resized_ext (hd_extended_partition h) q (f q)"
    by (rule grow_extended_ok [OF g]) blast
  note id = setup_part_id [OF s]
  have a: "p_addr p' = p_addr p" using id(1) by (simp add: same_id_def)
  obtain q where q: "q \<in> set ps" "resized_ext (hd_extended_partition h) (f p') q"
    using setup_loop_keeps [OF l, of "f p'"] f(1) by auto
  have rq: "resized_ext (hd_extended_partition h) p' q" using resized_ext_trans f(2) q(2) by blast
  have sm: "small p'"
  proof (cases "hd_extended_partition h = Some (p_addr p)")
    case True
    then have "plain p" "p_size p = 0" using Cons.prems(7) by auto
    then have "p_size p' = 0" using id(5) by (simp add: plain_def)
    then show ?thesis using rq Cons.prems(8) [OF q(1)] by (auto simp: resized_ext_def small_def)
  next
    case False
    then show ?thesis using rq a Cons.prems(8) [OF q(1)] by (auto simp: resized_ext_def)
  qed
  have new: "p_addr p \<notin> p_addr ` set pre" using Cons.prems(3) by auto
  have "layout (hd_align h) (ev_images ev) (hd_extended_partition h) (pre @ [p']) (st_now st1)"
    using Cons.prems(6) by (intro layout_step [OF Cons.prems(2) s new Cons.prems(4,5) sm]) simp
  then have lay: "layout (hd_align h) (ev_images ev) (hd_extended_partition h) pre' (st_now st1)"
    by (rule grow_extended_layout [OF _ g])
  have ad: "map p_addr pre' = map p_addr (pre @ [p])" using grow_extended_addr [OF g] a by simp
  then have "map p_addr (pre' @ post) = map p_addr (pre @ p # post)" by simp
  then show ?case
    using Cons.IH [OF l lay _ Cons.prems(4,5)] Cons.prems(3,6,7,8) by (metis list.set_intros(2))
qed


section \<open>Before the loop\<close>

lemma fresh_addr_less: "p \<in> set parts \<Longrightarrow> p_addr p < fresh_addr parts"
proof -
  have "p \<in> set parts \<Longrightarrow> p_addr p \<le> foldr (\<lambda>p m. max (p_addr p) m) parts 0"
    by (induction parts) auto
  then show "p \<in> set parts \<Longrightarrow> p_addr p < fresh_addr parts" by (simp add: fresh_addr_def)
qed

lemma fake_partition_simps [simp]:
  "p_addr (fake_partition a n off s) = a" "plain (fake_partition a n off s)"
  "p_size (fake_partition a n off s) = s" "p_in_partition_table (fake_partition a n off s) = False"
  "p_offset (fake_partition a n off s) = off" "p_name (fake_partition a n off s) = n"
  "p_logical (fake_partition a n off s) = False" "p_partition_type (fake_partition a n off s) = 0"
  by (simp_all add: fake_partition_def zero_partition_def plain_def)

lemma extended_partition_simps [simp]:
  "p_addr (extended_partition h a p) = a" "plain (extended_partition h a p)"
  "p_size (extended_partition h a p) = 0" "p_in_partition_table (extended_partition h a p)"
  "p_logical (extended_partition h a p) = False"
  by (simp_all add: extended_partition_def plain_def fake_partition_def zero_partition_def)

text \<open>One step of the loop that finds the logical partitions.\<close>

lemma logical_loop_Cons:
  assumes "logical_loop h idx addr (count, entries, in_ext, found) (part # ps) = Inr r"
  obtains (skip) r' where "\<not> p_in_partition_table part" "r = part # r'"
      "logical_loop h idx addr (count, entries, in_ext, found) ps = Inr r'"
  | (here) part' entries' in_ext' r' where "p_in_partition_table part" "idx = Suc count"
      "r = extended_partition h addr part # part' # r'"
      "part' = part \<and> entries' = Suc (Suc entries) \<or> part' = part\<lparr>p_logical := True\<rparr> \<and> entries' = Suc entries"
      "entries' \<le> 4" "logical_loop h idx addr (Suc count, entries', in_ext', True) ps = Inr r'"
  | (other) part' entries' in_ext' r' where "p_in_partition_table part" "idx \<noteq> Suc count"
      "r = part' # r'"
      "part' = part \<and> entries' = Suc entries \<or> part' = part\<lparr>p_logical := True\<rparr> \<and> entries' = entries"
      "entries' \<le> 4" "logical_loop h idx addr (Suc count, entries', in_ext', found) ps = Inr r'"
proof (cases "p_in_partition_table part")
  case False
  then show thesis using assms by (auto simp: rbind_ok intro: skip)
next
  case tab: True
  show thesis
  proof (cases "idx = Suc count")
    case True
    then show thesis using assms tab
      by (auto simp: rbind_ok Let_def not_less split: if_splits intro: here)
  next
    case False
    then show thesis using assms tab
      by (auto simp: rbind_ok Let_def not_less split: if_splits intro: other)
  qed
qed

lemma logical_loop_addr:
  "logical_loop h idx addr (count, entries, in_ext, found) parts = Inr ps \<Longrightarrow>
   addr \<notin> p_addr ` set parts \<Longrightarrow>
   filter (\<lambda>a. a \<noteq> addr) (map p_addr ps) = map p_addr parts \<and>
   length (filter (\<lambda>a. a = addr) (map p_addr ps)) \<le> (if idx \<le> count then 0 else 1) \<and>
   (\<forall>p \<in> set ps. p_addr p = addr \<longrightarrow> plain p \<and> p_size p = 0)"
proof (induction parts arbitrary: count entries in_ext found ps)
  case (Cons part parts)
  from Cons.prems(1) show ?case
  proof (cases rule: logical_loop_Cons)
    case (skip r')
    then show ?thesis using Cons.IH [OF skip(3)] Cons.prems(2) by auto
  next
    case (here part' entries' in_ext' r')
    have "p_addr part' = p_addr part" using here(4) by auto
    then show ?thesis using Cons.IH [OF here(6)] Cons.prems(2) here by auto
  next
    case (other part' entries' in_ext' r')
    have "p_addr part' = p_addr part" using other(4) by auto
    then show ?thesis using Cons.IH [OF other(6)] Cons.prems(2) other by auto
  qed
qed simp

lemma logical_loop_entries:
  "logical_loop h idx addr (count, entries, in_ext, found) parts = Inr ps \<Longrightarrow> entries \<le> 4 \<Longrightarrow>
   entries + length (filter (\<lambda>p. p_in_partition_table p \<and> \<not> p_logical p) ps) \<le> 4"
proof (induction parts arbitrary: count entries in_ext found ps)
  case (Cons part parts)
  from Cons.prems(1) show ?case
  proof (cases rule: logical_loop_Cons)
    case (skip r')
    then show ?thesis using Cons.IH [OF skip(3)] Cons.prems(2) by simp
  next
    case (here part' entries' in_ext' r')
    then show ?thesis using Cons.IH [OF here(6) here(5)] by auto
  next
    case (other part' entries' in_ext' r')
    then show ?thesis using Cons.IH [OF other(6) other(5)] by auto
  qed
qed simp

lemma distinct_filter_insert:
  "distinct (filter (\<lambda>a. a \<noteq> x) xs) \<Longrightarrow> length (filter (\<lambda>a. a = x) xs) \<le> 1 \<Longrightarrow> distinct xs"
  by (induction xs) (auto simp: filter_empty_conv split: if_splits)

text \<open>The list and the record that the loop gets.\<close>

definition ext_ok :: "hdimage \<Rightarrow> partition list \<Rightarrow> bool" where
  "ext_ok h ps \<longleftrightarrow> distinct (map p_addr ps) \<and>
     (\<forall>p \<in> set ps. hd_extended_partition h = Some (p_addr p) \<longrightarrow> plain p \<and> p_size p = 0) \<and>
     (\<forall>a. hd_extended_partition h = Some a \<longrightarrow> a \<in> p_addr ` set ps)"

lemma setup_logical_cases:
  assumes "setup_logical_partitions h parts = Inr (h', ps)"
  defines "idx \<equiv> ensure_extended_partition_index h parts"
  defines "k \<equiv> h\<lparr>hd_extended_partition_index := idx\<rparr>" and "addr \<equiv> fresh_addr parts"
  obtains (same) "hd_table_type h \<noteq> TYPE_MBR \<or> idx = 0" "ps = parts" "h' = h \<or> h' = k"
  | (loop) "logical_loop k (unat idx) addr (0, 0, False, False) parts = Inr ps"
    "h' = k \<and> \<not> list_ex (\<lambda>p. p_addr p = addr) ps \<or>
     h' = k\<lparr>hd_extended_partition := Some addr\<rparr> \<and> list_ex (\<lambda>p. p_addr p = addr) ps"
proof (cases "hd_table_type h \<noteq> TYPE_MBR \<or> idx = 0")
  case True
  show thesis
  proof (rule same [OF True])
    show "ps = parts" "h' = h \<or> h' = k" using assms(1) True
      by (auto simp: setup_logical_partitions_def Let_def k_def idx_def split: if_splits)
  qed
next
  case False
  have n4: "\<not> hd_extended_partition_index h > 4"
    by (rule notI) (use assms(1) in \<open>simp add: setup_logical_partitions_def\<close>)
  have "rbind (logical_loop k (unat idx) addr (0, 0, False, False) parts) (\<lambda>ps.
      Inr (if list_ex (\<lambda>p. p_addr p = addr) ps then k\<lparr>hd_extended_partition := Some addr\<rparr> else k, ps))
    = Inr (h', ps)"
    using assms(1) False n4
    by (simp only: setup_logical_partitions_def Let_def if_False de_Morgan_disj idx_def k_def addr_def)
  then show thesis
  proof (rule rbindE)
    fix x
    assume l: "logical_loop k (unat idx) addr (0, 0, False, False) parts = Inr x"
      and e: "Inr (if list_ex (\<lambda>p. p_addr p = addr) x then k\<lparr>hd_extended_partition := Some addr\<rparr> else k, x)
        = (Inr (h', ps) :: _ result)"
    have "x = ps" using e by simp
    moreover have "h' = (if list_ex (\<lambda>p. p_addr p = addr) x then k\<lparr>hd_extended_partition := Some addr\<rparr> else k)"
      using e unfolding sum.inject prod.inject by (rule conjunct1 [THEN sym])
    ultimately show thesis using l by (intro loop) (auto split: if_splits)
  qed
qed

lemma setup_logical_ok:
  assumes s: "setup_logical_partitions h parts = Inr (h', ps)" and d: "distinct (map p_addr parts)"
    and n: "hd_extended_partition h = None"
  shows "ext_ok h' ps" "hd_align h' = hd_align h" "hd_table_type h' = hd_table_type h"
    "hd_gpt_location h' = hd_gpt_location h"
    "hd_table_type h = TYPE_MBR \<Longrightarrow> length (filter (\<lambda>p. p_in_partition_table p \<and> \<not> p_logical p) ps) \<le> 4"
proof -
  have "ext_ok h' ps \<and> hd_align h' = hd_align h \<and> hd_table_type h' = hd_table_type h \<and>
    hd_gpt_location h' = hd_gpt_location h \<and> (hd_table_type h = TYPE_MBR \<longrightarrow>
      length (filter (\<lambda>p. p_in_partition_table p \<and> \<not> p_logical p) ps) \<le> 4)"
    using s
  proof (cases rule: setup_logical_cases)
    case same
    have "length (filter (\<lambda>p. p_in_partition_table p \<and> \<not> p_logical p) parts) \<le> 4"
      if "ensure_extended_partition_index h parts = 0"
    proof -
      have "length (filter p_in_partition_table parts) \<le> 4"
        using that by (auto simp: ensure_extended_partition_index_def split: if_splits)
      moreover have "length (filter (\<lambda>p. \<not> p_logical p) (filter p_in_partition_table parts))
          \<le> length (filter p_in_partition_table parts)" by (rule length_filter_le)
      ultimately show ?thesis by (simp add: conj_commute)
    qed
    then show ?thesis using same n d by (auto simp: ext_ok_def)
  next
    case loop
    have "fresh_addr parts \<notin> p_addr ` set parts" using fresh_addr_less by fastforce
    note a = logical_loop_addr [OF loop(1) this] and e = logical_loop_entries [OF loop(1)]
    have "distinct (filter (\<lambda>a. a \<noteq> fresh_addr parts) (map p_addr ps))" using a d by simp
    moreover have "length (filter (\<lambda>a. a = fresh_addr parts) (map p_addr ps)) \<le> 1"
      using a by (cases "unat (ensure_extended_partition_index h parts) \<le> 0") simp_all
    ultimately have "distinct (map p_addr ps)" by (rule distinct_filter_insert)
    then have "ext_ok h' ps" using a loop(2) n by (auto simp: ext_ok_def list_ex_iff)
    then show ?thesis using loop(2) e by auto
  qed
  then show "ext_ok h' ps" "hd_align h' = hd_align h" "hd_table_type h' = hd_table_type h"
    "hd_gpt_location h' = hd_gpt_location h"
    "hd_table_type h = TYPE_MBR \<Longrightarrow> length (filter (\<lambda>p. p_in_partition_table p \<and> \<not> p_logical p) ps) \<le> 4"
    by simp_all
qed

lemma setup_uuid_ok:
  "setup_uuid cfg h g = Inr (h', g') \<Longrightarrow> \<exists>u s. h' = h\<lparr>hd_disk_uuid := u, hd_disksig := s\<rparr>"
  unfolding setup_uuid_def by (elim rbindE case_prodE') (simp only: sum.inject prod.inject, blast)

lemma choose_align_ok:
  "choose_align t a0 = Inr a \<Longrightarrow> a \<noteq> 0 \<and> (t \<noteq> TYPE_NONE \<longrightarrow> a mod 512 = 0)"
  by (auto simp: choose_align_def Let_def split: if_splits)

lemma start_setup_steps:
  assumes "start_setup cfg a0 loc parts g = Inr (h, ps, g')"
  obtains t a h1 h2 g1 where "choose_table_type cfg = Inr t" "choose_align t a0 = Inr a"
    "setup_logical_partitions
              \<lparr>hd_extended_partition_index = cf_extended_partition cfg, hd_extended_partition = None,
               hd_align = a, hd_disksig = 0, hd_disk_uuid = [], hd_table_type = t,
               hd_gpt_location = loc, hd_gpt_no_backup = cf_gpt_no_backup cfg, hd_fill = cf_fill cfg,
               hd_file_size = 0\<rparr> parts = Inr (h1, ps)"
    "setup_uuid cfg h1 g = Inr (h2, g1)"
    "h = (if hd_gpt_location h2 = 0 then h2\<lparr>hd_gpt_location := 2 * 512\<rparr> else h2)"
  using assms unfolding start_setup_def
  by (elim rbindE case_prodE') (simp only: sum.inject prod.inject)

lemma start_setup_ok:
  assumes "start_setup cfg a0 loc parts g = Inr (h, ps, g')" and "distinct (map p_addr parts)"
  shows "ext_ok h ps" "hd_align h \<noteq> 0" "hd_table_type h \<noteq> TYPE_NONE \<Longrightarrow> hd_align h mod 512 = 0"
    "hd_gpt_location h \<noteq> 0"
    "hd_table_type h = TYPE_MBR \<Longrightarrow> length (filter (\<lambda>p. p_in_partition_table p \<and> \<not> p_logical p) ps) \<le> 4"
proof -
  obtain t a h1 h2 g1 where t: "choose_table_type cfg = Inr t" and a: "choose_align t a0 = Inr a"
    and l: "setup_logical_partitions
              \<lparr>hd_extended_partition_index = cf_extended_partition cfg, hd_extended_partition = None,
               hd_align = a, hd_disksig = 0, hd_disk_uuid = [], hd_table_type = t,
               hd_gpt_location = loc, hd_gpt_no_backup = cf_gpt_no_backup cfg, hd_fill = cf_fill cfg,
               hd_file_size = 0\<rparr> parts = Inr (h1, ps)"
    and u: "setup_uuid cfg h1 g = Inr (h2, g1)"
    and h: "h = (if hd_gpt_location h2 = 0 then h2\<lparr>hd_gpt_location := 2 * 512\<rparr> else h2)"
    using assms(1) by (rule start_setup_steps)
  have h2: "hd_extended_partition h = hd_extended_partition h1" "hd_align h = hd_align h1"
    "hd_table_type h = hd_table_type h1" "hd_gpt_location h \<noteq> 0"
    using setup_uuid_ok [OF u] h by auto
  note sl = setup_logical_ok [OF l assms(2)]
  show "ext_ok h ps" using sl(1) h2(1) by (simp add: ext_ok_def)
  show "hd_align h \<noteq> 0" "hd_gpt_location h \<noteq> 0" using h2 sl(2) choose_align_ok [OF a] by auto
  show "hd_table_type h \<noteq> TYPE_NONE \<Longrightarrow> hd_align h mod 512 = 0" using h2 sl(2,3) choose_align_ok [OF a] by simp
  show "hd_table_type h = TYPE_MBR \<Longrightarrow> length (filter (\<lambda>p. p_in_partition_table p \<and> \<not> p_logical p) ps) \<le> 4"
    using h2 sl(3,5) by simp
qed


section \<open>What holds of every partition\<close>

lemma setup_loop_elem:
  "setup_loop ev h pre post st = Inr (ps, st') \<Longrightarrow> p \<in> set post \<Longrightarrow>
   \<exists>pre1 post1 st1 p' st2 q. setup_part ev h pre1 post1 p st1 = Inr (p', st2) \<and> q \<in> set ps \<and>
     resized_ext (hd_extended_partition h) p' q"
proof (induction post arbitrary: pre st)
  case (Cons a post)
  from Cons.prems(1) obtain a' st1 pre' where s: "setup_part ev h pre post a st = Inr (a', st1)"
    and g: "grow_extended h a' (st_now st1) (pre @ [a']) = Inr pre'"
    and l: "setup_loop ev h pre' post st1 = Inr (ps, st')" by (auto simp: rbind_ok)
  show ?case
  proof (cases "p = a")
    case False
    then show ?thesis using Cons.IH [OF l] Cons.prems(2) by simp
  next
    case True
    obtain f where f: "pre' = map f (pre @ [a'])" "\<And>q. resized_ext (hd_extended_partition h) q (f q)"
      by (rule grow_extended_ok [OF g]) blast
    then obtain q where q: "q \<in> set ps" "resized_ext (hd_extended_partition h) (f a') q"
      using setup_loop_keeps [OF l, of "f a'"] by auto
    then have "resized_ext (hd_extended_partition h) a' q" using f(2) resized_ext_trans by blast
    then show ?thesis using s q(1) True by blast
  qed
qed simp

lemma setup_loop_all:
  assumes step: "\<And>pre post p st p' st'. setup_part ev h pre post p st = Inr (p', st') \<Longrightarrow> Q p'"
    and stable: "\<And>p p'. Q p \<Longrightarrow> resized_ext (hd_extended_partition h) p p' \<Longrightarrow> Q p'"
  shows "setup_loop ev h pre post st = Inr (ps, st') \<Longrightarrow> (\<forall>p \<in> set pre. Q p) \<Longrightarrow> (\<forall>p \<in> set ps. Q p)"
proof (induction post arbitrary: pre st)
  case (Cons a post)
  from Cons.prems(1) obtain a' st1 pre' where s: "setup_part ev h pre post a st = Inr (a', st1)"
    and g: "grow_extended h a' (st_now st1) (pre @ [a']) = Inr pre'"
    and l: "setup_loop ev h pre' post st1 = Inr (ps, st')" by (auto simp: rbind_ok)
  obtain f where f: "pre' = map f (pre @ [a'])" "\<And>q. resized_ext (hd_extended_partition h) q (f q)"
    by (rule grow_extended_ok [OF g]) blast
  have "\<forall>p \<in> set pre'. Q p" using Cons.prems(2) step [OF s] stable f by auto
  then show ?case by (rule Cons.IH [OF l])
qed simp

text \<open>What the tables read of a partition that the loop does not change.\<close>

definition key :: "partition \<Rightarrow> nat \<times> bool \<times> bool \<times> bool" where
  "key p = (p_addr p, p_in_partition_table p, p_logical p, p_partition_type p = 0)"

lemma setup_part_key:
  "setup_part ev h pre post p st = Inr (p', st') \<Longrightarrow> hd_table_type h \<noteq> TYPE_NONE \<Longrightarrow> key p' = key p"
  using setup_part_id(1,4) [of ev h pre post p st p' st']
  by (simp add: key_def same_id_def part_defaults_def Let_def)

lemma setup_part_hybrid:
  assumes "setup_part ev h pre post p st = Inr (p', st')" and t: "has_gpt (hd_table_type h)"
  shows "st_hybrid st' = st_hybrid st + (if p_in_partition_table p \<and> p_partition_type p \<noteq> 0 then 1 else 0)"
proof -
  obtain part2 hybrid g where
    "setup_part_uuids (ev_shortcuts ev) h (part_defaults h p) (st_hybrid st) (st_rng st) = Inr (part2, hybrid, g)"
    and "st_hybrid st' = hybrid" using assms(1) by (rule setup_part_ok) auto
  then show ?thesis using t
    by (auto simp: setup_part_uuids_def rbind_ok part_defaults_def Let_def split: if_splits)
qed

lemma setup_loop_keys:
  "setup_loop ev h pre post st = Inr (ps, st') \<Longrightarrow> hd_table_type h \<noteq> TYPE_NONE \<Longrightarrow>
   map key ps = map key (pre @ post) \<and>
   (has_gpt (hd_table_type h) \<longrightarrow> st_hybrid st' =
      st_hybrid st + length (filter (\<lambda>p. p_in_partition_table p \<and> p_partition_type p \<noteq> 0) post))"
proof (induction post arbitrary: pre st)
  case (Cons a post)
  from Cons.prems(1) obtain a' st1 pre' where s: "setup_part ev h pre post a st = Inr (a', st1)"
    and g: "grow_extended h a' (st_now st1) (pre @ [a']) = Inr pre'"
    and l: "setup_loop ev h pre' post st1 = Inr (ps, st')" by (auto simp: rbind_ok)
  obtain f where f: "pre' = map f (pre @ [a'])" "\<And>q. resized_ext (hd_extended_partition h) q (f q)"
    by (rule grow_extended_ok [OF g]) blast
  have "key (f q) = key q" for q using f(2) [of q] by (auto simp: resized_ext_def key_def)
  then have "map key pre' = map key (pre @ [a])" using f(1) setup_part_key [OF s Cons.prems(2)] by simp
  then show ?case using Cons.IH [OF l Cons.prems(2)] setup_part_hybrid [OF s] by auto
qed simp

lemma filter_by_key:
  "map key ps = map key qs \<Longrightarrow> length (filter (\<lambda>p. Q (key p)) ps) = length (filter (\<lambda>p. Q (key p)) qs)"
  by (metis (no_types, lifting) filter_map length_map comp_def filter_cong)

section \<open>The whole setup\<close>

lemma setup_layout_steps:
  assumes "setup_layout images shortcuts cfg a0 loc isize parts g = Inr (h, isize', ps, g')"
  obtains h0 parts1 g1 fakes now backup st where "start_setup cfg a0 loc parts g = Inr (h0, parts1, g1)"
    "table_partitions h0 isize (fresh_addr parts1) = (fakes, now, backup)"
    "setup_loop \<lparr>ev_images = images, ev_shortcuts = shortcuts, ev_size = isize, ev_backup = backup\<rparr> h0
              [] (parts1 @ fakes)
              \<lparr>st_file_size = now, st_now = now, st_hybrid = 0, st_resized = False, st_rng = g1\<rparr> = Inr (ps, st)"
    "finish_setup h0 isize st = Inr (h, isize')"
proof -
  let ?ev = "\<lambda>b. \<lparr>ev_images = images, ev_shortcuts = shortcuts, ev_size = isize, ev_backup = b\<rparr>"
  let ?st = "\<lambda>now g1. \<lparr>st_file_size = now, st_now = now, st_hybrid = 0, st_resized = False, st_rng = g1\<rparr>"
  let ?fin = "\<lambda>h0 (parts2, st). rbind (finish_setup h0 isize st) (\<lambda>(h', isize'). Inr (h', isize', parts2, st_rng st))"
  let ?run = "\<lambda>(h0, parts1, g1). let (fakes, now, backup) = table_partitions h0 isize (fresh_addr parts1) in
     rbind (setup_loop (?ev backup) h0 [] (parts1 @ fakes) (?st now g1)) (?fin h0)"
  obtain x where x: "start_setup cfg a0 loc parts g = Inr x" "?run x = Inr (h, isize', ps, g')"
    by (rule rbindE [OF assms [unfolded setup_layout_def]])
  obtain h0 parts1 g1 where p: "x = (h0, parts1, g1)" by (metis prod_cases3)
  obtain fakes now backup where t: "table_partitions h0 isize (fresh_addr parts1) = (fakes, now, backup)"
    by (metis prod_cases3)
  have "rbind (setup_loop (?ev backup) h0 [] (parts1 @ fakes) (?st now g1)) (?fin h0) = Inr (h, isize', ps, g')"
    using x(2) unfolding p prod.case t Let_def .
  then obtain y where y: "setup_loop (?ev backup) h0 [] (parts1 @ fakes) (?st now g1) = Inr y"
    "?fin h0 y = Inr (h, isize', ps, g')" by (rule rbindE)
  obtain parts2 st where yy: "y = (parts2, st)" by fastforce
  obtain z where z: "finish_setup h0 isize st = Inr z"
    "(case z of (h', isize') \<Rightarrow> Inr (h', isize', parts2, st_rng st)) = (Inr (h, isize', ps, g') :: _ result)"
    by (rule rbindE [OF y(2) [unfolded yy prod.case]])
  have "z = (h, isize')" "parts2 = ps" using z(2) by (cases z; simp)+
  then show thesis using that [OF x(1) [unfolded p] t] y(1) z(1) yy by simp
qed

lemma finish_setup_ok:
  assumes "finish_setup h0 isize st = Inr (h, isize')"
  shows "st_hybrid st \<le> 3" "hd_table_type h0 = TYPE_HYBRID \<Longrightarrow> 0 < st_hybrid st"
    "\<exists>fs. h = h0\<lparr>hd_file_size := fs\<rparr>" "unat (st_now st) \<le> unat isize'" "isize \<noteq> 0 \<Longrightarrow> isize' = isize"
  using assms by (auto simp: finish_setup_def Let_def word_le_nat_alt word_less_nat_alt unat_eq_0 split: if_splits)

end
