(* ===== verification/HdSetupProps.thy ===== *)
theory HdSetupProps
  imports HdLayout
begin

text \<open>
  The properties of \<open>hdimage_setup\<close>: no overlap, everything within the image, the tables reserved,
  alignment, room in the MBR, complete GPT entries. The first section has the layouts that show that the
  hypotheses can hold.
\<close>

section \<open>Concrete layouts\<close>

definition demo_cfg :: "string \<Rightarrow> hd_cfg" where
  "demo_cfg t = \<lparr>cf_align = None, cf_disk_signature = None, cf_disk_uuid = None, cf_partition_table = None,
     cf_extended_partition = 0, cf_partition_table_type = t, cf_gpt = None, cf_gpt_location = None,
     cf_gpt_no_backup = False, cf_fill = False\<rparr>"

definition demo_part :: "nat \<Rightarrow> partition" where
  "demo_part a = (zero_partition a)\<lparr>p_in_partition_table := True, p_image := Some ''a'', p_name := ''p''\<rparr>"

lemmas eval_setup = setup_layout_def start_setup_def choose_table_type_def choose_align_def
  setup_logical_partitions_def ensure_extended_partition_index_def setup_uuid_def table_partitions_def
  fresh_addr_def setup_part_def part_defaults_def check_part_options_def setup_part_uuids_def place_part_def
  setup_part_autoresize_def setup_part_image_def check_part_def advance_def grow_extended_def finish_setup_def
  image_has_hole_covering_def fake_partition_def zero_partition_def partition_end_def extended_partition_def
  demo_cfg_def demo_image_def demo_part_def Let_def case_prod_beta roundup_def max_ull_def min_ull_def
  PARTITION_TYPE_EXTENDED_def GPT_SECTORS_def

lemma mbr2: "\<exists>h g'. setup_layout [demo_image ''a'' 1000] [] (demo_cfg ''mbr'') 0 0 0 [demo_part 1, demo_part 2] demo_rng
   = Inr (h, 2560, [(demo_part 1)\<lparr>p_offset := 512, p_size := 1024, p_align := 512\<rparr>,
       (demo_part 2)\<lparr>p_offset := 1536, p_size := 1024, p_align := 512\<rparr>, fake_partition 3 ''[MBR]'' 440 72], g')
   \<and> hd_align h = 512 \<and> hd_table_type h = TYPE_MBR \<and> hd_extended_partition h = None"
  by (simp add: eval_setup)

lemma resolve_L: "resolve_type [] None = Inr ''0fc63daf-8483-4772-8e79-3d69d8477de4''"
  by code_simp

lemma mbr5: "\<exists>h ps g'. setup_layout [demo_image ''a'' 1000] [] (demo_cfg ''mbr'') 0 0 0
     [demo_part 1, demo_part 2, demo_part 3, demo_part 4, demo_part 5] demo_rng
   = Inr (h, 6656, ps, g') \<and> hd_table_type h = TYPE_MBR"
  by (simp add: eval_setup)

lemma gpt2: "\<exists>h ps g'. setup_layout [demo_image ''a'' 1000] [] (demo_cfg ''gpt'') 0 0 1048576
     [demo_part 1, demo_part 2] demo_rng
   = Inr (h, 1048576, ps, g') \<and> hd_table_type h = TYPE_GPT \<and> length ps = 6"
  by (simp add: eval_setup resolve_L)

section \<open>The partitions of the tables\<close>

lemma table_partitions_ok:
  assumes "table_partitions h isize addr = (fakes, now, backup)"
  shows "\<forall>p \<in> set fakes. plain p \<and> addr \<le> p_addr p \<and> \<not> p_in_partition_table p" "distinct (map p_addr fakes)"
    "hd_table_type h = TYPE_NONE \<Longrightarrow> now = 0 \<and> fakes = [] \<and> backup = None"
    "hd_table_type h \<noteq> TYPE_NONE \<Longrightarrow> fake_partition addr ''[MBR]'' 440 72 \<in> set fakes"
    "hd_table_type h \<noteq> TYPE_NONE \<Longrightarrow> \<not> has_gpt (hd_table_type h) \<Longrightarrow> now = 512 \<and> backup = None"
    "has_gpt (hd_table_type h) \<Longrightarrow> fake_partition (addr + 1) ''[GPT header]'' 512 512 \<in> set fakes"
    "has_gpt (hd_table_type h) \<Longrightarrow> fake_partition (addr + 2) ''[GPT array]'' (hd_gpt_location h) 16384 \<in> set fakes \<and>
       now = hd_gpt_location h + 16384"
    "has_gpt (hd_table_type h) \<Longrightarrow> fake_partition (addr + 3) ''[GPT backup]''
       (if isize \<noteq> 0 then isize - 16896 else 0) 16896 \<in> set fakes \<and> backup = Some (addr + 3)"
  using assms by (auto simp: table_partitions_def Let_def partition_end_def fake_partition_def zero_partition_def
      GPT_SECTORS_def plain_def split: if_splits)

text \<open>A partition of the setup with a given offset stays where it is.\<close>

lemma setup_part_fixed:
  assumes s: "setup_part ev h pre post p st = Inr (p', st')" and p: "plain p" "p_offset p \<noteq> 0"
  shows "p_offset p' = p_offset p \<and> p_size p' = p_size p"
proof -
  obtain part2 hybrid g part3 now part4 resized file_size where u:
    "setup_part_uuids (ev_shortcuts ev) h (part_defaults h p) (st_hybrid st) (st_rng st) = Inr (part2, hybrid, g)"
    and pl: "place_part h (ev_backup ev) part2 (st_now st) = (part3, now)"
    and ar: "setup_part_autoresize h (ev_size ev) part3 (st_resized st) = Inr (part4, resized)"
    and im: "setup_part_image (ev_images ev) part4 (st_file_size st) = Inr (p', file_size)"
    using s by (rule setup_part_ok)
  have "p_offset (part_defaults h p) = p_offset p" by (simp add: part_defaults_def Let_def)
  then have "p_offset part2 = p_offset p" "\<not> p_logical part2"
    using setup_part_uuids_id [OF u] part_defaults_id [of p h] p by (simp_all add: same_id_def plain_def)
  then have "p_offset part3 = p_offset p" using pl p(2) by (auto simp: place_part_def Let_def split: if_splits)
  then show ?thesis
    using setup_part_autoresize_id [OF ar] setup_part_image_id [OF im] setup_part_id(5) [OF s] p
    by (simp add: plain_def)
qed

lemma setup_loop_fixed:
  assumes "setup_loop ev h pre post st = Inr (ps, st')" "p \<in> set post" "plain p" "p_offset p \<noteq> 0"
    and "hd_extended_partition h \<noteq> Some (p_addr p)"
  shows "\<exists>q \<in> set ps. p_addr q = p_addr p \<and> p_offset q = p_offset p \<and> p_size q = p_size p \<and> p_image q = None"
proof -
  obtain pre1 post1 st1 p' st2 q where s: "setup_part ev h pre1 post1 p st1 = Inr (p', st2)" and q: "q \<in> set ps"
    "resized_ext (hd_extended_partition h) p' q" using setup_loop_elem [OF assms(1,2)] by blast
  have "p_addr p' = p_addr p" "p_image p' = None" using setup_part_id(1) [OF s] assms(3)
    by (simp_all add: same_id_def plain_def)
  then show ?thesis using q setup_part_fixed [OF s assms(3,4)] assms(5) by (auto simp: resized_ext_def)
qed

section \<open>The place of the backup\<close>

lemma check_overlap_post:
  "p_addr q = p_addr p \<Longrightarrow> check_overlap images p (pre @ q # post) = check_overlap images p (pre @ q # post')"
  by (induction pre) (simp_all add: Let_def cong: if_cong)

lemma setup_part_post: "setup_part ev h pre post p st = setup_part ev h pre post' p st"
  unfolding setup_part_def check_part_def check_overlap_post [OF refl, where pre = pre and post = post and post' = post'] ..

lemma setup_loop_append:
  "setup_loop ev h pre (xs @ ys) st = rbind (setup_loop ev h pre xs st) (\<lambda>(pre', st'). setup_loop ev h pre' ys st')"
proof (induction xs arbitrary: pre st)
  case (Cons x xs)
  show ?case
    unfolding append_Cons setup_loop.simps Cons.IH setup_part_post [of ev h pre "xs @ ys" x st xs]
    by (cases "setup_part ev h pre xs x st") (auto simp: rbind_def split: sum.splits)
qed simp

lemma setup_part_backup:
  assumes s: "setup_part ev h pre post p st = Inr (p', st')" and b: "ev_backup ev = Some (p_addr p)"
    and p: "plain p" "p_offset p = 0" "\<not> p_in_partition_table p" "unat (p_size p) \<le> 2 ^ 62"
    and t: "hd_table_type h \<noteq> TYPE_NONE" and now: "unat (st_now st) \<le> 2 ^ 62"
  shows "st_now st' = partition_end p'"
proof -
  obtain part2 hybrid g part3 now part4 resized file_size where u:
    "setup_part_uuids (ev_shortcuts ev) h (part_defaults h p) (st_hybrid st) (st_rng st) = Inr (part2, hybrid, g)"
    and pl: "place_part h (ev_backup ev) part2 (st_now st) = (part3, now)"
    and ar: "setup_part_autoresize h (ev_size ev) part3 (st_resized st) = Inr (part4, resized)"
    and im: "setup_part_image (ev_images ev) part4 (st_file_size st) = Inr (p', file_size)"
    and st': "st' = advance h p' \<lparr>st_file_size = file_size, st_now = now, st_hybrid = hybrid,
                          st_resized = resized, st_rng = g\<rparr>"
    using s by (rule setup_part_ok)
  have "\<not> p_in_partition_table (part_defaults h p)" using p(3) by (simp add: part_defaults_def Let_def)
  then have p2: "part2 = part_defaults h p" using u by (simp add: setup_part_uuids_def)
  have q: "p_offset part2 = 0" "p_size part2 = p_size p" "\<not> p_logical part2" "p_addr part2 = p_addr p"
    "\<not> p_in_partition_table part2" "p_image part2 = None" "\<not> p_autoresize part2"
    using p t unfolding p2 by (simp_all add: part_defaults_def plain_def Let_def)
  let ?n = "st_now st + p_size p"
  have n: "now = ?n" and o: "p_offset part3 = roundup ?n 4096 - p_size p" "p_size part3 = p_size p" 
    "p_image part3 = None" "\<not> p_autoresize part3"
    using pl q b t by (auto simp: place_part_def Let_def split: if_splits)
  have "p_offset p' = roundup ?n 4096 - p_size p" "p_size p' = p_size p"
    using o setup_part_autoresize_id [OF ar] setup_part_image_id [OF im] by (simp_all add: same_id_def)
  then have e: "partition_end p' = roundup ?n 4096" by (simp add: partition_end_def)
  have "unat ?n \<le> 2 ^ 63" using now p(4) by (simp add: unat_add64)
  then have "unat ?n \<le> unat (roundup ?n 4096)" by (intro roundup_ge(1)) simp_all
  then show ?thesis by (simp add: st' n e word_less_nat_alt word_unat_eq_iff)
qed


lemma setup_loop_snoc:
  assumes "setup_loop ev h pre (xs @ [p]) st = Inr (ps, st')" "\<not> p_logical p"
  obtains ps1 st1 p' where "setup_loop ev h pre xs st = Inr (ps1, st1)" "setup_part ev h ps1 [] p st1 = Inr (p', st')"
    "ps = ps1 @ [p']"
proof -
  obtain ps1 st1 where l: "setup_loop ev h pre xs st = Inr (ps1, st1)" and r: "setup_loop ev h ps1 [p] st1 = Inr (ps, st')"
    using assms(1) unfolding setup_loop_append by (elim rbindE case_prodE') blast
  obtain p' st2 where s: "setup_part ev h ps1 [] p st1 = Inr (p', st2)"
    and g: "rbind (grow_extended h p' (st_now st2) (ps1 @ [p'])) (\<lambda>pre'. setup_loop ev h pre' [] st2) = Inr (ps, st')"
    using r unfolding setup_loop.simps by (elim rbindE case_prodE') simp
  have "\<not> p_logical p'" using setup_part_id(1) [OF s] assms(2) by (simp add: same_id_def)
  then show thesis using that [OF l] s g by (simp add: grow_extended_def)
qed


section \<open>The layout of a disk image\<close>

text \<open>The main loop of a setup that succeeded, and what holds when it begins.\<close>

lemma setup_layout_loop:
  assumes s: "setup_layout images shortcuts cfg a0 loc isize parts g = Inr (h, isize', ps, g')"
    and d: "distinct (map p_addr parts)" and sm: "\<forall>p \<in> set ps. small p" and al: "unat (hd_align h) \<le> 2 ^ 62"
  obtains h0 parts1 fakes now backup st0 st ev where
    "table_partitions h0 isize (fresh_addr parts1) = (fakes, now, backup)"
    "ev_images ev = images" "ev_backup ev = backup" "st_now st0 = now" "unat now \<le> 2 ^ 62"
    "setup_loop ev h0 [] (parts1 @ fakes) st0 = Inr (ps, st)" "finish_setup h0 isize st = Inr (h, isize')"
    "distinct (map p_addr (parts1 @ fakes))" "hd_align h0 \<noteq> 0" "hd_gpt_location h0 \<noteq> 0"
    "\<And>p. p \<in> set fakes \<Longrightarrow> hd_extended_partition h0 \<noteq> Some (p_addr p)"
    "\<And>p. p \<in> set (parts1 @ fakes) \<Longrightarrow> hd_extended_partition h0 = Some (p_addr p) \<Longrightarrow> plain p \<and> p_size p = 0"
    "\<And>p. p \<in> set (parts1 @ fakes) \<Longrightarrow> backup = Some (p_addr p) \<Longrightarrow> plain p"
proof -
  obtain h0 parts1 g1 fakes now backup st where st: "start_setup cfg a0 loc parts g = Inr (h0, parts1, g1)"
    and tp: "table_partitions h0 isize (fresh_addr parts1) = (fakes, now, backup)"
    and l: "setup_loop \<lparr>ev_images = images, ev_shortcuts = shortcuts, ev_size = isize, ev_backup = backup\<rparr> h0
              [] (parts1 @ fakes)
              \<lparr>st_file_size = now, st_now = now, st_hybrid = 0, st_resized = False, st_rng = g1\<rparr> = Inr (ps, st)"
    and fin: "finish_setup h0 isize st = Inr (h, isize')" using s by (rule setup_layout_steps)
  note fo = finish_setup_ok [OF fin] and so = start_setup_ok [OF st d] and to = table_partitions_ok [OF tp]
  have fr: "p_addr p < fresh_addr parts1" if "p \<in> set parts1" for p using that by (rule fresh_addr_less)
  have dis: "distinct (map p_addr (parts1 @ fakes))"
    using so(1) to(1,2) fr by (fastforce simp: ext_ok_def)
  have ext: "hd_extended_partition h0 \<noteq> Some (p_addr p)" if "p \<in> set fakes" for p
    using so(1) fr to(1) that unfolding ext_ok_def by fastforce
  have now: "unat now \<le> 2 ^ 62"
  proof (cases "hd_table_type h0 = TYPE_NONE")
    case True
    then show ?thesis using to(3) by simp
  next
    case False
    show ?thesis
    proof (cases "has_gpt (hd_table_type h0)")
      case True
      let ?arr = "fake_partition (fresh_addr parts1 + 2) ''[GPT array]'' (hd_gpt_location h0) 16384"
      have "?arr \<in> set fakes" using to(7) True by simp
      then obtain q where q: "q \<in> set ps" "p_offset q = hd_gpt_location h0" "p_size q = 16384"
        using setup_loop_fixed [OF l, of ?arr] so(4) ext [of ?arr] by auto
      then have "unat (hd_gpt_location h0) + 16384 \<le> 2 ^ 62" using sm by (auto simp: small_def)
      then show ?thesis using to(7) True by (simp add: unat_add64)
    next
      case no: False
      then show ?thesis using to(5) False by simp
    qed
  qed
  have bak: "plain p" if "p \<in> set (parts1 @ fakes)" "backup = Some (p_addr p)" for p
  proof -
    have "fresh_addr parts1 \<le> p_addr p"
      using that(2) to(3,5,8) by (cases "hd_table_type h0"; auto)
    then show ?thesis using that(1) fr [of p] to(1) by auto
  qed
  show thesis
  proof (rule that [OF tp _ _ _ now l fin dis so(2,4) ext _ bak])
    show "plain p \<and> p_size p = 0" if "p \<in> set (parts1 @ fakes)" "hd_extended_partition h0 = Some (p_addr p)" for p
      using that ext so(1) by (auto simp: ext_ok_def)
  qed simp_all
qed

lemma setup_layout_layout:
  assumes s: "setup_layout images shortcuts cfg a0 loc isize parts g = Inr (h, isize', ps, g')"
    and d: "distinct (map p_addr parts)" and sm: "\<forall>p \<in> set ps. small p" and al: "unat (hd_align h) \<le> 2 ^ 62"
  shows "\<exists>now. layout (hd_align h) images (hd_extended_partition h) ps now \<and> unat now \<le> unat isize' \<and> distinct (map p_addr ps)"
proof -
  obtain h0 parts1 fakes now backup st0 st ev where a: "ev_images ev = images" "ev_backup ev = backup" "st_now st0 = now"
    "unat now \<le> 2 ^ 62" "setup_loop ev h0 [] (parts1 @ fakes) st0 = Inr (ps, st)"
    "finish_setup h0 isize st = Inr (h, isize')" "distinct (map p_addr (parts1 @ fakes))" "hd_align h0 \<noteq> 0"
    "\<And>p. p \<in> set (parts1 @ fakes) \<Longrightarrow> hd_extended_partition h0 = Some (p_addr p) \<Longrightarrow> plain p \<and> p_size p = 0"
    "\<And>p. p \<in> set (parts1 @ fakes) \<Longrightarrow> backup = Some (p_addr p) \<Longrightarrow> plain p"
    using s d sm al by (rule setup_layout_loop) blast
  have h: "hd_extended_partition h = hd_extended_partition h0" "hd_align h = hd_align h0"
    using finish_setup_ok(3) [OF a(6)] by auto
  have "layout (hd_align h0) images (hd_extended_partition h0) ps (st_now st) \<and> map p_addr ps = map p_addr ([] @ parts1 @ fakes)"
    unfolding a(1) [symmetric]
    by (rule setup_loop_layout [OF a(5)]) (use a al sm h in \<open>auto simp: layout_def\<close>)
  then show ?thesis using h a(7) finish_setup_ok(4) [OF a(6)] by (auto intro!: exI [of _ "st_now st"])
qed

text \<open>An area of the image that a partition without data, neither logical nor extended, keeps free.\<close>

definition reserved :: "nat option \<Rightarrow> partition list \<Rightarrow> nat \<Rightarrow> nat \<Rightarrow> bool" where
  "reserved ext ps off n \<longleftrightarrow> (\<exists>q \<in> set ps. ext \<noteq> Some (p_addr q) \<and> p_image q = None \<and>
     unat (p_offset q) = off \<and> unat (p_size q) = n)"

lemma table_partitions_last:
  assumes "table_partitions h isize addr = (fakes, now, backup)" "has_gpt (hd_table_type h)"
  shows "\<exists>xs. fakes = xs @ [fake_partition (addr + 3) ''[GPT backup]'' (if isize \<noteq> 0 then isize - 16896 else 0) 16896] \<and>
    backup = Some (addr + 3)"
proof -
  have t: "hd_table_type h \<noteq> TYPE_NONE" using assms(2) by auto
  show ?thesis
    using assms(1) by (simp only: table_partitions_def assms(2) t if_True if_False not_True_eq_False Let_def)
      (auto simp: GPT_SECTORS_def)
qed

lemma setup_layout_tables:
  assumes s: "setup_layout images shortcuts cfg a0 loc isize parts g = Inr (h, isize', ps, g')"
    and d: "distinct (map p_addr parts)" and sm: "\<forall>p \<in> set ps. small p" and al: "unat (hd_align h) \<le> 2 ^ 62"
  shows "hd_table_type h \<noteq> TYPE_NONE \<Longrightarrow> reserved (hd_extended_partition h) ps 440 72"
    "has_gpt (hd_table_type h) \<Longrightarrow> reserved (hd_extended_partition h) ps 512 512"
    "has_gpt (hd_table_type h) \<Longrightarrow> reserved (hd_extended_partition h) ps (unat (hd_gpt_location h)) 16384"
    "has_gpt (hd_table_type h) \<Longrightarrow> 33 * 512 \<le> unat isize' \<and>
       reserved (hd_extended_partition h) ps (unat isize' - 33 * 512) (33 * 512)"
proof -
  obtain h0 parts1 fakes now backup st0 st ev where
    tp: "table_partitions h0 isize (fresh_addr parts1) = (fakes, now, backup)"
    and e: "ev_images ev = images" "ev_backup ev = backup" "st_now st0 = now" "unat now \<le> 2 ^ 62"
    and l: "setup_loop ev h0 [] (parts1 @ fakes) st0 = Inr (ps, st)"
    and fin: "finish_setup h0 isize st = Inr (h, isize')" and dis: "distinct (map p_addr (parts1 @ fakes))"
    and z: "hd_align h0 \<noteq> 0" "hd_gpt_location h0 \<noteq> 0"
    and ext: "\<And>p. p \<in> set fakes \<Longrightarrow> hd_extended_partition h0 \<noteq> Some (p_addr p)"
    and extp: "\<And>p. p \<in> set (parts1 @ fakes) \<Longrightarrow> hd_extended_partition h0 = Some (p_addr p) \<Longrightarrow> plain p \<and> p_size p = 0"
    and bak: "\<And>p. p \<in> set (parts1 @ fakes) \<Longrightarrow> backup = Some (p_addr p) \<Longrightarrow> plain p"
    using s d sm al by (rule setup_layout_loop) blast
  note to = table_partitions_ok [OF tp] and fo = finish_setup_ok [OF fin]
  have h: "hd_table_type h = hd_table_type h0" "hd_gpt_location h = hd_gpt_location h0"
    "hd_extended_partition h = hd_extended_partition h0" "hd_align h = hd_align h0" using fo(3) by auto
  have fixed: "reserved (hd_extended_partition h) ps (unat (p_offset p)) (unat (p_size p))"
    if p: "p \<in> set fakes" "p_offset p \<noteq> 0" for p
  proof -
    have "plain p" using to(1) p(1) by blast
    then obtain q where "q \<in> set ps" "p_addr q = p_addr p" "p_offset q = p_offset p" "p_size q = p_size p" "p_image q = None"
      using setup_loop_fixed [OF l _ _ p(2) ext [OF p(1)]] p(1) by auto
    then show ?thesis using ext [OF p(1)] unfolding reserved_def h by (intro bexI [of _ q] conjI) simp_all
  qed
  show "reserved (hd_extended_partition h) ps 440 72" if "hd_table_type h \<noteq> TYPE_NONE"
    using fixed [OF to(4)] that unfolding h by simp
  show "reserved (hd_extended_partition h) ps 512 512" if "has_gpt (hd_table_type h)"
    using fixed [OF to(6)] that unfolding h(1) by simp
  show "reserved (hd_extended_partition h) ps (unat (hd_gpt_location h)) 16384" if "has_gpt (hd_table_type h)"
    using fixed [OF conjunct1 [OF to(7)]] that z(2) unfolding h(1,2) by simp
  show "33 * 512 \<le> unat isize' \<and> reserved (hd_extended_partition h) ps (unat isize' - 33 * 512) (33 * 512)"
    if gpt: "has_gpt (hd_table_type h)"
  proof -
    let ?b = "fake_partition (fresh_addr parts1 + 3) ''[GPT backup]'' (if isize \<noteq> 0 then isize - 16896 else 0) 16896"
    have g0: "has_gpt (hd_table_type h0)" using gpt unfolding h(1) .
    obtain xs where xs: "fakes = xs @ [?b]" and bk: "backup = Some (fresh_addr parts1 + 3)"
      using table_partitions_last [OF tp g0] by blast
    have bin: "?b \<in> set fakes" by (simp add: xs)
    show ?thesis
    proof (cases "isize = 0")
      case True
      have l': "setup_loop ev h0 [] ((parts1 @ xs) @ [?b]) st0 = Inr (ps, st)" using l by (simp add: xs)
      obtain ps1 st1 p' where l1: "setup_loop ev h0 [] (parts1 @ xs) st0 = Inr (ps1, st1)"
        and s1: "setup_part ev h0 ps1 [] ?b st1 = Inr (p', st)" and ps: "ps = ps1 @ [p']"
        by (rule setup_loop_snoc [OF l']) simp_all
      have "layout (hd_align h0) (ev_images ev) (hd_extended_partition h0) ps1 (st_now st1) \<and>
          map p_addr ps1 = map p_addr ([] @ parts1 @ xs)"
        by (rule setup_loop_layout [OF l1]) (use e z al sm h dis extp bak in \<open>auto simp: layout_def xs ps\<close>)
      then have now: "unat (st_now st1) \<le> 2 ^ 62" by (simp add: layout_def)
      have "st_now st = partition_end p'"
        using setup_part_backup [OF s1 _ _ _ _ _ _ now] g0 e(2) bk True by auto
      then have i: "isize' = partition_end p'" using fin True by (auto simp: finish_setup_def Let_def split: if_splits)
      have q: "p_addr p' = fresh_addr parts1 + 3" "p_image p' = None" "p_size p' = 16896"
        using setup_part_id(1,5) [OF s1] fake_partition_simps(2) [of "fresh_addr parts1 + 3" "''[GPT backup]''"
          "if isize \<noteq> 0 then isize - 16896 else 0" 16896] by (simp_all add: same_id_def plain_def)
      have "no_wrap p'" using sm ps by (auto intro!: no_wrap_le simp: small_def)
      then have "unat isize' = unat (p_offset p') + 16896" using unat_partition_end i q(3) by simp
      then show ?thesis using q ps ext [OF bin] unfolding reserved_def h by (intro conjI bexI [of _ p']) simp_all
    next
      case False
      then have i: "isize' = isize" using fo(5) by simp
      show ?thesis
      proof (cases "isize = 16896")
        case True
        obtain pre1 post1 st1 p' st2 q where sq: "setup_part ev h0 pre1 post1 ?b st1 = Inr (p', st2)"
          and q: "q \<in> set ps" "resized_ext (hd_extended_partition h0) p' q"
          using setup_loop_elem [OF l, of ?b] bin by auto
        have p': "p_addr p' = fresh_addr parts1 + 3" "p_image p' = None" "p_size p' = 16896"
          using setup_part_id(1,5) [OF sq] fake_partition_simps(2) [of "fresh_addr parts1 + 3" "''[GPT backup]''"
            "if isize \<noteq> 0 then isize - 16896 else 0" 16896] by (simp_all add: same_id_def plain_def)
        then have qp: "q = p'" using q(2) ext [OF bin] by (auto simp: resized_ext_def)
        have "unat (p_offset q) + unat (p_size q) \<le> unat isize'"
          using setup_layout_layout [OF s d sm al] q(1) by (fastforce simp: layout_def)
        then have "unat (p_offset q) = 0" using p' qp i True by simp
        then show ?thesis using q(1) qp p' ext [OF bin] i True unfolding reserved_def h by (intro conjI bexI [of _ q]) simp_all
      next
        case no: False
        then have r: "reserved (hd_extended_partition h) ps (unat (isize - 16896)) 16896"
          using fixed [OF bin] False by simp
        then have "unat (isize - 16896) + 16896 \<le> 2 ^ 62" using sm by (auto simp: reserved_def small_def)
        then have "unat (isize - 16896 + 16896) = unat (isize - 16896) + 16896" by (subst unat_add64) simp_all
        then show ?thesis using r i by simp
      qed
    qed
  qed
qed

lemma layout_pair:
  assumes "layout al images ext ps now" "i < j" "j < length ps"
    "ext \<noteq> Some (p_addr (ps ! i))" "ext \<noteq> Some (p_addr (ps ! j))"
  shows "apart images (ps ! i) (ps ! j)"
  using assms by (auto simp: layout_def apart_unless_def sorted_wrt_iff_nth_less)

text \<open>
  C5: in the layout that a successful setup of a disk image computes, two partitions share a byte only
  where the image of the earlier one declares a hole, the extended partition aside, which contains
  others by design. This covers the partitions that stand for the MBR and the GPT, so no partition
  overwrites a table and no table destroys a partition. The sizes and alignments are at most 2^62.
\<close>

theorem setup_no_overlap:
  assumes "setup_layout images shortcuts cfg a0 loc isize parts g = Inr (h, isize', ps, g')"
    and "distinct (map p_addr parts)" and "\<forall>p \<in> set ps. small p" and "unat (hd_align h) \<le> 2 ^ 62"
    and "i < j" "j < length ps"
    and "hd_extended_partition h \<noteq> Some (p_addr (ps ! i))" "hd_extended_partition h \<noteq> Some (p_addr (ps ! j))"
  shows "covered (ps ! i) \<inter> covered (ps ! j) = {} \<or>
    hole_in images (ps ! i) (covered (ps ! i) \<inter> covered (ps ! j))"
  using setup_layout_layout [OF assms(1-4)] layout_pair assms(5-) by (metis apart_def)

text \<open>
  C6: every partition of the layout, the tables and the extended partition included, ends within the
  image, whose size is the configured one or, without one, the end of the last partition.
\<close>

theorem setup_within_image:
  assumes "setup_layout images shortcuts cfg a0 loc isize parts g = Inr (h, isize', ps, g')"
    and "distinct (map p_addr parts)" and "\<forall>p \<in> set ps. small p" and "unat (hd_align h) \<le> 2 ^ 62"
    and "p \<in> set ps"
  shows "unat (p_offset p) + unat (p_size p) \<le> unat isize' \<and> (isize \<noteq> 0 \<longrightarrow> isize' = isize)"
proof -
  have "isize \<noteq> 0 \<longrightarrow> isize' = isize"
    using assms(1) by (rule setup_layout_steps) (use finish_setup_ok(5) in blast)
  then show ?thesis using setup_layout_layout [OF assms(1-4)] assms(5) by (fastforce simp: layout_def)
qed



section \<open>What the setup guarantees to the tables and the images\<close>

lemma setup_mbr_room:
  assumes s: "setup_layout images shortcuts cfg a0 loc isize parts g = Inr (h, isize', ps, g')"
    and d: "distinct (map p_addr parts)" and t: "has_mbr (hd_table_type h)"
  shows "length (mbr_entries h ps) \<le> 4"
proof -
  obtain h0 parts1 g1 fakes now backup st where st: "start_setup cfg a0 loc parts g = Inr (h0, parts1, g1)"
    and tp: "table_partitions h0 isize (fresh_addr parts1) = (fakes, now, backup)"
    and l: "setup_loop \<lparr>ev_images = images, ev_shortcuts = shortcuts, ev_size = isize, ev_backup = backup\<rparr> h0
              [] (parts1 @ fakes)
              \<lparr>st_file_size = now, st_now = now, st_hybrid = 0, st_resized = False, st_rng = g1\<rparr> = Inr (ps, st)"
    and fin: "finish_setup h0 isize st = Inr (h, isize')" using s by (rule setup_layout_steps)
  note fo = finish_setup_ok [OF fin] and so = start_setup_ok [OF st d] and to = table_partitions_ok [OF tp]
  have h: "hd_table_type h = hd_table_type h0" using fo(3) by auto
  then have tn: "hd_table_type h0 \<noteq> TYPE_NONE" using t by auto
  have nf: "filter P fakes = []" if "\<And>p. P p \<Longrightarrow> p_in_partition_table p" for P
    using to(1) that by (auto simp: filter_empty_conv)
  note k = setup_loop_keys [OF l tn, simplified]
  have keys: "map key ps = map key (parts1 @ fakes)" using k by simp
  show ?thesis
  proof (cases "hd_table_type h0 = TYPE_HYBRID")
    case True
    have "length (filter (in_mbr h) ps) \<le> length (filter (\<lambda>p. p_in_partition_table p \<and> p_partition_type p \<noteq> 0) ps)"
      unfolding length_filter_conv_card using True h
      by (intro card_mono) (auto simp: in_mbr_def)
    also have "\<dots> = length (filter (\<lambda>p. p_in_partition_table p \<and> p_partition_type p \<noteq> 0) (parts1 @ fakes))"
      using filter_by_key [OF keys, of "\<lambda>(a, i, l, z). i \<and> \<not> z"] by (simp add: key_def)
    also have "\<dots> \<le> 3" using k fo(1) True nf by simp
    finally show ?thesis by (simp add: mbr_entries_def)
  next
    case False
    then have m: "hd_table_type h0 = TYPE_MBR" using t h by simp
    have "length (filter (in_mbr h) ps) = length (filter (\<lambda>p. p_in_partition_table p \<and> \<not> p_logical p) ps)"
      using m h by (simp add: in_mbr_def [abs_def])
    also have "\<dots> = length (filter (\<lambda>p. p_in_partition_table p \<and> \<not> p_logical p) (parts1 @ fakes))"
      using filter_by_key [OF keys, of "\<lambda>(a, i, l, z). i \<and> \<not> l"] by (simp add: key_def)
    also have "\<dots> \<le> 4" using so(5) [OF m] nf [of "\<lambda>p. p_in_partition_table p \<and> \<not> p_logical p"] by simp
    finally show ?thesis using m h by (simp add: mbr_entries_def)
  qed
qed

text \<open>
  C15: after a successful setup no MBR has more entries than it has room for: the primary partitions,
  the extended one and, for a hybrid table, the entry that covers the GPT are at most four, so writing
  the MBR stays within its array.
\<close>

theorem setup_mbr_fits:
  assumes s: "setup_layout images shortcuts cfg a0 loc isize parts g = Inr (h, isize', ps, g')"
    and d: "distinct (map p_addr parts)" and t: "has_mbr (hd_table_type h)"
  shows "length (mbr_entries h ps) \<le> 4"
  by (rule setup_mbr_room [OF assms])

text \<open>A fact of every partition from a fact of one iteration.\<close>

lemma setup_layout_every:
  assumes s: "setup_layout images shortcuts cfg a0 loc isize parts g = Inr (h, isize', ps, g')"
    and d: "distinct (map p_addr parts)"
    and step: "\<And>ev h0 pre post p st p' st'. setup_part ev h0 pre post p st = Inr (p', st') \<Longrightarrow>
      ev_images ev = images \<Longrightarrow> hd_table_type h0 = hd_table_type h \<Longrightarrow> hd_align h0 \<noteq> 0 \<Longrightarrow>
      hd_extended_partition h0 = hd_extended_partition h \<Longrightarrow> Q p'"
    and stable: "\<And>p p'. Q p \<Longrightarrow> resized_ext (hd_extended_partition h) p p' \<Longrightarrow> Q p'"
  shows "\<forall>p \<in> set ps. Q p"
proof -
  obtain h0 parts1 g1 fakes now backup st where st: "start_setup cfg a0 loc parts g = Inr (h0, parts1, g1)"
    and l: "setup_loop \<lparr>ev_images = images, ev_shortcuts = shortcuts, ev_size = isize, ev_backup = backup\<rparr> h0
              [] (parts1 @ fakes)
              \<lparr>st_file_size = now, st_now = now, st_hybrid = 0, st_resized = False, st_rng = g1\<rparr> = Inr (ps, st)"
    and fin: "finish_setup h0 isize st = Inr (h, isize')" using s by (rule setup_layout_steps)
  have h: "hd_table_type h0 = hd_table_type h" "hd_extended_partition h0 = hd_extended_partition h"
    using finish_setup_ok(3) [OF fin] by auto
  show ?thesis
    by (rule setup_loop_all [OF _ _ l]) (use step stable h start_setup_ok(2) [OF st d] in auto)
qed

lemma setup_layout_all:
  assumes s: "setup_layout images shortcuts cfg a0 loc isize parts g = Inr (h, isize', ps, g')"
    and d: "distinct (map p_addr parts)"
    and step: "\<And>ev h0 pre post p st p' st'. setup_part ev h0 pre post p st = Inr (p', st') \<Longrightarrow>
      ev_images ev = images \<Longrightarrow> hd_table_type h0 = hd_table_type h \<Longrightarrow> hd_align h0 \<noteq> 0 \<Longrightarrow>
      hd_extended_partition h0 \<noteq> Some (p_addr p') \<Longrightarrow> Q p'"
  shows "\<forall>p \<in> set ps. hd_extended_partition h \<noteq> Some (p_addr p) \<longrightarrow> Q p"
  by (rule setup_layout_every [OF s d]) (use step in \<open>auto simp: resized_ext_def\<close>)

lemma check_part_ok:
  assumes "check_part images h pre post p now = Inr ()"
  shows "hd_extended_partition h \<noteq> Some (p_addr p) \<Longrightarrow> p_size p \<noteq> 0"
    "p_in_partition_table p \<Longrightarrow> p_size p mod 512 = 0"
  using assms by (auto simp: check_part_def rbind_ok split: if_splits)

lemma setup_part_checked:
  assumes "setup_part ev h pre post p st = Inr (p', st')"
  shows "hd_extended_partition h \<noteq> Some (p_addr p') \<Longrightarrow> p_size p' \<noteq> 0"
    "p_in_partition_table p' \<Longrightarrow> p_size p' mod 512 = 0"
proof -
  obtain now where c: "check_part (ev_images ev) h pre post p' now = Inr ()"
    using assms by (rule setup_part_ok) blast
  show "hd_extended_partition h \<noteq> Some (p_addr p') \<Longrightarrow> p_size p' \<noteq> 0"
    "p_in_partition_table p' \<Longrightarrow> p_size p' mod 512 = 0" using check_part_ok [OF c] by blast+
qed


lemma setup_part_image_fits:
  assumes "setup_part_image images p fs0 = Inr (p', fs1)" and "p_image p' = Some f"
  shows "\<exists>child. image_get images f = Some child \<and> (im_size child \<noteq> 0 \<longrightarrow>
    p_imageoffset p' \<le> im_size child \<and> im_size child - p_imageoffset p' \<le> p_size p')"
  using assms by (auto simp: setup_part_image_def Let_def not_less split: if_splits option.splits)

text \<open>
  C13: after a successful setup the image of every partition exists, and what is placed of it, from the
  image offset on, fits into the partition.
\<close>

theorem setup_images_fit:
  assumes "setup_layout images shortcuts cfg a0 loc isize parts g = Inr (h, isize', ps, g')"
    and "distinct (map p_addr parts)" and "p \<in> set ps" and "hd_extended_partition h \<noteq> Some (p_addr p)"
    and "p_image p = Some f"
  shows "\<exists>child. image_get images f = Some child \<and> (im_size child \<noteq> 0 \<longrightarrow>
    p_imageoffset p \<le> im_size child \<and> im_size child - p_imageoffset p \<le> p_size p)"
proof -
  have "\<forall>p \<in> set ps. hd_extended_partition h \<noteq> Some (p_addr p) \<longrightarrow> (\<forall>f. p_image p = Some f \<longrightarrow>
    (\<exists>child. image_get images f = Some child \<and> (im_size child \<noteq> 0 \<longrightarrow>
      p_imageoffset p \<le> im_size child \<and> im_size child - p_imageoffset p \<le> p_size p)))"
  proof (rule setup_layout_all [OF assms(1,2)])
    fix ev h0 pre post p st p' st'
    assume s: "setup_part ev h0 pre post p st = Inr (p', st')" and i: "ev_images ev = images"
    obtain part4 fz where "setup_part_image (ev_images ev) part4 (st_file_size st) = Inr (p', fz)"
      using s by (rule setup_part_ok) blast
    from setup_part_image_fits [OF this] show "\<forall>f. p_image p' = Some f \<longrightarrow>
      (\<exists>child. image_get images f = Some child \<and> (im_size child \<noteq> 0 \<longrightarrow>
        p_imageoffset p' \<le> im_size child \<and> im_size child - p_imageoffset p' \<le> p_size p'))"
      unfolding i by blast
  qed
  then show ?thesis using assms(3-5) by blast
qed

section \<open>GPT entries\<close>

lemma resolve_type_valid: "resolve_type sc ty = Inr u \<Longrightarrow> uuid_validate u"
  by (auto simp: resolve_type_def Let_def rbind_ok split: if_splits)

definition gpt_ready :: "partition \<Rightarrow> bool" where
  "gpt_ready p \<longleftrightarrow> (\<exists>t u. p_type_uuid p = Some t \<and> uuid_validate t \<and> p_uuid p = Some u \<and> 35 \<le> length u)"


lemma gpt_ready_resized: "gpt_ready p \<Longrightarrow> resized_ext ext p p' \<Longrightarrow> gpt_ready p'"
  by (auto simp: gpt_ready_def resized_ext_def)

lemma length_uuid_random: "35 \<le> length (fst (uuid_random g))"
  using length_uuid_format [of "fst (draws 8 g)"] by (simp add: uuid_random_def case_prod_beta)

lemma uuid_validate_length: "uuid_validate s \<Longrightarrow> 35 \<le> length s"
  by (simp add: uuid_validate_def split: if_splits)

lemma setup_part_uuids_ready:
  assumes "setup_part_uuids sc h p n g = Inr (p', n', g')" "has_gpt (hd_table_type h)" "p_in_partition_table p'"
  shows "gpt_ready p'"
  using assms(1)
proof -
  have tab: "p_in_partition_table p" using setup_part_uuids_id [OF assms(1)] assms(3) by simp
  obtain ty where ty: "resolve_type sc (p_type_uuid p) = Inr ty" using assms(1,2) tab
    by (auto simp: setup_part_uuids_def rbind_ok)
  obtain u g1 where u: "(case p_uuid p of Some u \<Rightarrow> if uuid_validate u then Inr (u, g) else Inl EINVAL
      | None \<Rightarrow> Inr (uuid_random g)) = Inr (u, g1)" and p': "p_type_uuid p' = Some ty" "p_uuid p' = Some u"
    using assms(1,2) tab by (auto simp: setup_part_uuids_def rbind_ok ty split: prod.splits)
  have "35 \<le> length u"
    using u length_uuid_random [of g] uuid_validate_length by (auto split: option.splits if_splits)
  then show ?thesis using resolve_type_valid [OF ty] p' by (simp add: gpt_ready_def)
qed

lemma setup_part_ready:
  assumes s: "setup_part ev h pre post p st = Inr (p', st')" and t: "has_gpt (hd_table_type h)"
    and i: "p_in_partition_table p'"
  shows "gpt_ready p'"
proof -
  obtain part2 hybrid g part3 now part4 resized file_size where u:
    "setup_part_uuids (ev_shortcuts ev) h (part_defaults h p) (st_hybrid st) (st_rng st) = Inr (part2, hybrid, g)"
    and pl: "place_part h (ev_backup ev) part2 (st_now st) = (part3, now)"
    and ar: "setup_part_autoresize h (ev_size ev) part3 (st_resized st) = Inr (part4, resized)"
    and im: "setup_part_image (ev_images ev) part4 (st_file_size st) = Inr (p', file_size)"
    using s by (rule setup_part_ok)
  have "p_in_partition_table part2"
    using i place_part_id [OF pl] setup_part_autoresize_id [OF ar] setup_part_image_id [OF im] by simp
  from setup_part_uuids_ready [OF u t this] have r: "gpt_ready part2" .
  have "p_type_uuid part3 = p_type_uuid part2 \<and> p_uuid part3 = p_uuid part2"
    using pl by (auto simp: place_part_def Let_def split: if_splits)
  moreover have "p_type_uuid part4 = p_type_uuid part3 \<and> p_uuid part4 = p_uuid part3"
    using ar by (auto simp: setup_part_autoresize_def Let_def split: if_splits)
  moreover have "p_type_uuid p' = p_type_uuid part4 \<and> p_uuid p' = p_uuid part4"
    using im by (auto simp: setup_part_image_def Let_def split: if_splits option.splits)
  ultimately show ?thesis using r by (simp add: gpt_ready_def)
qed

lemma rmap_Inr: "(\<And>x. x \<in> set xs \<Longrightarrow> \<exists>y. f x = Inr y \<and> P y) \<Longrightarrow>
  \<exists>ys. rmap f xs = Inr ys \<and> length ys = length xs \<and> (\<forall>y \<in> set ys. P y)"
proof (induction xs)
  case (Cons x xs)
  obtain y where y: "f x = Inr y" "P y" using Cons.prems by auto
  obtain ys where "rmap f xs = Inr ys" "length ys = length xs" "\<forall>y \<in> set ys. P y" using Cons by auto
  then show ?case using y by (intro exI [of _ "y # ys"]) simp
qed simp

lemma length_concat_const: "(\<forall>x \<in> set xs. length x = n) \<Longrightarrow> length (concat xs) = n * length xs"
  by (induction xs) auto

lemma length_gpt_name: "length (gpt_name s) = 72"
proof -
  have "length (concat (map (\<lambda>c. le16 (scast (of_char c :: u8))) (take 36 s))) = 2 * length (take 36 s)"
    by (subst length_concat_const [of _ 2]) auto
  moreover have "length (take 36 s) \<le> 36" by simp
  ultimately show ?thesis by (simp add: gpt_name_def zeros_def Let_def del: length_take)
qed

lemma uuid_parse_Inr: "35 \<le> length s \<Longrightarrow> \<exists>b. uuid_parse s = Inr b \<and> length b = 16"
  by (simp add: uuid_parse_def)

lemma gpt_entry_ready:
  assumes "gpt_ready p" shows "\<exists>e. gpt_entry p = Inr e \<and> length e = 128"
proof -
  obtain t u where tu: "p_type_uuid p = Some t" "uuid_validate t" "p_uuid p = Some u" "35 \<le> length u"
    using assms by (auto simp: gpt_ready_def)
  obtain a where a: "uuid_parse t = Inr a" "length a = 16"
    using uuid_parse_Inr [OF uuid_validate_length [OF tu(2)]] by blast
  obtain b where b: "uuid_parse u = Inr b" "length b = 16" using uuid_parse_Inr [OF tu(4)] by blast
  show ?thesis by (simp add: gpt_entry_def uuid_field_def tu a b length_gpt_name)
qed

text \<open>
  C8: after a successful setup with a GPT every partition of the table has a type UUID and a UUID that
  can be converted, so the table of up to 128 partitions is defined and is the 16384 bytes that the
  layout reserves for it.
\<close>

theorem setup_gpt_table:
  assumes "setup_layout images shortcuts cfg a0 loc isize parts g = Inr (h, isize', ps, g')"
    and "distinct (map p_addr parts)" and "has_gpt (hd_table_type h)"
    and "length (filter p_in_partition_table ps) \<le> 128"
  shows "\<exists>table. gpt_table ps = Inr table \<and> length table = 128 * 128"
proof -
  have "\<forall>p \<in> set ps. p_in_partition_table p \<longrightarrow> gpt_ready p"
    by (rule setup_layout_every [OF assms(1,2)])
      (use assms(3) setup_part_ready gpt_ready_resized in \<open>auto simp: resized_ext_def gpt_ready_def\<close>)
  then have "\<exists>es. rmap gpt_entry (filter p_in_partition_table ps) = Inr es \<and>
      length es = length (filter p_in_partition_table ps) \<and> (\<forall>e \<in> set es. length e = 128)"
    by (intro rmap_Inr gpt_entry_ready) auto
  then obtain es where es: "rmap gpt_entry (filter p_in_partition_table ps) = Inr es"
    "length es \<le> 128" "\<forall>e \<in> set es. length e = 128" using assms(4) by auto
  then have "length (concat es @ zeros (128 * (128 - length es))) = 128 * 128"
    using length_concat_const [OF es(3)] by (simp add: zeros_def)
  then show ?thesis using assms(4) es(1) by (simp add: gpt_table_def GPT_ENTRIES_def)
qed



section \<open>Autoresize\<close>

lemma setup_part_autoresized:
  assumes s: "setup_part ev h pre post p st = Inr (p', st')"
  shows "p_autoresize p' = p_autoresize p"
    "p_autoresize p \<Longrightarrow> \<not> st_resized st \<and> st_resized st'" "\<not> p_autoresize p \<Longrightarrow> st_resized st' = st_resized st"
proof -
  obtain part2 hybrid g part3 now part4 resized file_size where u:
    "setup_part_uuids (ev_shortcuts ev) h (part_defaults h p) (st_hybrid st) (st_rng st) = Inr (part2, hybrid, g)"
    and pl: "place_part h (ev_backup ev) part2 (st_now st) = (part3, now)"
    and ar: "setup_part_autoresize h (ev_size ev) part3 (st_resized st) = Inr (part4, resized)"
    and im: "setup_part_image (ev_images ev) part4 (st_file_size st) = Inr (p', file_size)"
    and st': "st' = advance h p' \<lparr>st_file_size = file_size, st_now = now, st_hybrid = hybrid,
                          st_resized = resized, st_rng = g\<rparr>"
    using s by (rule setup_part_ok)
  have "p_autoresize (part_defaults h p) = p_autoresize p" by (simp add: part_defaults_def Let_def)
  then have p3: "p_autoresize part3 = p_autoresize p"
    using setup_part_uuids_id [OF u] place_part_id [OF pl] by simp
  have "p_autoresize part4 = p_autoresize part3"
    "resized = (p_autoresize part3 \<or> st_resized st)" "p_autoresize part3 \<Longrightarrow> \<not> st_resized st"
    using ar by (auto simp: setup_part_autoresize_def Let_def split: if_splits)
  moreover have "p_autoresize p' = p_autoresize part4"
    using im by (auto simp: setup_part_image_def Let_def split: if_splits option.splits)
  ultimately show "p_autoresize p' = p_autoresize p" "p_autoresize p \<Longrightarrow> \<not> st_resized st \<and> st_resized st'"
    "\<not> p_autoresize p \<Longrightarrow> st_resized st' = st_resized st" using p3 st' by simp_all
qed

lemma setup_loop_autoresized:
  "setup_loop ev h pre post st = Inr (ps, st') \<Longrightarrow>
   length (filter p_autoresize ps) \<le> length (filter p_autoresize pre) + (if st_resized st then 0 else 1)"
proof (induction post arbitrary: pre st)
  case (Cons a post)
  from Cons.prems(1) obtain a' st1 pre' where s: "setup_part ev h pre post a st = Inr (a', st1)"
    and g: "grow_extended h a' (st_now st1) (pre @ [a']) = Inr pre'"
    and l: "setup_loop ev h pre' post st1 = Inr (ps, st')" by (auto simp: rbind_ok)
  obtain f where f: "pre' = map f (pre @ [a'])" "\<And>q. resized_ext (hd_extended_partition h) q (f q)"
    by (rule grow_extended_ok [OF g]) blast
  have "p_autoresize (f q) = p_autoresize q" for q using f(2) [of q] by (auto simp: resized_ext_def)
  then have "length (filter p_autoresize pre') = length (filter p_autoresize (pre @ [a']))"
    unfolding f(1) by (simp add: filter_map comp_def)
  then show ?case using Cons.IH [OF l] setup_part_autoresized [OF s] by (auto split: if_splits)
qed simp

text \<open>C17: at most one partition of a layout that was set up with success is resized automatically.\<close>

theorem setup_one_autoresize:
  assumes "setup_layout images shortcuts cfg a0 loc isize parts g = Inr (h, isize', ps, g')"
  shows "length (filter p_autoresize ps) \<le> 1"
  using assms by (rule setup_layout_steps) (use setup_loop_autoresized in fastforce)

text \<open>
  C16: a partition with autoresize takes all there is: its size is a multiple of its alignment, not less
  than the size asked for, leaves the 33 sectors of the backup free when there is a GPT, and less than
  one alignment unit before the end of the image (or the backup) stays unused.
\<close>

theorem autoresize_fills:
  assumes ok: "setup_part_autoresize h isize part False = Inr (part', True)"
    and fit: "unat (p_offset part) + reserve \<le> unat isize" "unat isize < 2 ^ 63" "unat (p_size part) < 2 ^ 63"
    and al: "p_align part \<noteq> 0"
    and r: "reserve = (if has_gpt (hd_table_type h) then 33 * 512 else 0)"
  shows "unat (p_align part) dvd unat (p_size part') \<and> unat (p_size part) \<le> unat (p_size part') \<and>
    unat (p_offset part) + unat (p_size part') + reserve \<le> unat isize \<and>
    unat isize < unat (p_offset part) + unat (p_size part') + reserve + unat (p_align part)"
proof -
  let ?s1 = "if has_gpt (hd_table_type h) then isize - p_offset part - GPT_SECTORS * 512 else isize - p_offset part"
  have s: "p_size part' = rounddown ?s1 (p_align part)" and ge: "\<not> sint (rounddown ?s1 (p_align part)) < sint (p_size part)"
    using ok by (auto simp: setup_part_autoresize_def Let_def split: if_splits)
  have d: "unat (isize - p_offset part) = unat isize - unat (p_offset part)" using fit(1) by (subst unat_sub64) auto
  have u: "unat ?s1 = unat isize - unat (p_offset part) - reserve"
    using fit(1) d by (auto simp: r GPT_SECTORS_def unat_sub64 split: if_splits)
  have sz: "unat (p_size part') = unat ?s1 - unat ?s1 mod unat (p_align part)" unfolding s by (rule unat_rounddown)
  have a: "0 < unat (p_align part)" using al unat_eq0 by blast
  have "unat (p_size part') \<le> off_max" "unat (p_size part) \<le> off_max"
    unfolding sz u off_max_def using fit(2,3) by linarith+
  then have "sint (p_size part') = int (unat (p_size part'))" "sint (p_size part) = int (unat (p_size part))"
    by (blast intro: sint_small)+
  then have "unat (p_size part) \<le> unat (p_size part')" using ge s by (metis linorder_not_less of_nat_less_iff)
  moreover have "unat ?s1 mod unat (p_align part) < unat (p_align part)" using a by simp
  moreover have "unat (p_align part) dvd unat (p_size part')" unfolding s by (rule rounddown_dvd)
  moreover have "unat ?s1 mod unat (p_align part) \<le> unat ?s1" by (rule mod_less_eq_dividend)
  ultimately show ?thesis using sz u fit(1) by linarith
qed


section \<open>The hypotheses can hold\<close>

lemma setup_no_overlap_witness:
  "covered ((demo_part 1)\<lparr>p_offset := 512, p_size := 1024, p_align := 512\<rparr>) \<inter> covered (fake_partition 3 ''[MBR]'' 440 72) = {} \<or>
   hole_in [demo_image ''a'' 1000] ((demo_part 1)\<lparr>p_offset := 512, p_size := 1024, p_align := 512\<rparr>)
     (covered ((demo_part 1)\<lparr>p_offset := 512, p_size := 1024, p_align := 512\<rparr>) \<inter> covered (fake_partition 3 ''[MBR]'' 440 72))"
proof -
  obtain h g' where s: "setup_layout [demo_image ''a'' 1000] [] (demo_cfg ''mbr'') 0 0 0 [demo_part 1, demo_part 2] demo_rng
   = Inr (h, 2560, [(demo_part 1)\<lparr>p_offset := 512, p_size := 1024, p_align := 512\<rparr>,
       (demo_part 2)\<lparr>p_offset := 1536, p_size := 1024, p_align := 512\<rparr>, fake_partition 3 ''[MBR]'' 440 72], g')"
   and h: "hd_align h = 512" "hd_extended_partition h = None" using mbr2 by blast
  show ?thesis
    using setup_no_overlap [OF s, of 0 2] h
    by (simp add: small_def demo_part_def zero_partition_def fake_partition_def)
qed

lemma setup_within_image_witness:
  "unat (440 :: u64) + unat (72 :: u64) \<le> unat (2560 :: u64) \<and>
   (\<exists>h g'. setup_layout [demo_image ''a'' 1000] [] (demo_cfg ''mbr'') 0 0 0 [demo_part 1, demo_part 2] demo_rng
     = Inr (h, 2560, [(demo_part 1)\<lparr>p_offset := 512, p_size := 1024, p_align := 512\<rparr>,
       (demo_part 2)\<lparr>p_offset := 1536, p_size := 1024, p_align := 512\<rparr>, fake_partition 3 ''[MBR]'' 440 72], g'))"
proof -
  obtain h g' where s: "setup_layout [demo_image ''a'' 1000] [] (demo_cfg ''mbr'') 0 0 0 [demo_part 1, demo_part 2] demo_rng
   = Inr (h, 2560, [(demo_part 1)\<lparr>p_offset := 512, p_size := 1024, p_align := 512\<rparr>,
       (demo_part 2)\<lparr>p_offset := 1536, p_size := 1024, p_align := 512\<rparr>, fake_partition 3 ''[MBR]'' 440 72], g')"
   and h: "hd_align h = 512" "hd_extended_partition h = None" using mbr2 by blast
  show ?thesis
    using setup_within_image [OF s, of "fake_partition 3 ''[MBR]'' 440 72"] h s
    by (simp add: small_def demo_part_def zero_partition_def fake_partition_def)
qed


lemma setup_mbr_fits_witness:
  "\<exists>h ps g'. setup_layout [demo_image ''a'' 1000] [] (demo_cfg ''mbr'') 0 0 0
     [demo_part 1, demo_part 2, demo_part 3, demo_part 4, demo_part 5] demo_rng = Inr (h, 6656, ps, g') \<and>
   length (mbr_entries h ps) \<le> 4"
proof -
  obtain h ps g' where s: "setup_layout [demo_image ''a'' 1000] [] (demo_cfg ''mbr'') 0 0 0
     [demo_part 1, demo_part 2, demo_part 3, demo_part 4, demo_part 5] demo_rng = Inr (h, 6656, ps, g')"
    and h: "hd_table_type h = TYPE_MBR" using mbr5 by blast
  show ?thesis using setup_mbr_fits [OF s] h s by (simp add: demo_part_def zero_partition_def)
qed


lemma setup_images_fit_witness:
  "\<exists>child. image_get [demo_image ''a'' 1000] ''a'' = Some child \<and> (im_size child \<noteq> 0 \<longrightarrow> im_size child \<le> 1024)"
proof -
  obtain h g' where s: "setup_layout [demo_image ''a'' 1000] [] (demo_cfg ''mbr'') 0 0 0 [demo_part 1, demo_part 2] demo_rng
   = Inr (h, 2560, [(demo_part 1)\<lparr>p_offset := 512, p_size := 1024, p_align := 512\<rparr>,
       (demo_part 2)\<lparr>p_offset := 1536, p_size := 1024, p_align := 512\<rparr>, fake_partition 3 ''[MBR]'' 440 72], g')"
   and h: "hd_extended_partition h = None" using mbr2 by blast
  show ?thesis
    using setup_images_fit [OF s, of "(demo_part 1)\<lparr>p_offset := 512, p_size := 1024, p_align := 512\<rparr>" "''a''"] h
    by (simp add: demo_part_def zero_partition_def)
qed

lemma setup_gpt_table_witness:
  "\<exists>h ps g'. setup_layout [demo_image ''a'' 1000] [] (demo_cfg ''gpt'') 0 0 1048576 [demo_part 1, demo_part 2] demo_rng
     = Inr (h, 1048576, ps, g') \<and> (\<exists>table. gpt_table ps = Inr table \<and> length table = 16384)"
proof -
  obtain h ps g' where s: "setup_layout [demo_image ''a'' 1000] [] (demo_cfg ''gpt'') 0 0 1048576
     [demo_part 1, demo_part 2] demo_rng = Inr (h, 1048576, ps, g')" and h: "hd_table_type h = TYPE_GPT"
    and n: "length ps = 6" using gpt2 by blast
  have "length (filter p_in_partition_table ps) \<le> 128" using n length_filter_le [of p_in_partition_table ps] by simp
  then show ?thesis using setup_gpt_table [OF s] h s by (simp add: demo_part_def zero_partition_def)
qed

lemma setup_one_autoresize_witness:
  "\<exists>h ps g'. setup_layout [demo_image ''a'' 1000] [] (demo_cfg ''gpt'') 0 0 1048576 [demo_part 1, demo_part 2] demo_rng
     = Inr (h, 1048576, ps, g') \<and> length (filter p_autoresize ps) \<le> 1"
  using gpt2 setup_one_autoresize by blast


definition demo_hd :: "table_type \<Rightarrow> hdimage" where
  "demo_hd t = \<lparr>hd_extended_partition_index = 0, hd_extended_partition = None, hd_align = 512, hd_disksig = 0,
     hd_disk_uuid = [], hd_table_type = t, hd_gpt_location = 1024, hd_gpt_no_backup = False, hd_fill = False,
     hd_file_size = 0\<rparr>"

lemma autoresize_fills_witness:
  "setup_part_autoresize (demo_hd TYPE_GPT) 1048576 ((zero_partition 1)\<lparr>p_autoresize := True, p_offset := 4096, p_align := 512\<rparr>) False
   = Inr ((zero_partition 1)\<lparr>p_autoresize := True, p_offset := 4096, p_align := 512, p_size := 1027584\<rparr>, True) \<and>
   unat (512 :: u64) dvd unat (1027584 :: u64)"
proof -
  have e: "setup_part_autoresize (demo_hd TYPE_GPT) 1048576 ((zero_partition 1)\<lparr>p_autoresize := True, p_offset := 4096, p_align := 512\<rparr>) False
    = Inr ((zero_partition 1)\<lparr>p_autoresize := True, p_offset := 4096, p_align := 512, p_size := 1027584\<rparr>, True)"
    by (simp add: setup_part_autoresize_def demo_hd_def zero_partition_def Let_def GPT_SECTORS_def rounddown_def)
  show ?thesis using e autoresize_fills [OF e _ _ _ _ refl] by (simp add: demo_hd_def zero_partition_def)
qed

end
