(* ===== verification/HandlerProps.thy ===== *)
theory HandlerProps
  imports Handlers HdSetupProps
begin

text \<open>
  The handlers in the walk over the images: \<open>image_setup\<close> and \<open>image_generate\<close> are walks, for any handlers
  that touch their own image only; what the modelled handlers promise, and what holds of all images when
  the setup has come to its end.
\<close>

section \<open>Operations that leave the marks alone\<close>

text \<open>The files that the partitions of a list name.\<close>

definition part_names :: "partition list \<Rightarrow> string set" where
  "part_names ps = {n. Some n \<in> p_image ` set ps}"

lemma part_names_simps [simp]: "part_names [] = {}"
  "part_names (p # ps) = set_option (p_image p) \<union> part_names ps"
  "part_names (ps @ qs) = part_names ps \<union> part_names qs"
  by (auto simp: part_names_def)

lemma part_names_map: "map p_image ps = map p_image qs \<Longrightarrow> part_names ps = part_names qs"
  by (metis part_names_def list.set_map)

text \<open>What a call on an image has to leave alone: its file, handler and marks, and the images it contains.\<close>

definition same_node :: "image \<Rightarrow> image \<Rightarrow> bool" where
  "same_node im im' \<longleftrightarrow> im_file im' = im_file im \<and> im_handler im' = im_handler im \<and>
     im_seen im' = im_seen im \<and> im_done im' = im_done im \<and> part_names (im_partitions im') = part_names (im_partitions im)"

lemma tameI:
  assumes "\<And>s. i < length (s_images s) \<Longrightarrow> s_images (snd (m s)) = s_images s \<or>
    (\<exists>im. s_images (snd (m s)) = (s_images s)[i := im] \<and> same_node (s_images s ! i) im)"
  shows "tame i m"
  unfolding tame_def
proof (intro allI impI)
  fix s :: "'a sys" assume i: "i < length (s_images s)"
  let ?ims = "s_images s" and ?ims' = "s_images (snd (m s))"
  show "same_graph ?ims ?ims' \<and> (\<forall>j < length ?ims. im_seen (?ims' ! j) = im_seen (?ims ! j) \<and>
      im_done (?ims' ! j) = im_done (?ims ! j))"
  proof (cases "?ims' = ?ims")
    case False
    then obtain im where im: "?ims' = ?ims[i := im]" "same_node (?ims ! i) im" using assms [OF i] by blast
    have "map im_file (?ims[i := im]) = map im_file ?ims"
      using i im(2) by (simp add: same_node_def map_update list_update_same_conv)
    moreover have "child_names (?ims[i := im]) j = child_names ?ims j" if "j < length ?ims" for j
      using im(2) that by (cases "i = j") (simp_all add: same_node_def child_names_def part_images_def part_names_def)
    moreover have "im_seen (?ims[i := im] ! j) = im_seen (?ims ! j) \<and> im_done (?ims[i := im] ! j) = im_done (?ims ! j)"
      if "j < length ?ims" for j
      using im(2) that by (cases "i = j") (simp_all add: same_node_def)
    ultimately show ?thesis by (simp add: same_graph_def im(1))
  qed (simp add: same_graph_refl)
qed

lemma tame_resolve_percent: "tame i (resolve_percent hs tree i)"
proof (rule tameI)
  fix s :: "'a sys"
  let ?im = "s_images s ! i"
  show "s_images (snd (resolve_percent hs tree i s)) = s_images s \<or>
    (\<exists>im. s_images (snd (resolve_percent hs tree i s)) = (s_images s)[i := im] \<and> same_node ?im im)"
    by (cases "image_dir_size tree (no_rootpath hs) (s_mps s) ?im")
      (auto simp: resolve_percent_def Let_def set_image_def same_node_def intro!: exI)
qed

text \<open>What a setup function has to leave alone.\<close>

definition setup_tame :: "(image list \<Rightarrow> image \<Rightarrow> cfg option \<Rightarrow> 'p option \<Rightarrow> ('p option \<times> image) io) \<Rightarrow> bool" where
  "setup_tame f \<longleftrightarrow> (\<forall>ims im sec p w p' im' w'. f ims im sec p w = (Inr (p', im'), w') \<longrightarrow> same_node im im')"

text \<open>What a generate function has to leave alone.\<close>

definition gen_tame :: "('p genv \<Rightarrow> image io) \<Rightarrow> bool" where
  "gen_tame g \<longleftrightarrow> (\<forall>e w im w'. g e w = (Inr im, w') \<longrightarrow> same_node (g_image e) im)"

definition handlers_tame :: "'p handler list \<Rightarrow> bool" where
  "handlers_tame hs \<longleftrightarrow> (\<forall>h \<in> set hs. (\<forall>f. h_setup h = Some f \<longrightarrow> setup_tame f) \<and>
     (\<forall>g. h_generate h = Some g \<longrightarrow> gen_tame g))"

lemma handler_get_set: "handler_get hs t = Some h \<Longrightarrow> h \<in> set hs \<and> h_type h = t"
  by (induction hs) (auto split: if_splits)

text \<open>A call of a setup function changes its image only, to what the function says.\<close>

lemma call_setup_cases:
  obtains (none) "Option.bind (handler_get hs (im_handler (s_images s ! i))) h_setup = None" "call_setup hs i s = (Inr (), s)"
  | (fails) h f e w where "h \<in> set hs" "h_type h = im_handler (s_images s ! i)" "h_setup h = Some f"
      "f (s_images s) (s_images s ! i) (s_sec s i) (s_priv s i) (s_world s) = (Inl e, w)"
      "call_setup hs i s = (Inl e, s\<lparr>s_world := w\<rparr>)"
  | (ok) h f p im w where "h \<in> set hs" "h_type h = im_handler (s_images s ! i)" "h_setup h = Some f"
      "f (s_images s) (s_images s ! i) (s_sec s i) (s_priv s i) (s_world s) = (Inr (p, im), w)"
      "fst (call_setup hs i s) = Inr ()" "s_images (snd (call_setup hs i s)) = (s_images s)[i := im]"
proof (cases "Option.bind (handler_get hs (im_handler (s_images s ! i))) h_setup")
  case None
  then show ?thesis using none by (simp add: call_setup_def Let_def)
next
  case (Some f)
  then obtain h where h: "handler_get hs (im_handler (s_images s ! i)) = Some h" "h_setup h = Some f"
    by (cases "handler_get hs (im_handler (s_images s ! i))") auto
  note h' = handler_get_set [OF h(1)]
  obtain r w where r: "f (s_images s) (s_images s ! i) (s_sec s i) (s_priv s i) (s_world s) = (r, w)" by fastforce
  show ?thesis
  proof (cases r)
    case (Inl e)
    show ?thesis by (rule fails [of h f e w]) (use h h' r Inl Some in \<open>simp_all add: call_setup_def Let_def finish_call_def\<close>)
  next
    case (Inr x)
    obtain p im where x: "x = (p, im)" by fastforce
    show ?thesis
      by (rule ok [of h f p im w])
        (use h h' r Inr x Some in \<open>simp_all add: call_setup_def Let_def finish_call_def set_image_def\<close>)
  qed
qed

lemma tame_call_setup: assumes "handlers_tame hs" shows "tame i (call_setup hs i)"
proof (rule tameI)
  fix s :: "'a sys"
  show "s_images (snd (call_setup hs i s)) = s_images s \<or>
    (\<exists>im. s_images (snd (call_setup hs i s)) = (s_images s)[i := im] \<and> same_node (s_images s ! i) im)"
  proof (cases rule: call_setup_cases [of hs s i])
    case (ok h f p im w)
    then have "same_node (s_images s ! i) im" using assms unfolding handlers_tame_def setup_tame_def by blast
    then show ?thesis using ok(6) by blast
  qed simp_all
qed

lemma images_run_io [simp]: "s_images (snd (run_io m s)) = s_images s"
  by (simp add: run_io_def split: prod.split)

lemma tame_skip: "tame i skip_op"
  by (rule tameI) (simp add: skip_op_def)

lemma tame_run_io: "tame i (run_io m)"
  by (rule tameI) simp

lemma tame_and_then:
  assumes "tame i m" "tame i n" shows "tame i (and_then m n)"
  unfolding tame_def
proof (intro allI impI)
  fix s :: "'a sys" assume i: "i < length (s_images s)"
  obtain r s1 where m: "m s = (r, s1)" by fastforce
  have a: "same_graph (s_images s) (s_images s1) \<and> (\<forall>j < length (s_images s). im_seen (s_images s1 ! j) = im_seen (s_images s ! j) \<and>
      im_done (s_images s1 ! j) = im_done (s_images s ! j))" (is "?same s s1")
    using assms(1) i m by (auto simp: tame_def dest: spec [of _ s])
  then have l: "length (s_images s1) = length (s_images s)" by (blast dest: same_graph_length)
  then have b: "?same s1 (snd (n s1))" using assms(2) i by (simp add: tame_def)
  have "snd (and_then m n s) = s1 \<or> snd (and_then m n s) = snd (n s1)"
    by (simp add: and_then_def m split: sum.split)
  then show "?same s (snd (and_then m n s))"
    using a b l same_graph_trans [of "s_images s" "s_images s1"] by auto
qed

lemma tame_call_generate: assumes "handlers_tame hs" shows "tame i (call_generate hs i)"
proof (rule tameI)
  fix s :: "'a sys"
  show "s_images (snd (call_generate hs i s)) = s_images s \<or>
    (\<exists>im. s_images (snd (call_generate hs i s)) = (s_images s)[i := im] \<and> same_node (s_images s ! i) im)"
  proof (cases "Option.bind (handler_get hs (im_handler (s_images s ! i))) h_generate")
    case (Some g)
    then obtain h where h: "h \<in> set hs" "h_generate h = Some g"
      using handler_get_set by (cases "handler_get hs (im_handler (s_images s ! i))") fastforce+
    obtain r w where g: "g (gen_env hs i s) (s_world s) = (r, w)" by fastforce
    show ?thesis
    proof (cases r)
      case (Inr im)
      have "gen_tame g" using assms h by (auto simp: handlers_tame_def)
      then have "same_node (g_image (gen_env hs i s)) im" using g Inr unfolding gen_tame_def by blast
      then have n: "same_node (s_images s ! i) im" by (simp add: gen_env_def)
      have "s_images (snd (call_generate hs i s)) = (s_images s)[i := im]"
        by (simp add: call_generate_def Some g Inr set_image_def)
      then show ?thesis using n by blast
    qed (simp add: call_generate_def Some g)
  qed (simp add: call_generate_def)
qed

lemma tame_generate_or_remove:
  assumes "handlers_tame hs" shows "tame i (generate_or_remove hs sh i)"
  unfolding tame_def
proof (intro allI impI)
  fix s :: "'a sys" assume i: "i < length (s_images s)"
  note c = tame_call_generate [OF assms, of i, unfolded tame_def, rule_format, OF i]
  have "s_images (snd (generate_or_remove hs sh i s)) = s_images s \<or>
      s_images (snd (generate_or_remove hs sh i s)) = s_images (snd (call_generate hs i s))"
    by (cases "call_generate hs i s") (auto simp: generate_or_remove_def split: sum.split)
  then show "same_graph (s_images s) (s_images (snd (generate_or_remove hs sh i s))) \<and>
      (\<forall>j < length (s_images s). im_seen (s_images (snd (generate_or_remove hs sh i s)) ! j) = im_seen (s_images s ! j) \<and>
        im_done (s_images (snd (generate_or_remove hs sh i s)) ! j) = im_done (s_images s ! j))"
    using c same_graph_refl by metis
qed

lemma tame_generate_one: assumes "handlers_tame hs" shows "tame i (generate_one hs sh i)"
proof -
  have e: "tame i (setenv_image hs i)"
    by (rule tameI) (simp add: setenv_image_def Let_def split: sum.split)
  have x: "tame i (exec_hook sh c)" for c
    by (cases c) (simp_all add: exec_hook_def tame_skip tame_run_io)
  have "tame i (\<lambda>s. generate_one hs sh i s)"
    unfolding tame_def
  proof (intro allI impI)
    fix s :: "'a sys" assume i: "i < length (s_images s)"
    have "tame i (and_then (setenv_image hs i) (and_then (exec_hook sh a) (and_then (generate_or_remove hs sh i) (exec_hook sh b))))" for a b
      by (intro tame_and_then e x tame_generate_or_remove assms)
    then show "same_graph (s_images s) (s_images (snd (generate_one hs sh i s))) \<and>
      (\<forall>j < length (s_images s). im_seen (s_images (snd (generate_one hs sh i s)) ! j) = im_seen (s_images s ! j) \<and>
        im_done (s_images (snd (generate_one hs sh i s)) ! j) = im_done (s_images s ! j))"
      using i unfolding generate_one_def Let_def tame_def by blast
  qed
  then show ?thesis .
qed

lemma generate_walk: "handlers_tame hs \<Longrightarrow> image_walk 1 (\<lambda>_. skip_op) (generate_one hs sh)"
  by unfold_locales (simp_all add: tame_skip tame_generate_one)

lemma setup_walk: "handlers_tame hs \<Longrightarrow> image_walk (- 1) (resolve_percent hs tree) (call_setup hs)"
  by unfold_locales (simp_all add: tame_resolve_percent tame_call_setup)

section \<open>The setup of a disk image keeps the images of the partitions\<close>

definition id_image :: "partition \<Rightarrow> nat \<times> string option" where
  "id_image p = (p_addr p, p_image p)"

lemma setup_loop_ids:
  "setup_loop ev h pre post st = Inr (ps, st') \<Longrightarrow> map id_image ps = map id_image (pre @ post)"
proof (induction post arbitrary: pre st)
  case (Cons a post)
  from Cons.prems obtain a' st1 pre' where s: "setup_part ev h pre post a st = Inr (a', st1)"
    and g: "grow_extended h a' (st_now st1) (pre @ [a']) = Inr pre'"
    and l: "setup_loop ev h pre' post st1 = Inr (ps, st')" by (auto simp: rbind_ok)
  obtain f where f: "pre' = map f (pre @ [a'])" "\<And>q. resized_ext (hd_extended_partition h) q (f q)"
    by (rule grow_extended_ok [OF g]) blast
  have "id_image (f q) = id_image q" for q using f(2) [of q] by (auto simp: resized_ext_def id_image_def)
  then have "map id_image pre' = map id_image (pre @ [a])"
    using f(1) setup_part_id(1) [OF s] by (simp add: same_id_def id_image_def)
  then show ?case using Cons.IH [OF l] by simp
qed simp

lemma setup_loop_names:
  assumes "setup_loop ev h pre post st = Inr (ps, st')"
  shows "map p_image ps = map p_image (pre @ post)"
proof -
  have "map snd (map id_image ps) = map snd (map id_image (pre @ post))" by (simp only: setup_loop_ids [OF assms])
  then show ?thesis by (simp add: id_image_def comp_def)
qed

lemma logical_loop_names:
  "logical_loop h idx addr st parts = Inr ps \<Longrightarrow> part_names ps = part_names parts"
proof (induction parts arbitrary: st ps)
  case Nil
  then show ?case by (cases st) simp
next
  case (Cons part parts)
  obtain count entries in_ext found where st: "st = (count, entries, in_ext, found)" by (metis prod_cases4)
  show ?case
  proof (cases "p_in_partition_table part")
    case False
    then obtain r where "logical_loop h idx addr st parts = Inr r" "ps = part # r"
      using Cons.prems by (auto simp: rbind_ok st)
    then show ?thesis using Cons.IH by simp
  next
    case True
    define c where "c \<longleftrightarrow> idx = Suc count"
    define b where "b \<longleftrightarrow> (if p_forced_primary part then False else in_ext \<or> c)"
    define st' where "st' = (Suc count, if b then (if c then Suc entries else entries)
        else Suc (if c then Suc entries else entries), b, found \<or> c)"
    define e1 where "e1 \<longleftrightarrow> p_forced_primary part \<and> \<not> (found \<or> c)"
    define e2 where "e2 \<longleftrightarrow> \<not> p_forced_primary part \<and> \<not> b \<and> (found \<or> c)"
    define e3 where "e3 \<longleftrightarrow> (if b then (if c then Suc entries else entries) else Suc (if c then Suc entries else entries)) > 4"
    let ?new = "(if c then [extended_partition h addr part] else []) @ [if b then part\<lparr>p_logical := True\<rparr> else part]"
    have "(if e1 then Inl EINVAL else if e2 then Inl EINVAL else if e3 then Inl EINVAL
        else rbind (logical_loop h idx addr st' parts) (\<lambda>r. Inr (?new @ r))) = Inr ps"
      using Cons.prems unfolding st logical_loop.simps Let_def True not_True_eq_False if_False
        c_def [symmetric] b_def [symmetric] e1_def [symmetric] e2_def [symmetric] e3_def [symmetric] st'_def [symmetric]
      by (simp only: True not_True_eq_False if_False append.assoc append.simps)
    then obtain r where r: "logical_loop h idx addr st' parts = Inr r" and ps: "ps = ?new @ r"
      by (auto simp: rbind_ok split: if_splits)
    have "part_names (if c then [extended_partition h addr part] else []) = {}"
      by (simp add: extended_partition_def fake_partition_def zero_partition_def)
    moreover have "p_image (if b then part\<lparr>p_logical := True\<rparr> else part) = p_image part" by simp
    ultimately show ?thesis using Cons.IH [OF r] by (simp add: ps)
  qed
qed

lemma table_partitions_names: "table_partitions h isize addr = (fakes, now, backup) \<Longrightarrow> part_names fakes = {}"
  by (auto simp: table_partitions_def fake_partition_def zero_partition_def Let_def split: if_splits)

lemma setup_layout_names:
  assumes "setup_layout images shortcuts cfg a0 loc isize parts g = Inr (h, isize', ps, g')"
  shows "part_names ps = part_names parts"
proof -
  obtain h0 parts1 g1 fakes now backup st where s: "start_setup cfg a0 loc parts g = Inr (h0, parts1, g1)"
    and t: "table_partitions h0 isize (fresh_addr parts1) = (fakes, now, backup)"
    and l: "setup_loop \<lparr>ev_images = images, ev_shortcuts = shortcuts, ev_size = isize, ev_backup = backup\<rparr> h0
              [] (parts1 @ fakes)
              \<lparr>st_file_size = now, st_now = now, st_hybrid = 0, st_resized = False, st_rng = g1\<rparr> = Inr (ps, st)"
    by (rule setup_layout_steps [OF assms])
  obtain h1 h2 where "setup_logical_partitions h1 parts = Inr (h2, parts1)"
    using s unfolding start_setup_def by (elim rbindE case_prodE') auto
  then have "part_names parts1 = part_names parts"
    using logical_loop_names by (auto simp: setup_logical_partitions_def Let_def rbind_ok split: if_splits)
  then show ?thesis
    using part_names_map [OF setup_loop_names [OF l]] table_partitions_names [OF t] by simp
qed

section \<open>The modelled handlers leave the marks alone\<close>

text \<open>What holds of the result of an operation, whatever the world.\<close>

definition yields :: "('a \<Rightarrow> bool) \<Rightarrow> 'a io \<Rightarrow> bool" where
  "yields Q m \<longleftrightarrow> (\<forall>w x w'. m w = (Inr x, w') \<longrightarrow> Q x)"

named_theorems yields \<open>what an operation yields, by the structure of the operation\<close>

lemma yields_ret [yields]: "Q x \<Longrightarrow> yields Q (ret x)"
  and yields_throw [yields]: "yields Q (throw e)"
  and yields_bind [yields]: "(\<And>x. yields Q (f x)) \<Longrightarrow> yields Q (bind_io m f)"
  and yields_try [yields]: "(\<And>r. yields Q (g r)) \<Longrightarrow> yields Q (try_io m' g)"
  and yields_if [yields]: "yields Q a \<Longrightarrow> yields Q b \<Longrightarrow> yields Q (if c then a else b)"
  and yields_option [yields]: "yields Q a \<Longrightarrow> (\<And>y. yields Q (h y)) \<Longrightarrow> yields Q (case z of None \<Rightarrow> a | Some y \<Rightarrow> h y)"
  and yields_sum [yields]: "(\<And>e. yields Q (k e)) \<Longrightarrow> (\<And>y. yields Q (l y)) \<Longrightarrow> yields Q (case v of Inl e \<Rightarrow> k e | Inr y \<Rightarrow> l y)"
  and yields_list [yields]: "yields Q a \<Longrightarrow> (\<And>y ys. yields Q (n y ys)) \<Longrightarrow> yields Q (case zs of [] \<Rightarrow> a | y # ys \<Rightarrow> n y ys)"
  and yields_prod [yields]: "(\<And>y y'. yields Q (o' y y')) \<Longrightarrow> yields Q (case p of (y, y') \<Rightarrow> o' y y')"
  by (auto simp: yields_def io_ok split: option.splits sum.splits list.splits prod.splits)

lemma yields_with_mountpath [yields]: "(\<And>d. yields Q (f d)) \<Longrightarrow> yields Q (with_mountpath e a b f)"
  unfolding with_mountpath_def by (intro yields)

lemma yields_run_tool [yields]: "Q im \<Longrightarrow> yields Q (run_tool sh im c)"
  unfolding run_tool_def by (intro yields)

lemma same_node_size [simp]: "same_node im (im\<lparr>im_size := n\<rparr>)" "same_node im im"
  by (simp_all add: same_node_def)

lemma yields_take_size [yields]: "yields (same_node im) (take_size im)"
  unfolding take_size_def Let_def by (intro yields) simp_all

lemma gen_tameI: "(\<And>e. yields (same_node (g_image e)) (g e)) \<Longrightarrow> gen_tame g"
  by (simp add: gen_tame_def yields_def)

lemma gen_tames:
  "gen_tame (cpio_generate opts sh)" "gen_tame (cram_generate opts sh)" "gen_tame (tar_generate opts sh)"
  "gen_tame (iso_generate opts sh)" "gen_tame (jffs2_generate opts sh)" "gen_tame (ubifs_generate opts sh)"
  "gen_tame (f2fs_generate opts sh fm)" "gen_tame (btrfs_generate opts sh fm)" "gen_tame (erofs_generate opts sh l)"
  "gen_tame (squash_generate opts sh)" "gen_tame (custom_generate sh fm c)" "gen_tame (ext2_generate opts sh fm x)"
  "gen_tame (vfat_generate opts sh fm)"
  by (rule gen_tameI, (unfold cpio_generate_def cram_generate_def tar_generate_def iso_generate_def jffs2_generate_def
    ubifs_generate_def f2fs_generate_def btrfs_generate_def erofs_generate_def squash_generate_def custom_generate_def
    ext2_generate_def vfat_generate_def Let_def)[1], intro yields; simp)+

lemma gen_tames':
  "gen_tame (ubi_generate opts sh)" "gen_tame (fit_generate opts sh)"
  "gen_tame (fip_generate opts sh)" "gen_tame (rauc_generate opts sh)" "gen_tame (verity_generate opts sh fm)"
  "gen_tame (verity_sig_generate opts sh fm)" "gen_tame (android_sparse_generate fm p)"
  "gen_tame (file_generate sh f c)"
  by (rule gen_tameI, (unfold ubi_generate_def fit_generate_def fip_generate_def rauc_generate_def
    verity_generate_def verity_sig_generate_def android_sparse_generate_def file_generate_def Let_def prod.case)[1], intro yields; simp)+

lemma gen_tame_qemu: "gen_tame (qemu_generate sh q)"
  by (cases q) (simp add: qemu_generate_def gen_tameI yields)

lemma gen_tame_with_priv: "(\<And>x. gen_tame (f x)) \<Longrightarrow> gen_tame (with_priv pick f)"
  by (auto simp: with_priv_def gen_tame_def io_ok split: option.splits)

lemma gen_tame_prod: "(\<And>a b. gen_tame (f a b)) \<Longrightarrow> gen_tame (case x of (a, b) \<Rightarrow> f a b)"
  by (cases x) simp

lemma gen_tame_keep: "gen_tame (\<lambda>e. bind_io (m e) (\<lambda>_. ret (g_image e)))"
  by (auto simp: gen_tame_def io_ok)

lemma setup_tame_check: "setup_tame (check_setup f)"
  by (auto simp: setup_tame_def check_setup_def io_ok)

lemma setup_tame_priv: "setup_tame (priv_setup C f)"
  by (auto simp: setup_tame_def priv_setup_def io_ok)

definition tame_handler :: "'p handler \<Rightarrow> bool" where
  "tame_handler h \<longleftrightarrow> (\<forall>f. h_setup h = Some f \<longrightarrow> setup_tame f) \<and> (\<forall>g. h_generate h = Some g \<longrightarrow> gen_tame g)"

lemma tame_tool: "gen_tame g \<Longrightarrow> tame_handler (tool_handler t r g)"
  by (simp add: tame_handler_def tool_handler_def)

lemma tame_with_parse: "tame_handler h \<Longrightarrow> tame_handler (h\<lparr>h_parse := x\<rparr>)"
  by (simp add: tame_handler_def)

lemma tame_with_setup: "tame_handler h \<Longrightarrow> setup_tame f \<Longrightarrow> tame_handler (h\<lparr>h_setup := Some f\<rparr>)"
  by (simp add: tame_handler_def)

lemma flash_loop_images:
  "flash_loop images ft parts st = Inr (ps, e) \<Longrightarrow> map p_image ps = map p_image parts"
proof (induction parts arbitrary: st ps)
  case (Cons part parts)
  obtain q st' qs where s: "flash_setup_part images ft part st = Inr (q, st')"
    and l: "flash_loop images ft parts st' = Inr (qs, e)" and ps: "ps = q # qs"
    using Cons.prems unfolding flash_loop.simps by (elim rbindE case_prodE') auto
  obtain lst sz lst' e' where st: "st = (lst, sz)" "st' = (lst', e')" by fastforce
  obtain off n where "q = part\<lparr>p_size := n, p_offset := off\<rparr>" using flash_setup_part_ok(7) [OF s [unfolded st]] by blast
  then show ?case using Cons.IH [OF l] by (simp add: ps)
qed simp

lemma flash_setup_same: "flash_setup ims im = Inr im' \<Longrightarrow> same_node im im'"
proof -
  assume s: "flash_setup ims im = Inr im'"
  obtain ft parts e where "flash_loop ims ft (im_partitions im) (False, 0) = Inr (parts, e)"
    "im' = im\<lparr>im_partitions := parts, im_size := if im_size im = 0 then e else im_size im\<rparr>"
    using s unfolding flash_setup_def by (auto elim!: rbindE split: option.splits if_splits)
  then show ?thesis using part_names_map [OF flash_loop_images] by (simp add: same_node_def)
qed

lemma setup_tame_flash: "setup_tame (\<lambda>ims im sec p. bind_io (lift_io (flash_setup ims im)) (\<lambda>im'. ret (None, im')))"
  by (auto simp: setup_tame_def io_ok dest: flash_setup_same)

lemma file_setup_same: "file_setup indir im sec w = (Inr (p, im'), w') \<Longrightarrow> same_node im im'"
proof -
  have "yields (\<lambda>(p, im'). same_node im im') (file_setup indir im sec)"
    unfolding file_setup_def Let_def by (intro yields) (simp add: same_node_def)
  then show "file_setup indir im sec w = (Inr (p, im'), w') \<Longrightarrow> same_node im im'"
    by (auto simp: yields_def)
qed

lemma setup_tame_file: "setup_tame (\<lambda>ims im sec p. file_setup indir im sec)"
  by (auto simp: setup_tame_def dest: file_setup_same)

lemma hdimage_setup_same:
  assumes "hdimage_setup ims sc cfg im g w = (Inr (h, im', g'), w')" shows "same_node im im'"
proof -
  obtain a0 loc isize isize' parts where "setup_layout ims sc cfg a0 loc isize (im_partitions im) g = Inr (h, isize', parts, g')"
    "im' = im\<lparr>im_size := isize', im_partitions := parts\<rparr>"
    using assms unfolding hdimage_setup_def by (auto simp: io_ok)
  then show ?thesis using setup_layout_names by (simp add: same_node_def)
qed

lemma setup_tame_hd: "setup_tame (\<lambda>ims im sec p. hd_setup_call sc ims im sec)"
  by (auto simp: setup_tame_def hd_setup_call_def io_ok split: option.splits dest: hdimage_setup_same)

lemmas tame_rules = tame_with_parse tame_with_setup tame_tool gen_tame_with_priv setup_tame_check setup_tame_priv
  setup_tame_flash setup_tame_file setup_tame_hd gen_tames gen_tames' gen_tame_qemu
  gen_tame_prod gen_tame_keep

lemma each_tame:
  "tame_handler (file_handler u)" "tame_handler (flash_handler u)" "tame_handler (hdimage_handler u)"
  "tame_handler (custom_handler u)" "tame_handler (erofs_handler u)" "tame_handler (ext_handler u t)"
  "tame_handler (android_sparse_handler u)" "tame_handler (fit_handler u)" "tame_handler (fip_handler u)"
  "tame_handler (jffs2_handler u)" "tame_handler (ubifs_handler u)" "tame_handler (ubi_handler u)"
  "tame_handler (qemu_handler u)" "tame_handler (rauc_handler u)" "tame_handler (verity_handler u)"
  "tame_handler (verity_sig_handler u)" "tame_handler (vfat_handler u)"
  by ((unfold file_handler_def flash_handler_def hdimage_handler_def custom_handler_def erofs_handler_def
    ext_handler_def android_sparse_handler_def fit_handler_def fip_handler_def jffs2_handler_def ubifs_handler_def
    ubi_handler_def qemu_handler_def rauc_handler_def verity_handler_def verity_sig_handler_def vfat_handler_def)[1],
    intro tame_rules)+

lemma all_handlers_tame: "handlers_tame (handlers u)"
proof -
  have "list_all tame_handler (handlers u)"
    unfolding handlers_def list.pred_inject(2) by (intro conjI list.pred_inject(1) each_tame tame_rules)
  then show ?thesis by (simp add: handlers_tame_def tame_handler_def list_all_iff)
qed


interpretation walk_setup: image_walk "- 1" "resolve_percent (handlers u) tree" "call_setup (handlers u)" for u tree
  by (rule setup_walk [OF all_handlers_tame])

interpretation walk_gen: image_walk 1 "\<lambda>_. skip_op" "generate_one (handlers u) sh" for u sh
  by (rule generate_walk [OF all_handlers_tame])

end
