(* ===== verification/Runs.thy ===== *)
theory Runs
  imports HandlerProps
begin

text \<open>
  What the recursions over the images do with the modelled handlers: the program ends; a successful setup and
  a successful run have found all images and an order of them without a cycle; and everything is generated.
\<close>

section \<open>The end of the program\<close>

lemma option_then_total: "m \<noteq> None \<Longrightarrow> (\<And>s. f s \<noteq> None) \<Longrightarrow> option_then m f \<noteq> None"
  by (auto simp: option_then_def split: option.splits prod.splits sum.splits)

lemma build_total: "build (handlers u) sh tree cfg s \<noteq> None"
  unfolding build_def image_setup_def image_generate_def
  by (intro option_then_total walk_setup.all_images_total walk_gen.all_images_total option.distinct)

text \<open>
  C24: the program ends for every configuration, also when its images contain one another in a cycle: the
  recursions over the images need no more steps in depth than there are images.
\<close>

theorem genimage_terminates: "genimage_main (handlers u) sh tree entries cfg s \<noteq> None"
proof -
  obtain r w where t: "check_tmp_path sh (Some (tmp_path (s_paths s))) entries (s_world s) = (r, w)" by fastforce
  obtain q s' where b: "build (handlers u) sh tree cfg (s\<lparr>s_world := w\<rparr>) = Some (q, s')"
    using build_total by fastforce
  show ?thesis by (cases r) (auto simp: genimage_main_def t b split: sum.split error.split)
qed

section \<open>The order of the images\<close>

text \<open>The images without a mark of the setup, and of the generation.\<close>

definition untouched :: "image list \<Rightarrow> bool" where
  "untouched ims \<longleftrightarrow> (\<forall>im \<in> set ims. im_seen im = 0 \<and> im_done im = 0)"

lemma untouched_marks: "untouched ims \<Longrightarrow> finished sg ims = {} \<and> begun sg ims = {}"
  by (auto simp: untouched_def finished_def begun_def)

text \<open>\<open>children_first ims rk\<close>: every image of a partition exists, and comes before its parent.\<close>

definition children_first :: "image list \<Rightarrow> (nat \<Rightarrow> nat) \<Rightarrow> bool" where
  "children_first ims rk \<longleftrightarrow> (\<forall>i < length ims. \<forall>part \<in> set (im_partitions (ims ! i)). \<forall>f.
     p_image part = Some f \<longrightarrow> (\<exists>j. image_index ims f = Some j \<and> rk j < rk i))"

lemma children_first_iff: "children_first ims rk \<longleftrightarrow>
  (\<forall>i < length ims. (\<forall>m \<in> child_names ims i. image_index ims m \<noteq> None) \<and> (\<forall>k \<in> kids ims i. rk k < rk i))"
proof -
  have m: "m \<in> child_names ims i \<longleftrightarrow> (\<exists>part \<in> set (im_partitions (ims ! i)). p_image part = Some m)" for i m
    by (force simp: child_names_def part_images_def)
  show ?thesis unfolding children_first_def kids_def m
  proof (intro iffI allI impI conjI ballI)
    fix i m
    assume a: "\<forall>i < length ims. \<forall>part \<in> set (im_partitions (ims ! i)). \<forall>f. p_image part = Some f \<longrightarrow>
      (\<exists>j. image_index ims f = Some j \<and> rk j < rk i)" and i: "i < length ims"
    show "image_index ims m \<noteq> None" if "m \<in> child_names ims i" using that a i m by fastforce
    show "rk k < rk i" if "k \<in> {j. \<exists>n \<in> child_names ims i. image_index ims n = Some j}" for k using that a i m by fastforce
  qed (use m in fastforce)
qed

context image_walk
begin

lemma all_images_order:
  assumes "all_images (visit sg pre post) s = Some (Inr v, s')" and "finished sg (s_images s) = {}"
  shows "finished sg (s_images s') = {..<length (s_images s)} \<and> same_graph (s_images s) (s_images s') \<and> (\<exists>rk. children_first (s_images s) rk)"
proof -
  note a = all_images_success [OF assms(1)]
  have g: "same_graph (s_images s) (s_images s')" using a by (simp add: steps_def later_def)
  have "ordered sg (s_images s')" using a assms(2) by (simp add: steps_def ordered_Nil)
  then obtain rk where rk: "\<And>i. i < length (s_images s) \<Longrightarrow> placed sg (s_images s') rk i"
    using a unfolding ordered_def by auto
  have "children_first (s_images s) rk"
    using rk same_graph_kids [OF g] same_graph_names [OF g] same_graph_index [OF g]
    unfolding children_first_iff placed_def by metis
  then show ?thesis using g a by blast
qed

end

text \<open>
  C21: when the setup of all images succeeds, every image that a partition names exists and no image contains
  itself, directly or through others: the images can be numbered so that children come before their parents.
  All are marked as done.
\<close>

theorem setup_finds_cycles:
  assumes "all_images (image_setup (handlers u) tree) s = Some (Inr v, s')" and "untouched (s_images s)"
  shows "(\<exists>rk. children_first (s_images s) rk) \<and> (\<forall>i < length (s_images s). im_done (s_images s' ! i) < 0)"
proof -
  note a = assms(1) [unfolded image_setup_def]
  have "im_done (s_images s' ! i) < 0" if "i < length (s_images s)" for i
    using walk_setup.all_images_success [OF a] that by (auto simp: finished_def)
  then show ?thesis using walk_setup.all_images_order [OF a] untouched_marks [OF assms(2)] by blast
qed

section \<open>The marks before the setup\<close>

definition no_marks :: "image \<Rightarrow> bool" where
  "no_marks im \<longleftrightarrow> im_seen im = 0 \<and> im_done im = 0"

lemma untouched_all: "untouched ims \<longleftrightarrow> (\<forall>im \<in> set ims. no_marks im)"
  by (simp add: untouched_def no_marks_def)

definition parse_tame :: "(image list \<Rightarrow> image \<Rightarrow> cfg option \<Rightarrow> ('p option \<times> image) io) \<Rightarrow> bool" where
  "parse_tame f \<longleftrightarrow> (\<forall>ims im sec w p im' w'. f ims im sec w = (Inr (p, im'), w') \<longrightarrow> no_marks im \<longrightarrow> no_marks im')"

lemma parse_tameI: "(\<And>im sec im'. f im sec = Inr im' \<Longrightarrow> no_marks im \<Longrightarrow> no_marks im') \<Longrightarrow> parse_tame (image_parse f)"
  by (auto simp: parse_tame_def image_parse_def io_ok)

lemma marks_add_partition [simp]: "no_marks (add_partition f im) = no_marks im"
  by (simp add: no_marks_def add_partition_def)

lemma marks_fold: "(\<And>x im. no_marks im \<Longrightarrow> no_marks (f x im)) \<Longrightarrow> no_marks im \<Longrightarrow> no_marks (fold f xs im)"
  by (induction xs arbitrary: im) auto

lemma marks_rauc_files: "rauc_files cs im = Inr im' \<Longrightarrow> no_marks im \<Longrightarrow> no_marks im'"
  by (induction cs arbitrary: im) (auto simp: rauc_file_def elim!: rbindE)

lemma marks_source: "source_parse im sec = Inr im' \<Longrightarrow> no_marks im \<Longrightarrow> no_marks im'"
  by (auto simp: source_parse_def split: option.splits)

lemma marks_fip: "fip_parse im sec = Inr im' \<Longrightarrow> no_marks im \<Longrightarrow> no_marks im'"
  by (auto simp: fip_parse_def Let_def fip_add_part_def split: if_splits option.splits intro!: marks_fold)

lemma marks_rauc_parts: "no_marks (rauc_part k f im) = no_marks im" "no_marks (rauc_part_unless k f im) = no_marks im"
  by (simp_all add: rauc_part_unless_def rauc_part_def)

lemma marks_rauc: assumes "rauc_parse im sec = Inr im'" "no_marks im" shows "no_marks im'"
proof -
  obtain key cert where k: "sec_str sec ''key'' = Some key" "sec_str sec ''cert'' = Some cert"
    using assms(1) unfolding rauc_parse_def by (auto split: option.splits)
  let ?im1 = "rauc_part_unless RAUC_CERT cert (rauc_part_unless RAUC_KEY key im)"
  let ?im2 = "case sec_str sec ''keyring'' of None \<Rightarrow> ?im1 | Some k \<Rightarrow> rauc_part RAUC_KEYRING k ?im1"
  obtain im4 where f: "rauc_files (sec_secs sec ''file'') (fold (rauc_part_unless RAUC_INTERMEDIATE) (sec_strs sec ''intermediate'') ?im2) = Inr im4"
    and im': "im' = fold (rauc_part RAUC_CONTENT) (sec_strs sec ''files'') im4"
    using assms(1) unfolding rauc_parse_def Let_def k option.case by (auto elim!: rbindE)
  have "no_marks ?im2" using assms(2) by (simp add: marks_rauc_parts split: option.split)
  then have "no_marks im4" by (intro marks_rauc_files [OF f] marks_fold) (simp_all add: marks_rauc_parts)
  then show ?thesis unfolding im' by (intro marks_fold) (simp_all add: marks_rauc_parts)
qed

lemma marks_vfat: "no_marks im \<Longrightarrow> no_marks (vfat_parse im sec)"
  unfolding vfat_parse_def by (intro marks_fold) simp_all

lemma marks_sig: "verity_sig_parse im sec = Inr im' \<Longrightarrow> no_marks im \<Longrightarrow> no_marks im'"
  by (auto simp: verity_sig_parse_def verity_part_def split: option.splits if_splits)

lemma parse_tames:
  "parse_tame (image_parse android_sparse_parse)" "parse_tame (image_parse verity_parse)"
  "parse_tame (image_parse verity_sig_parse)" "parse_tame (image_parse fip_parse)" "parse_tame (image_parse rauc_parse)"
  "parse_tame (image_parse (\<lambda>im sec. Inr (fit_parse im sec)))" "parse_tame (image_parse (\<lambda>im sec. Inr (file_parse im)))"
  "parse_tame (image_parse (\<lambda>im sec. Inr (custom_parse im)))"
  by (rule parse_tameI, auto simp: android_sparse_parse_def verity_parse_def fit_parse_def file_parse_def custom_parse_def
      no_marks_def [symmetric] intro: marks_source marks_sig marks_fip marks_rauc marks_fold;
      simp add: no_marks_def)+

lemma parse_tame_vfat: "parse_tame (image_parse (\<lambda>im sec. Inr (vfat_parse im sec)))"
  by (rule parse_tameI) (auto intro: marks_vfat)

lemma handlers_parse_tame: "\<forall>h \<in> set (handlers u). \<forall>f. h_parse h = Some f \<longrightarrow> parse_tame f"
  unfolding handlers_def list.set(2) ball_simps(7)
  by (intro conjI; simp add: tool_handler_def file_handler_def flash_handler_def hdimage_handler_def custom_handler_def
    erofs_handler_def ext_handler_def android_sparse_handler_def fit_handler_def fip_handler_def jffs2_handler_def
    ubifs_handler_def ubi_handler_def qemu_handler_def rauc_handler_def verity_handler_def verity_sig_handler_def
    vfat_handler_def parse_tames parse_tame_vfat)

section \<open>From the configuration to the setup\<close>

lemma untouched_append: "untouched ims \<Longrightarrow> no_marks im \<Longrightarrow> untouched (ims @ [im])"
  by (auto simp: untouched_all)

lemma call_parse_marks:
  assumes p: "\<forall>h \<in> set hs. \<forall>f. h_parse h = Some f \<longrightarrow> parse_tame f"
    and c: "call_parse hs i s = (r, s')" and i: "i < length (s_images s)" and u: "untouched (s_images s)"
  shows "untouched (s_images s')"
proof (cases "Option.bind (handler_get hs (im_handler (s_images s ! i))) h_parse")
  case None
  then show ?thesis using c u by (simp add: call_parse_def)
next
  case (Some f)
  then obtain h where "handler_get hs (im_handler (s_images s ! i)) = Some h" "h_parse h = Some f"
    by (cases "handler_get hs (im_handler (s_images s ! i))") auto
  then have f: "parse_tame f" using p handler_get_set by metis
  obtain q w where q: "f (s_images s) (s_images s ! i) (s_sec s i) (s_world s) = (q, w)" by fastforce
  have s': "s' = snd (finish_call i (q, w) s)" using c by (simp add: call_parse_def Some q)
  show ?thesis
  proof (cases q)
    case (Inl e)
    then show ?thesis using u s' by (simp add: finish_call_def)
  next
    case (Inr x)
    obtain pr im where x: "x = (pr, im)" by fastforce
    have "no_marks (s_images s ! i)" using u i by (auto simp: untouched_all)
    then have "no_marks im" using f q unfolding parse_tame_def Inr x by blast
    then have "untouched ((s_images s)[i := im])"
      using u set_update_subset_insert [of "s_images s" i im] unfolding untouched_all by blast
    then show ?thesis using s' by (simp add: finish_call_def Inr x set_image_def)
  qed
qed

text \<open>An operation that keeps the images free of marks.\<close>

definition unmarking :: "'p op \<Rightarrow> bool" where
  "unmarking m \<longleftrightarrow> (\<forall>s. untouched (s_images s) \<longrightarrow> untouched (s_images (snd (m s))))"

lemma unmarking_and_then:
  assumes "unmarking m" "unmarking n" shows "unmarking (and_then m n)"
  unfolding unmarking_def
proof (intro allI impI)
  fix s :: "'a sys" assume "untouched (s_images s)"
  then show "untouched (s_images (snd (and_then m n s)))"
    using assms by (cases "m s") (auto simp: and_then_def unmarking_def split: sum.split dest: spec [of _ s])
qed

lemma marks_zero_image: "no_marks (zero_image f t)"
  by (simp add: no_marks_def zero_image_def)

lemma new_image_marks: "new_image pt fl ts sec = Inr (im, hsec) \<Longrightarrow> no_marks im"
  unfolding new_image_def Let_def by (elim rbindE case_prodE') (auto simp: no_marks_def zero_image_def)

abbreviation "parses_tame hs \<equiv> \<forall>h \<in> set hs. \<forall>f. h_parse h = Some f \<longrightarrow> parse_tame f"

lemma images_append_image [simp]: "s_images (append_image im sec ps s) = s_images s @ [im]"
  by (simp add: append_image_def Let_def)

lemma unmarking_add_image: assumes "parses_tame hs" shows "unmarking (add_image hs fl sec)"
  unfolding unmarking_def
proof (intro allI impI)
  fix s :: "'a sys" assume u: "untouched (s_images s)"
  show "untouched (s_images (snd (add_image hs fl sec s)))"
  proof (cases "new_image (s_paths s) fl (map h_type hs) sec")
    case (Inr x)
    obtain im hsec where x: "x = (im, hsec)" by fastforce
    let ?s = "append_image im hsec (cfg_secs sec ''partition'') s"
    obtain r s' where c: "call_parse hs (length (s_images s)) ?s = (r, s')" by fastforce
    have "untouched (s_images ?s)" using u new_image_marks [OF Inr [unfolded x]] by (simp add: untouched_append)
    then have "untouched (s_images s')" by (intro call_parse_marks [OF assms c]) simp_all
    then show ?thesis by (simp add: add_image_def Inr x c)
  qed (simp add: add_image_def u)
qed

lemma unmarking_skip: "unmarking skip_op"
  by (simp add: unmarking_def skip_op_def)

lemma unmarking_add_images: "parses_tame hs \<Longrightarrow> unmarking (add_images hs fl secs)"
  by (induction secs) (simp_all add: unmarking_skip unmarking_and_then unmarking_add_image)

lemma untouched_set: "untouched (s_images s) \<Longrightarrow> no_marks im \<Longrightarrow> untouched (s_images (set_image i im s))"
  using set_update_subset_insert [of "s_images s" i im] by (auto simp: set_image_def untouched_all)

lemma unmarking_check_partition: assumes "parses_tame hs" shows "unmarking (check_partition hs i k)"
  unfolding unmarking_def
proof (intro allI impI)
  fix s :: "'a sys" assume u: "untouched (s_images s)"
  show "untouched (s_images (snd (check_partition hs i k s)))"
  proof (cases "Option.bind (p_image (im_partitions (s_images s ! i) ! k)) (\<lambda>f. case image_index (s_images s) f of None \<Rightarrow> Some f | _ \<Rightarrow> None)")
    case None
    then show ?thesis using u by (auto simp: check_partition_def Let_def split: option.splits)
  next
    case (Some f)
    then have f: "p_image (im_partitions (s_images s ! i) ! k) = Some f" "image_index (s_images s) f = None"
      by (auto simp: bind_eq_Some_conv split: option.splits)
    let ?j = "length (s_images s)" and ?s = "append_image (zero_image f ''file'') None [] s"
    obtain r s' where c: "call_parse hs ?j ?s = (r, s')" by fastforce
    have l: "?j < length (s_images ?s)" by simp
    have us: "untouched (s_images s')"
      by (rule call_parse_marks [OF assms c l]) (simp add: u untouched_append marks_zero_image)
    show ?thesis
    proof (cases r)
      case (Inl e)
      then show ?thesis using us by (simp add: check_partition_def f c)
    next
      case (Inr v)
      have "length (s_images s') = length (s_images ?s)"
        using c by (auto simp: call_parse_def finish_call_def set_image_def Let_def split: option.splits sum.splits prod.splits)
      then have "s_images s' ! ?j \<in> set (s_images s')" by simp
      then have "no_marks (s_images s' ! ?j)" using us by (simp add: untouched_all)
      then show ?thesis using us
        by (simp add: check_partition_def f c Inr Let_def) (rule untouched_set, simp_all add: no_marks_def)
    qed
  qed
qed

lemma unmarking_check_partitions: "parses_tame hs \<Longrightarrow> unmarking (check_partitions hs i ks)"
  by (induction ks) (simp_all add: unmarking_skip unmarking_and_then unmarking_check_partition)

lemma unmarking_check_images: "parses_tame hs \<Longrightarrow> unmarking (check_images hs js)"
proof (induction js)
  case (Cons i js)
  have "unmarking (\<lambda>s. check_partitions hs i [0..<length (im_partitions (s_images s ! i))] s)"
    using unmarking_check_partitions [OF Cons.prems] by (simp add: unmarking_def)
  then show ?case using Cons unmarking_and_then by simp
qed (simp add: unmarking_skip)

lemma give_flash_type_cases:
  "give_flash_type ft f a = Inr b \<Longrightarrow> b = a \<or> (\<exists>j < length a. b = a[j := (a ! j)\<lparr>im_flash_type := Some ft\<rparr>])"
  by (auto simp: give_flash_type_def dest: image_index_less split: option.splits if_splits)

lemma give_flash_type_marks: assumes "give_flash_type ft f a = Inr b" "untouched a" shows "untouched b"
  using give_flash_type_cases [OF assms(1)]
proof
  assume "\<exists>j < length a. b = a[j := (a ! j)\<lparr>im_flash_type := Some ft\<rparr>]"
  then obtain j where j: "j < length a" "b = a[j := (a ! j)\<lparr>im_flash_type := Some ft\<rparr>]" by blast
  have "no_marks (a ! j)" using assms(2) j(1) by (simp add: untouched_all)
  then have "no_marks ((a ! j)\<lparr>im_flash_type := Some ft\<rparr>)" by (simp add: no_marks_def)
  then show ?thesis using assms(2) set_update_subset_insert [of a j] unfolding j(2) untouched_all by blast
qed (simp add: assms(2))

lemma give_flash_types_marks: "give_flash_types ft fls a = Inr b \<Longrightarrow> untouched a \<Longrightarrow> untouched b"
  by (induction fls arbitrary: a) (auto elim!: rbindE dest: give_flash_type_marks)

lemma flash_type_marks: "set_flash_types js ims = Inr ims' \<Longrightarrow> untouched ims \<Longrightarrow> untouched ims'"
proof (induction js arbitrary: ims)
  case (Cons i js)
  then obtain a where a: "(case im_flash_type (ims ! i) of None \<Rightarrow> Inr ims
      | Some ft \<Rightarrow> give_flash_types ft (map p_image (im_partitions (ims ! i))) ims) = Inr a"
    "set_flash_types js a = Inr ims'" by (auto elim!: rbindE)
  have "untouched a" using a(1) Cons.prems(2) give_flash_types_marks by (auto split: option.splits)
  then show ?case by (rule Cons.IH [OF a(2)])
qed simp

lemma mountpoint_marks: "add_mountpoints pt ims mps = (ims', mps') \<Longrightarrow> untouched ims \<Longrightarrow> untouched ims'"
  by (induction ims arbitrary: mps ims' mps') (auto simp: untouched_all no_marks_def split: option.splits prod.splits)

lemma unmarking_collect: "unmarking (collect hs sh)"
  unfolding unmarking_def
proof (intro allI impI)
  fix s :: "'a sys" assume u: "untouched (s_images s)"
  obtain r w where c: "collect_mountpoints sh (no_rootpath hs) (s_paths s) (s_images s) (s_world s) = (r, w)" by fastforce
  show "untouched (s_images (snd (collect hs sh s)))"
  proof (cases r)
    case (Inr x)
    obtain ims mps pt where x: "x = (ims, mps, pt)" by (metis prod_cases3)
    have "untouched ims" using c u mountpoint_marks unfolding Inr x collect_mountpoints_def
      by (auto simp: io_ok split: if_splits prod.splits)
    then show ?thesis by (simp add: collect_def c Inr x)
  qed (simp add: collect_def c u)
qed

lemma unmarking_prepare: assumes p: "parses_tame hs" shows "unmarking (prepare hs sh cfg)"
proof -
  have fl: "unmarking (\<lambda>s. case set_flash_type (s_images s) of Inl e \<Rightarrow> (Inl e, s) | Inr ims \<Rightarrow> (Inr (), s\<lparr>s_images := ims\<rparr>))"
    unfolding unmarking_def set_flash_type_def using flash_type_marks by (auto split: sum.split)
  have ck: "unmarking (\<lambda>s. check_images hs [0..<length (s_images s)] s)"
    using unmarking_check_images [OF p] by (simp add: unmarking_def)
  have run: "unmarking (run_io m)" for m by (simp add: unmarking_def)
  have tl: "unmarking (and_then (add_images hs flashes (cfg_secs cfg ''image''))
      (and_then (\<lambda>s. check_images hs [0..<length (s_images s)] s)
      (and_then (\<lambda>s. case set_flash_type (s_images s) of Inl e \<Rightarrow> (Inl e, s) | Inr ims \<Rightarrow> (Inr (), s\<lparr>s_images := ims\<rparr>))
        (collect hs sh))))" for flashes
    by (intro unmarking_and_then unmarking_add_images p ck fl unmarking_collect)
  have "unmarking (\<lambda>s. case parse_flashes (cfg_secs cfg ''flash'') of Inl e \<Rightarrow> (Inl e, s)
      | Inr flashes \<Rightarrow> and_then (add_images hs flashes (cfg_secs cfg ''image''))
      (and_then (\<lambda>s. check_images hs [0..<length (s_images s)] s)
      (and_then (\<lambda>s. case set_flash_type (s_images s) of Inl e \<Rightarrow> (Inl e, s) | Inr ims \<Rightarrow> (Inr (), s\<lparr>s_images := ims\<rparr>))
        (collect hs sh))) s)"
    using tl unfolding unmarking_def by (auto split: sum.split)
  note rest = this
  have "unmarking (\<lambda>s. prepare hs sh cfg s)"
    unfolding prepare_def unmarking_def
    using unmarking_and_then [OF run rest] unfolding unmarking_def by blast
  then show ?thesis .
qed

lemma children_first_cong: assumes "same_graph ims ims'" shows "children_first ims' rk = children_first ims rk"
  unfolding children_first_iff
  using same_graph_length [OF assms] same_graph_kids [OF assms] same_graph_names [OF assms] same_graph_index [OF assms]
  by simp

lemma option_then_ok: "option_then m f = Some (Inr v, s') \<longleftrightarrow> (\<exists>x s. m = Some (Inr x, s) \<and> f s = Some (Inr v, s'))"
  by (auto simp: option_then_def split: option.splits prod.splits sum.splits)

text \<open>
  C20: when \<open>main\<close> gets to its end without an error, every image of the configuration and every implicit one
  has been generated, and the images have an order in which each comes after the images of its partitions,
  which all exist.
\<close>

theorem build_generates_all:
  assumes "build (handlers u) sh tree cfg s = Some (Inr v, s')" and "s_images s = []"
  shows "(\<forall>im \<in> set (s_images s'). im_done im > 0) \<and> (\<exists>rk. children_first (s_images s') rk)"
proof -
  let ?hs = "handlers u"
  obtain x1 s1 where p0: "Some (prepare ?hs sh cfg s) = Some (Inr x1, s1)"
    and b1: "option_then (all_images (image_setup ?hs tree) s1) (\<lambda>s.
     option_then (Some (run_io (systemp sh (''mkdir -p '' @ quoted (image_path (s_paths s)))) (setenv_paths s)))
       (all_images (image_generate ?hs sh))) = Some (Inr v, s')"
    using assms(1) unfolding build_def option_then_ok [of "Some (prepare ?hs sh cfg s)"] by blast
  note p = p0 [unfolded option.inject]
  obtain x2 s2 x3 s3 where a: "all_images (image_setup ?hs tree) s1 = Some (Inr x2, s2)"
    and m: "run_io (systemp sh (''mkdir -p '' @ quoted (image_path (s_paths s2)))) (setenv_paths s2) = (Inr x3, s3)"
    and g: "all_images (image_generate ?hs sh) s3 = Some (Inr v, s')"
    using b1 unfolding option_then_ok option.inject by blast
  have "untouched (s_images s)" by (simp add: untouched_def assms(2))
  then have "untouched (s_images (snd (prepare ?hs sh cfg s)))"
    using unmarking_prepare [OF handlers_parse_tame] unfolding unmarking_def by blast
  then have "untouched (s_images s1)" unfolding p snd_conv .
  then have f1: "finished (- 1) (s_images s1) = {}" by (simp add: untouched_marks)
  have fin2: "finished (- 1) (s_images s2) = {..<length (s_images s1)}" and g2: "same_graph (s_images s1) (s_images s2)"
    using walk_setup.all_images_order [OF a [unfolded image_setup_def] f1] by blast+
  have "s_images (snd (run_io (systemp sh (''mkdir -p '' @ quoted (image_path (s_paths s2)))) (setenv_paths s2))) = s_images s2"
    by (simp only: images_run_io) (simp add: setenv_paths_def)
  then have i3: "s_images s3 = s_images s2" unfolding m snd_conv .
  have "i \<notin> finished 1 (s_images s2)" for i
  proof
    assume i: "i \<in> finished 1 (s_images s2)"
    then have "i \<in> finished (- 1) (s_images s2)" using fin2 same_graph_length [OF g2] finished_less [OF i] by simp
    then show False using i by (simp add: finished_def)
  qed
  then have f3: "finished 1 (s_images s3) = {}" unfolding i3 by blast
  have o3: "finished 1 (s_images s') = {..<length (s_images s3)}" "same_graph (s_images s3) (s_images s')"
    "\<exists>rk. children_first (s_images s3) rk"
    using walk_gen.all_images_order [OF g [unfolded image_generate_def] f3] by blast+
  then obtain rk where rk: "children_first (s_images s3) rk" by blast
  note gr = o3(2)
  have "im_done im > 0" if im: "im \<in> set (s_images s')" for im
  proof -
    obtain i where i: "i < length (s_images s')" "im = s_images s' ! i" using im unfolding in_set_conv_nth by metis
    have "i \<in> finished 1 (s_images s')" using o3(1) i(1) same_graph_length [OF gr] by simp
    then show ?thesis by (simp add: finished_def i(2))
  qed
  then show ?thesis using rk children_first_cong [OF gr] by blast
qed

lemmas table_defs = tool_handler_def file_handler_def flash_handler_def hdimage_handler_def custom_handler_def
    erofs_handler_def ext_handler_def android_sparse_handler_def fit_handler_def fip_handler_def jffs2_handler_def
    ubifs_handler_def ubi_handler_def qemu_handler_def rauc_handler_def verity_handler_def verity_sig_handler_def
    vfat_handler_def

lemma handler_setups:
  "Option.bind (handler_get (handlers u) ''hdimage'') h_setup = Some (\<lambda>ims im sec p. hd_setup_call (su_shortcuts u) ims im sec)"
  "Option.bind (handler_get (handlers u) ''flash'') h_setup =
     Some (\<lambda>ims im sec p. bind_io (lift_io (flash_setup ims im)) (\<lambda>im'. ret (None, im')))"
  "Option.bind (handler_get (handlers u) ''tar'') h_setup = None"
  "Option.bind (handler_get (handlers u) ''file'') h_setup = Some (\<lambda>ims im sec p. file_setup (su_inputpath u) im sec)"
  "Option.bind (handler_get (handlers u) ''qemu'') h_setup = Some (priv_setup QemuPriv (\<lambda>im sec. lift_io (qemu_setup im sec)))"
  by (simp_all add: handlers_def table_defs)

section \<open>The hypotheses can hold\<close>

definition demo_surroundings :: surroundings where
  "demo_surroundings = \<lparr>su_opts = [], su_shell = (\<lambda>c w. (Exited 0, w)), su_fiemap = (\<lambda>_. []), su_inputpath = ''input'',
     su_shortcuts = []\<rparr>"

definition demo_paths :: paths where
  "demo_paths = \<lparr>tmp_path = ''tmp'', image_path = ''images'', input_path = ''input'', root_path = ''root''\<rparr>"

definition demo_sys :: "image list \<Rightarrow> hpriv sys" where
  "demo_sys ims = \<lparr>s_images = ims, s_sec = (\<lambda>_. None), s_parts = (\<lambda>_. []), s_priv = (\<lambda>_. None), s_mps = [],
     s_paths = demo_paths, s_env = (\<lambda>_. None), s_world = demo_world ''input/in''\<rparr>"

text \<open>A flash image and, after it in the list, the archive that it contains.\<close>

definition demo_images :: "image list" where
  "demo_images = [demo_flash_image\<lparr>im_handler := ''flash''\<rparr>, (demo_image ''in'' 3)\<lparr>im_handler := ''tar''\<rparr>]"

lemma visit_numeral: "visit sg pre post (numeral k) = visit sg pre post (Suc (pred_numeral k))"
  by (simp only: numeral_eq_Suc)

lemma demo_setup_runs:
  "\<exists>s'. all_images (image_setup (handlers u) tree) (demo_sys demo_images) = Some (Inr (), s')"
  by (simp add: all_images_def image_setup_def demo_sys_def demo_images_def demo_flash_image_def demo_image_def
    set_image_def resolve_percent_def call_setup_def finish_call_def handler_setups part_images_def zero_partition_def
    bind_io_def lift_io_def ret_def visit_numeral Let_def
    flash_setup_def flash_setup_part_def flash_part_size_def flash_check_image_def flash_size_def flash_pebsize_def demo_flash_def)

lemma demo_untouched: "untouched (s_images (demo_sys demo_images))"
  by (simp add: untouched_def demo_sys_def demo_images_def demo_flash_image_def demo_image_def)

lemma setup_finds_cycles_witness:
  "\<exists>s'. all_images (image_setup (handlers demo_surroundings) (\<lambda>_. None)) (demo_sys demo_images) = Some (Inr (), s') \<and>
     (\<exists>rk. children_first demo_images rk)"
proof -
  obtain s' where s: "all_images (image_setup (handlers demo_surroundings) (\<lambda>_. None)) (demo_sys demo_images) = Some (Inr (), s')"
    using demo_setup_runs by blast
  then show ?thesis using setup_finds_cycles [OF s demo_untouched] by (simp add: demo_sys_def)
qed

section \<open>A whole run\<close>

text \<open>A configuration with one image, for \<open>qemu\<close>, whose partition is the file \<open>in\<close>; all commands succeed.\<close>

definition demo_sec :: "string \<Rightarrow> (string \<Rightarrow> string option) \<Rightarrow> (string \<Rightarrow> cfg list) \<Rightarrow> cfg" where
  "demo_sec title strs secs = Cfg title strs (\<lambda>_. 0) (\<lambda>_. False) (\<lambda>_. False) (\<lambda>_. []) secs"

definition demo_qemu :: "(string \<Rightarrow> string option) \<Rightarrow> cfg" where
  "demo_qemu strs = demo_sec [] (\<lambda>_. None) ((\<lambda>_. [])(''image'' := [demo_sec ''q'' strs
     ((\<lambda>_. [])(''qemu'' := [demo_sec [] [''format'' \<mapsto> ''raw'', ''extraargs'' \<mapsto> []] (\<lambda>_. [])],
       ''partition'' := [demo_sec ''p'' [''image'' \<mapsto> ''in''] (\<lambda>_. [])]))]))"

definition demo_shell :: shell where
  "demo_shell = (\<lambda>c w. (Exited 0, w))"

lemma demo_build:
  "map_option (\<lambda>(r, s). (r, length (s_images s)))
     (build (handlers demo_surroundings) demo_shell (\<lambda>_. None) (demo_qemu (\<lambda>_. None)) (demo_sys [])) = Some (Inr (), 2)"
  by code_simp

lemma build_generates_all_witness:
  "\<exists>s'. build (handlers demo_surroundings) demo_shell (\<lambda>_. None) (demo_qemu (\<lambda>_. None)) (demo_sys []) = Some (Inr (), s') \<and>
     length (s_images s') = 2 \<and> (\<exists>rk. children_first (s_images s') rk)"
proof -
  obtain s' where b: "build (handlers demo_surroundings) demo_shell (\<lambda>_. None) (demo_qemu (\<lambda>_. None)) (demo_sys []) = Some (Inr (), s')"
    and l: "length (s_images s') = 2"
    using demo_build by auto
  show ?thesis using build_generates_all [OF b] b l by (simp add: demo_sys_def)
qed


end
