(* ===== verification/Contract.thy ===== *)
theory Contract
  imports Runs
begin

text \<open>
  The contract of the setup across images: the image of every partition fits, with the sizes at the end. It is an
  instance of \<open>image_contract\<close>, proved of the setup of one image and carried over the recursion by the locale.
\<close>

section \<open>The images fit\<close>

text \<open>
  What the setup promises of a partition with an image: the image exists, and what is placed of it fits. An
  \<open>hdimage\<close> looks at images with a size only, and from the image offset on.
\<close>

definition hd_fits :: "image list \<Rightarrow> partition \<Rightarrow> bool" where
  "hd_fits ims p \<longleftrightarrow> (\<forall>f. p_image p = Some f \<longrightarrow> (\<exists>child. image_get ims f = Some child \<and> (im_size child \<noteq> 0 \<longrightarrow>
     p_imageoffset p \<le> im_size child \<and> im_size child - p_imageoffset p \<le> p_size p)))"

definition flash_fits :: "image list \<Rightarrow> partition \<Rightarrow> bool" where
  "flash_fits ims p \<longleftrightarrow> (\<forall>f. p_image p = Some f \<longrightarrow> (\<exists>child. image_get ims f = Some child \<and> im_size child \<le> p_size p))"

definition all_fit :: "image list \<Rightarrow> nat \<Rightarrow> bool" where
  "all_fit ims i \<longleftrightarrow> (\<forall>p \<in> set (im_partitions (ims ! i)).
     (im_handler (ims ! i) = ''hdimage'' \<longrightarrow> hd_fits ims p) \<and> (im_handler (ims ! i) = ''flash'' \<longrightarrow> flash_fits ims p))"

definition parts_distinct :: "image list \<Rightarrow> nat \<Rightarrow> bool" where
  "parts_distinct ims i \<longleftrightarrow> distinct (map p_addr (im_partitions (ims ! i)))"

text \<open>It depends on the image and its children only.\<close>

lemma image_get_index: "image_get ims f = map_option ((!) ims) (image_index ims f)"
  by (induction ims) (auto simp: option.map_comp comp_def intro!: option.map_cong)

lemma all_fit_cong:
  assumes f: "map im_file ims' = map im_file ims" and i: "i < length ims"
    and p: "im_partitions (ims' ! i) = im_partitions (ims ! i)" "im_handler (ims' ! i) = im_handler (ims ! i)"
    and k: "\<And>k. k \<in> kids ims i \<Longrightarrow> im_size (ims' ! k) = im_size (ims ! k)"
  shows "all_fit ims' i \<longleftrightarrow> all_fit ims i"
proof -
  have "hd_fits ims' q \<longleftrightarrow> hd_fits ims q" "flash_fits ims' q \<longleftrightarrow> flash_fits ims q" if q: "q \<in> set (im_partitions (ims ! i))" for q
  proof -
    have s: "im_size (ims' ! j) = im_size (ims ! j)" if "p_image q = Some n" "image_index ims n = Some j" for n j
    proof (rule k)
      have "Some n \<in> set (part_images ims i)" using q that(1) by (force simp: part_images_def)
      then show "j \<in> kids ims i" using that(2) by (auto simp: kids_def child_names_def)
    qed
    show "hd_fits ims' q \<longleftrightarrow> hd_fits ims q" "flash_fits ims' q \<longleftrightarrow> flash_fits ims q"
      unfolding hd_fits_def flash_fits_def image_get_index image_index_files [OF f] using s by auto
  qed
  then show ?thesis unfolding all_fit_def p by blast
qed

lemma all_fit_other:
  assumes "j < length ims" "i \<noteq> j" "i \<notin> kids ims j" "im_file im = im_file (ims ! i)" "all_fit ims j"
  shows "all_fit (ims[i := im]) j"
proof -
  have "map im_file (ims[i := im]) = map im_file ims"
    using assms(4) by (cases "i < length ims") (simp_all add: map_update list_update_same_conv list_update_beyond)
  moreover have "im_size (ims[i := im] ! k) = im_size (ims ! k)" if "k \<in> kids ims j" for k
    using that assms(3) by (cases "k = i") auto
  ultimately show ?thesis using all_fit_cong [of "ims[i := im]" ims j] assms by simp
qed

lemma all_fit_mark:
  assumes "im_file im = im_file (ims ! i)" "im_partitions im = im_partitions (ims ! i)" "im_handler im = im_handler (ims ! i)"
    "im_size im = im_size (ims ! i)" "j < length ims"
  shows "all_fit (ims[i := im]) j = all_fit ims j"
proof (rule all_fit_cong)
  show "map im_file (ims[i := im]) = map im_file ims"
    using assms(1) by (cases "i < length ims") (simp_all add: map_update list_update_same_conv list_update_beyond)
  show "im_partitions (ims[i := im] ! j) = im_partitions (ims ! j)" "im_handler (ims[i := im] ! j) = im_handler (ims ! j)"
    using assms by (cases "i = j"; simp)+
  show "im_size (ims[i := im] ! k) = im_size (ims ! k)" for k
    using assms(4) by (cases "k = i"; cases "i < length ims") (simp_all add: list_update_beyond)
qed (rule assms(5))

section \<open>What the setup of one image establishes\<close>

lemma setup_layout_fits:
  assumes s: "setup_layout images shortcuts cfg a0 loc isize parts g = Inr (h, isize', ps, g')"
    and d: "distinct (map p_addr parts)"
  shows "\<forall>p \<in> set ps. hd_fits images p"
proof -
  obtain h0 parts1 g1 fakes now backup st where st: "start_setup cfg a0 loc parts g = Inr (h0, parts1, g1)"
    and t: "table_partitions h0 isize (fresh_addr parts1) = (fakes, now, backup)"
    and l: "setup_loop \<lparr>ev_images = images, ev_shortcuts = shortcuts, ev_size = isize, ev_backup = backup\<rparr> h0
              [] (parts1 @ fakes)
              \<lparr>st_file_size = now, st_now = now, st_hybrid = 0, st_resized = False, st_rng = g1\<rparr> = Inr (ps, st)"
    by (rule setup_layout_steps [OF s])
  have step: "hd_fits images p'" if sp: "setup_part ev h0 pre post p s0 = Inr (p', s1)" "ev_images ev = images"
    for ev pre post p s0 p' s1
  proof -
    obtain part4 fz where "setup_part_image (ev_images ev) part4 (st_file_size s0) = Inr (p', fz)"
      using sp(1) by (rule setup_part_ok) blast
    then show ?thesis using setup_part_image_fits sp(2) unfolding hd_fits_def by metis
  qed
  have ext: "p_image p = None" if p: "p \<in> set ps" "hd_extended_partition h0 = Some (p_addr p)" for p
  proof -
    have "id_image p \<in> set (map id_image (parts1 @ fakes))" using setup_loop_ids [OF l] p(1) by (metis append_Nil imageI list.set_map)
    then obtain q where q': "q \<in> set (parts1 @ fakes)" "id_image q = id_image p" by (metis image_iff list.set_map)
    then have q: "q \<in> set (parts1 @ fakes)" "p_addr q = p_addr p" "p_image q = p_image p"
      by (simp_all add: id_image_def)
    show ?thesis
    proof (cases "q \<in> set parts1")
      case True
      then have "plain q" using start_setup_ok(1) [OF st d] p(2) q(2) unfolding ext_ok_def by metis
      then show ?thesis using q(3) by (simp add: plain_def)
    next
      case False
      then have "q \<in> set fakes" using q(1) by simp
      then show ?thesis using q(3) t
        by (auto simp: table_partitions_def fake_partition_def zero_partition_def Let_def split: if_splits)
    qed
  qed
  have "\<forall>p \<in> set ps. hd_extended_partition h0 \<noteq> Some (p_addr p) \<longrightarrow> hd_fits images p"
    by (rule setup_loop_all [OF _ _ l]) (use step in \<open>auto simp: resized_ext_def\<close>)
  then show ?thesis using ext by (auto simp: hd_fits_def)
qed

lemma flash_loop_fits:
  "flash_loop images ft parts st = Inr (ps, e) \<Longrightarrow> \<forall>p \<in> set ps. flash_fits images p"
proof (induction parts arbitrary: st ps)
  case (Cons part parts)
  obtain q st' qs where s: "flash_setup_part images ft part st = Inr (q, st')"
    and l: "flash_loop images ft parts st' = Inr (qs, e)" and ps: "ps = q # qs"
    using Cons.prems unfolding flash_loop.simps by (elim rbindE case_prodE') auto
  obtain lst sz lst' e' where st: "st = (lst, sz)" "st' = (lst', e')" by fastforce
  have "flash_fits images q" using flash_setup_part_ok(8) [OF s [unfolded st]] by (auto simp: flash_fits_def)
  then show ?case using Cons.IH [OF l] by (simp add: ps)
qed simp


lemma hd_setup_call_fits:
  assumes "hd_setup_call sc ims im sec w = (Inr (p, im'), w')" and "distinct (map p_addr (im_partitions im))"
  shows "\<forall>p \<in> set (im_partitions im'). hd_fits ims p"
proof -
  obtain c a0 loc isize h isize' parts g g' where
    s: "setup_layout ims sc c a0 loc isize (im_partitions im) g = Inr (h, isize', parts, g')"
    and im': "im' = im\<lparr>im_size := isize', im_partitions := parts\<rparr>"
    using assms(1) unfolding hd_setup_call_def hdimage_setup_def by (auto simp: io_ok split: option.splits)
  show ?thesis using setup_layout_fits [OF s assms(2)] by (simp add: im')
qed

lemma flash_setup_fits: assumes "flash_setup ims im = Inr im'" shows "\<forall>p \<in> set (im_partitions im'). flash_fits ims p"
proof -
  obtain ft parts e where "flash_loop ims ft (im_partitions im) (False, 0) = Inr (parts, e)"
    "im' = im\<lparr>im_partitions := parts, im_size := if im_size im = 0 then e else im_size im\<rparr>"
    using assms unfolding flash_setup_def by (auto elim!: rbindE split: option.splits if_splits)
  then show ?thesis using flash_loop_fits by simp
qed

definition setup_good :: "'p sys \<Rightarrow> nat \<Rightarrow> bool" where
  "setup_good s i \<longleftrightarrow> i < length (s_images s) \<longrightarrow> all_fit (s_images s) i"

definition setup_ready :: "'p sys \<Rightarrow> nat \<Rightarrow> bool" where
  "setup_ready s i \<longleftrightarrow> i < length (s_images s) \<longrightarrow> parts_distinct (s_images s) i"

text \<open>How the two operations change the list of images.\<close>

lemma resolve_percent_images:
  assumes "resolve_percent hs tree i s = (r, s')"
  shows "s_images s' = s_images s \<or> (\<exists>n b. s_images s' = (s_images s)[i := (s_images s ! i)\<lparr>im_size := n, im_size_is_percent := b\<rparr>])"
proof (cases "im_size_is_percent (s_images s ! i)")
  case True
  show ?thesis
  proof (cases "image_dir_size tree (no_rootpath hs) (s_mps s) (s_images s ! i)")
    case (Inr d)
    have "s_images s' = (s_images s)[i := (s_images s ! i)
        \<lparr>im_size := d * im_size (s_images s ! i) div 100, im_size_is_percent := False\<rparr>]"
      using assms True Inr by (auto simp: resolve_percent_def Let_def set_image_def)
    then show ?thesis by blast
  qed (use assms True in \<open>simp add: resolve_percent_def\<close>)
qed (use assms in \<open>simp add: resolve_percent_def\<close>)

lemma call_setup_images:
  assumes t: "handlers_tame hs" and c: "call_setup hs i s = (r, s')"
  shows "s_images s' = s_images s \<or> (\<exists>im. s_images s' = (s_images s)[i := im] \<and> same_node (s_images s ! i) im)"
  using call_setup_cases [of hs s i]
proof cases
  case (ok h f p im w)
  then have "same_node (s_images s ! i) im" using t unfolding handlers_tame_def setup_tame_def by blast
  then show ?thesis using ok(6) c by auto
qed (use c in auto)

lemma handler_types:
  "h \<in> set (handlers u) \<Longrightarrow> h_type h = ''hdimage'' \<Longrightarrow> h = hdimage_handler u"
  "h \<in> set (handlers u) \<Longrightarrow> h_type h = ''flash'' \<Longrightarrow> h = flash_handler u"
  unfolding handlers_def list.set insert_iff empty_iff by (elim disjE FalseE; simp add: table_defs)+

text \<open>The new image \<open>im\<close> at \<open>i\<close> does not hide the images of its partitions.\<close>

lemma fits_after_update:
  assumes n: "same_node (ims ! i) im" and i: "i < length ims" and k: "i \<notin> kids ims i" and p: "p \<in> set (im_partitions im)"
  shows "hd_fits ims p \<Longrightarrow> hd_fits (ims[i := im]) p" "flash_fits ims p \<Longrightarrow> flash_fits (ims[i := im]) p"
proof -
  have f: "map im_file (ims[i := im]) = map im_file ims"
    using n i by (simp add: same_node_def map_update list_update_same_conv)
  have "image_get (ims[i := im]) x = image_get ims x" if x: "p_image p = Some x" for x
  proof -
    have "x \<in> part_names (im_partitions im)" using p x by (force simp: part_names_def)
    then have "x \<in> part_names (im_partitions (ims ! i))" using n by (simp add: same_node_def)
    then have "x \<in> child_names ims i" by (simp add: child_names_def part_images_def part_names_def)
    then have "image_index ims x \<noteq> Some i" using k by (auto simp: kids_def)
    then show ?thesis unfolding image_get_index image_index_files [OF f] by (cases "image_index ims x") auto
  qed
  then show "hd_fits ims p \<Longrightarrow> hd_fits (ims[i := im]) p" "flash_fits ims p \<Longrightarrow> flash_fits (ims[i := im]) p"
    by (auto simp: hd_fits_def flash_fits_def)
qed

lemma call_setup_fits:
  assumes c: "call_setup (handlers u) i s = (Inr v, s')" and i: "i < length (s_images s)"
    and r: "setup_ready s i" and k: "i \<notin> kids (s_images s) i"
  shows "setup_good s' i"
  using call_setup_cases [of "handlers u" s i]
proof cases
  case none
  then have "im_handler (s_images s ! i) \<noteq> ''hdimage''" "im_handler (s_images s ! i) \<noteq> ''flash''"
    using handler_setups(1,2) [of u] by auto
  then show ?thesis using c none(2) by (simp add: setup_good_def all_fit_def)
next
  case (fails h f e w)
  then show ?thesis using c by simp
next
  case (ok h f p im w)
  let ?im = "s_images s ! i"
  have ims: "s_images s' = (s_images s)[i := im]" using ok(6) c by simp
  have n: "same_node ?im im"
    using ok(1,3,4) all_handlers_tame [of u] unfolding handlers_tame_def setup_tame_def by blast
  then have hd: "im_handler im = h_type h" using ok(2) by (simp add: same_node_def)
  have "hd_fits ((s_images s)[i := im]) q" if "im_handler im = ''hdimage''" "q \<in> set (im_partitions im)" for q
  proof -
    have "h = hdimage_handler u" using handler_types(1) ok(1) hd that(1) by simp
    then have f: "f = (\<lambda>ims im sec p. hd_setup_call (su_shortcuts u) ims im sec)"
      using ok(3) by (simp add: hdimage_handler_def)
    have "distinct (map p_addr (im_partitions ?im))" using r i by (simp add: setup_ready_def parts_distinct_def)
    then have "hd_fits (s_images s) q" using hd_setup_call_fits [OF ok(4) [unfolded f]] that(2) by blast
    then show ?thesis by (rule fits_after_update(1) [OF n i k that(2)])
  qed
  moreover have "flash_fits ((s_images s)[i := im]) q" if "im_handler im = ''flash''" "q \<in> set (im_partitions im)" for q
  proof -
    have "h = flash_handler u" using handler_types(2) ok(1) hd that(1) by simp
    then have f: "f = (\<lambda>ims im sec p. bind_io (lift_io (flash_setup ims im)) (\<lambda>im'. ret (None, im')))"
      using ok(3) by (simp add: flash_handler_def)
    have "flash_setup (s_images s) ?im = Inr im" using ok(4) unfolding f by (auto simp: io_ok)
    then have "flash_fits (s_images s) q" using flash_setup_fits that(2) by blast
    then show ?thesis by (rule fits_after_update(2) [OF n i k that(2)])
  qed
  ultimately show ?thesis using i by (simp add: setup_good_def ims all_fit_def)
qed

text \<open>What a call on \<open>i\<close> leaves of the contract of \<open>j\<close>.\<close>

lemma good_update:
  assumes "s_images s' = s_images s \<or> (\<exists>im. s_images s' = (s_images s)[i := im] \<and> same_node (s_images s ! i) im)"
    and "j < length (s_images s)" "i \<noteq> j" "i \<notin> kids (s_images s) j" "setup_good s j"
  shows "setup_good s' j"
  using assms all_fit_other [of j "s_images s" i] by (auto simp: setup_good_def same_node_def)

lemma nth_parts_update:
  "(i = j \<Longrightarrow> im_partitions im = im_partitions (ims ! i)) \<Longrightarrow> j < length ims \<Longrightarrow>
   im_partitions (ims[i := im] ! j) = im_partitions (ims ! j)"
  by (cases "i = j") simp_all

lemma ready_update:
  assumes "s_images s' = s_images s \<or> (\<exists>im. s_images s' = (s_images s)[i := im] \<and>
      (i = j \<longrightarrow> im_partitions im = im_partitions (s_images s ! i)))"
    and "setup_ready s j"
  shows "setup_ready s' j"
  using assms by (auto simp: setup_ready_def parts_distinct_def nth_parts_update)

lemma resolve_percent_node:
  assumes "resolve_percent hs tree i s = (r, s')"
  shows "s_images s' = s_images s \<or> (\<exists>im. s_images s' = (s_images s)[i := im] \<and> same_node (s_images s ! i) im)"
  using resolve_percent_images [OF assms] by (fastforce simp: same_node_def)

interpretation fitting: image_contract "- 1" "resolve_percent (handlers u) tree" "call_setup (handlers u)" setup_good setup_ready
  for u tree
proof (unfold_locales, goal_cases)
  case (1 i s j)
  show ?case by (auto simp: setup_good_def set_image_def all_fit_mark)
next
  case (2 i s j)
  show ?case by (auto simp: setup_good_def set_image_def all_fit_mark)
next
  case (3 i s j)
  show ?case by (auto simp: setup_ready_def set_image_def parts_distinct_def nth_parts_update)
next
  case (4 i s j)
  show ?case by (auto simp: setup_ready_def set_image_def parts_distinct_def nth_parts_update)
next
  case (5 i s r s' j)
  then show ?case using ready_update [of s' s i j] resolve_percent_images [of "handlers u" tree i s r s'] by fastforce
next
  case (6 i s r s' j)
  then show ?case using ready_update [of s' s i j] call_setup_images [OF all_handlers_tame, of u i s r s'] by fastforce
next
  case (7 i s r s' j)
  then show ?case using good_update [OF resolve_percent_node] by blast
next
  case (8 i s r s' j)
  then show ?case using good_update [OF call_setup_images [OF all_handlers_tame]] by blast
next
  case (9 i s u s')
  then show ?case using call_setup_fits by blast
qed

text \<open>
  C19: when the setup of all images succeeds, the image of every partition of every disk image and of every flash
  image exists and fits into its partition, with the sizes that all images have at the end: no later setup
  changes the size that an earlier one relied on.
\<close>

theorem setup_all_fit:
  assumes "all_images (image_setup (handlers u) tree) s = Some (Inr v, s')" and "untouched (s_images s)"
    and "\<forall>im \<in> set (s_images s). distinct (map p_addr (im_partitions im))"
  shows "\<forall>i < length (s_images s'). all_fit (s_images s') i"
proof -
  have r: "\<forall>i < length (s_images s). setup_ready s i" using assms(3) by (simp add: setup_ready_def parts_distinct_def)
  have "\<forall>i < length (s_images s). setup_good s' i"
    by (rule fitting.all_images_good [OF assms(1) [unfolded image_setup_def] _ r]) (simp add: untouched_marks [OF assms(2)])
  moreover have "length (s_images s') = length (s_images s)"
    using walk_setup.all_images_success [OF assms(1) [unfolded image_setup_def]] unfolding steps_def by (blast dest: later_length)
  ultimately show ?thesis by (simp add: setup_good_def)
qed

section \<open>The hypotheses can hold\<close>

lemma setup_all_fit_witness:
  "\<exists>s'. all_images (image_setup (handlers demo_surroundings) (\<lambda>_. None)) (demo_sys demo_images) = Some (Inr (), s') \<and>
     all_fit (s_images s') 0"
proof -
  obtain s' where s: "all_images (image_setup (handlers demo_surroundings) (\<lambda>_. None)) (demo_sys demo_images) = Some (Inr (), s')"
    using demo_setup_runs by blast
  then have "length (s_images s') = 2"
    using walk_setup.all_images_success [OF s [unfolded image_setup_def]] later_length
    unfolding steps_def by (fastforce simp: demo_sys_def demo_images_def)
  then show ?thesis
    using setup_all_fit [OF s demo_untouched] s
    by (simp add: demo_sys_def demo_images_def demo_flash_image_def demo_image_def zero_partition_def)
qed

end
