(* ===== verification/Typing.thy ===== *)
theory Typing
  imports Contract
begin

text \<open>
  The private data of the images: \<open>handler_priv\<close> of \<open>struct image\<close> is a \<open>void *\<close> that the setup of a handler
  sets and its generate function casts. The setup is another instance of \<open>image_contract\<close>; a lemma on the
  invariants of a walk, of one that fails too, carries the result through the generation.
\<close>

section \<open>Invariants of a walk\<close>

context image_walk
begin

lemma visit_keeps:
  assumes pre: "\<And>i s r s'. i < length (s_images s) \<Longrightarrow> J s \<Longrightarrow> pre i s = (r, s') \<Longrightarrow> J s'"
    and post: "\<And>i s r s'. i < length (s_images s) \<Longrightarrow> J s \<Longrightarrow> post i s = (r, s') \<Longrightarrow> J s'"
    and marks: "\<And>i s. J s \<Longrightarrow> J (set_image i ((s_images s ! i)\<lparr>im_seen := sg\<rparr>) s)"
      "\<And>i s. J s \<Longrightarrow> J (set_image i ((s_images s ! i)\<lparr>im_done := sg\<rparr>) s)"
  shows "i < length (s_images s) \<Longrightarrow> J s \<Longrightarrow> visit sg pre post n i s = Some (r, s') \<Longrightarrow> J s'"
proof (induction n arbitrary: i s r s')
  case (Suc n)
  let ?s1 = "set_image i ((s_images s ! i)\<lparr>im_seen := sg\<rparr>) s"
  note i = Suc.prems(1)
  have i1: "i < length (s_images ?s1)" and J1: "J ?s1" using i marks(1) Suc.prems(2) by (simp_all add: set_image_def)
  have p: "J s2 \<and> length (s_images s2) = length (s_images s)" if "pre i ?s1 = (r, s2)" for r s2
    using pre [OF i1 J1 that] later_length [OF later_tame [OF pre_tame that i1, of sg]] by (simp add: set_image_def)
  have k: "later sg s2 s3 \<and> (J s2 \<longrightarrow> J s3)" if "for_parts (visit sg pre post n) ns s2 = Some (r, s3)" for ns r s2 s3
  proof (rule for_parts_induct [OF that])
    fix j s r s'
    assume "j < length (s_images s)" "visit sg pre post n j s = Some (r, s')"
    then show "later sg s s' \<and> (J s \<longrightarrow> J s')" using Suc.IH visit_later by blast
  qed (auto intro: later_refl later_trans)
  from Suc.prems(3) i show ?case
  proof (cases rule: visit_cases)
    case (kids e s2)
    then show ?thesis using p [OF kids(4)] k [OF kids(5)] by blast
  next
    case (post e s2 s3)
    have "i < length (s_images s3)" using i p [OF post(4)] k [OF post(5)] later_length by metis
    then show ?thesis using p [OF post(4)] k [OF post(5)] assms(2) [OF _ _ post(6)] by blast
  next
    case (all s2 s3 s4)
    have "i < length (s_images s3)" using i p [OF all(4)] k [OF all(5)] later_length by metis
    then have "J s4" using p [OF all(4)] k [OF all(5)] assms(2) [OF _ _ all(6)] by blast
    then show ?thesis unfolding all(7) by (rule marks(2))
  qed (use Suc.prems(2) p in auto)
qed simp

lemma all_images_keeps:
  assumes "\<And>i s r s'. i < length (s_images s) \<Longrightarrow> J s \<Longrightarrow> pre i s = (r, s') \<Longrightarrow> J s'"
    and "\<And>i s r s'. i < length (s_images s) \<Longrightarrow> J s \<Longrightarrow> post i s = (r, s') \<Longrightarrow> J s'"
    and "\<And>i s. J s \<Longrightarrow> J (set_image i ((s_images s ! i)\<lparr>im_seen := sg\<rparr>) s)"
      "\<And>i s. J s \<Longrightarrow> J (set_image i ((s_images s ! i)\<lparr>im_done := sg\<rparr>) s)"
    and J: "J s" and run: "all_images (visit sg pre post) s = Some (r, s')"
  shows "J s'"
proof -
  let ?f = "visit sg pre post (Suc (length (s_images s)))"
  have "J s'" if "fold (\<lambda>i r. case r of Some (Inr _, s') \<Rightarrow> ?f i s' | _ \<Rightarrow> r) js (Some (Inr (), a)) = Some (r, s')"
    "\<forall>i \<in> set js. i < length (s_images a)" "J a" for js a
    using that
  proof (induction js arbitrary: a)
    case (Cons i js)
    have i: "i < length (s_images a)" using Cons.prems(2) by simp
    obtain r1 b where c: "?f i a = Some (r1, b)"
    proof (cases "?f i a")
      case None
      then show ?thesis using Cons.prems(1) by (simp add: fold_stuck)
    qed auto
    have Jb: "J b" by (rule visit_keeps [where J = J, OF _ _ _ _ i Cons.prems(3) c]) (fact assms)+
    show ?case
    proof (cases r1)
      case (Inl e)
      then show ?thesis using Cons.prems(1) c Jb by (simp add: fold_stuck)
    next
      case (Inr u)
      have "length (s_images b) = length (s_images a)" by (rule later_length [OF visit_later [OF i c]])
      then show ?thesis using Cons.IH [of b] Cons.prems(1,2) c Inr Jb by simp
    qed
  qed simp
  then show ?thesis using run J by (simp add: all_images_def Let_def)
qed

end

section \<open>Typed private data\<close>

text \<open>The private data of an image is what the generate function of its handler takes it for.\<close>

definition well_typed :: "string \<Rightarrow> hpriv option \<Rightarrow> bool" where
  "well_typed t p \<longleftrightarrow>
     (t = ''hdimage'' \<longrightarrow> Option.bind p pick_hd \<noteq> None) \<and> (t = ''file'' \<longrightarrow> Option.bind p pick_file \<noteq> None) \<and>
     (t = ''erofs'' \<longrightarrow> Option.bind p pick_erofs \<noteq> None) \<and> (t = ''custom'' \<longrightarrow> Option.bind p pick_custom \<noteq> None) \<and>
     (t \<in> {''ext2'', ''ext3'', ''ext4''} \<longrightarrow> Option.bind p pick_ext \<noteq> None) \<and>
     (t = ''qemu'' \<longrightarrow> Option.bind p pick_qemu \<noteq> None) \<and> (t = ''android-sparse'' \<longrightarrow> Option.bind p pick_sparse \<noteq> None)"

definition typed :: "hpriv sys \<Rightarrow> nat \<Rightarrow> bool" where
  "typed s i \<longleftrightarrow> (i < length (s_images s) \<longrightarrow> well_typed (im_handler (s_images s ! i)) (s_priv s i))"

text \<open>What the setup functions of the table return.\<close>

lemma setup_types:
  "Option.bind (handler_get (handlers u) ''erofs'') h_setup = Some (priv_setup ErofsPriv (\<lambda>im sec. lift_io (erofs_setup sec)))"
  "Option.bind (handler_get (handlers u) ''custom'') h_setup = Some (priv_setup CustomPriv (\<lambda>im sec. lift_io (custom_setup sec)))"
  "Option.bind (handler_get (handlers u) ''ext2'') h_setup = Some (priv_setup ExtPriv ext2_setup)"
  "Option.bind (handler_get (handlers u) ''ext3'') h_setup = Some (priv_setup ExtPriv ext2_setup)"
  "Option.bind (handler_get (handlers u) ''ext4'') h_setup = Some (priv_setup ExtPriv ext2_setup)"
  "Option.bind (handler_get (handlers u) ''android-sparse'') h_setup =
     Some (priv_setup SparsePriv (\<lambda>im sec. lift_io (android_sparse_setup sec)))"
  by (simp_all add: handlers_def table_defs)

lemma priv_setup_type: "priv_setup C f ims im sec p w = (Inr (q, im'), w') \<Longrightarrow> \<exists>x. q = Some (C x)"
  by (auto simp: priv_setup_def io_ok)

lemma file_setup_type: "file_setup indir im sec w = (Inr (q, im'), w') \<Longrightarrow> \<exists>f c. q = Some (FilePriv f c)"
proof -
  have "yields (\<lambda>(q, im'). \<exists>f c. q = Some (FilePriv f c)) (file_setup indir im sec)"
    unfolding file_setup_def Let_def by (intro yields) simp
  then show "file_setup indir im sec w = (Inr (q, im'), w') \<Longrightarrow> \<exists>f c. q = Some (FilePriv f c)"
    unfolding yields_def by blast
qed

lemma hd_setup_type: "hd_setup_call sc ims im sec w = (Inr (q, im'), w') \<Longrightarrow> \<exists>h. q = Some (HdPriv h)"
  by (cases sec) (auto simp: hd_setup_call_def io_ok split: prod.splits)

lemma setup_well_typed:
  assumes "Option.bind (handler_get (handlers u) t) h_setup = Some f" and "f ims im sec p w = (Inr (q, im'), w')"
  shows "well_typed t q"
proof -
  have ps: "q \<noteq> None \<and> (\<exists>x. q = Some (C x))" if "f = priv_setup C g" for C and g :: "image \<Rightarrow> cfg option \<Rightarrow> 'z io"
    using assms(2) priv_setup_type that by fastforce
  note h = assms(1)
  have "Option.bind q pick_hd \<noteq> None" if t: "t = ''hdimage''"
  proof -
    have "hd_setup_call (su_shortcuts u) ims im sec w = (Inr (q, im'), w')" using assms handler_setups(1) [of u] unfolding t by auto
    then show ?thesis using hd_setup_type by fastforce
  qed
  moreover have "Option.bind q pick_file \<noteq> None" if t: "t = ''file''"
  proof -
    have "file_setup (su_inputpath u) im sec w = (Inr (q, im'), w')" using assms handler_setups(4) [of u] unfolding t by auto
    then show ?thesis using file_setup_type by fastforce
  qed
  moreover have "Option.bind q pick_erofs \<noteq> None" if "t = ''erofs''"
    using ps h setup_types(1) [of u] unfolding that by fastforce
  moreover have "Option.bind q pick_custom \<noteq> None" if "t = ''custom''"
    using ps h setup_types(2) [of u] unfolding that by fastforce
  moreover have "Option.bind q pick_ext \<noteq> None" if "t \<in> {''ext2'', ''ext3'', ''ext4''}"
  proof -
    have "f = priv_setup ExtPriv ext2_setup" using h setup_types(3-5) [of u] that by auto
    then show ?thesis using ps by fastforce
  qed
  moreover have "Option.bind q pick_qemu \<noteq> None" if "t = ''qemu''"
    using ps h handler_setups(5) [of u] unfolding that by fastforce
  moreover have "Option.bind q pick_sparse \<noteq> None" if "t = ''android-sparse''"
    using ps h setup_types(6) [of u] unfolding that by fastforce
  ultimately show ?thesis unfolding well_typed_def by blast
qed

lemma call_setup_typed:
  assumes c: "call_setup (handlers u) i s = (Inr v, s')" and i: "i < length (s_images s)"
  shows "typed s' i"
proof (cases "Option.bind (handler_get (handlers u) (im_handler (s_images s ! i))) h_setup")
  case None
  let ?t = "im_handler (s_images s ! i)"
  have "?t \<noteq> ''hdimage''" "?t \<noteq> ''file''" "?t \<noteq> ''erofs''" "?t \<noteq> ''custom''" "?t \<noteq> ''ext2''" "?t \<noteq> ''ext3''"
    "?t \<noteq> ''ext4''" "?t \<noteq> ''qemu''" "?t \<noteq> ''android-sparse''"
    using None handler_setups [of u] setup_types [of u] by auto
  moreover have "s' = s" using c None by (simp add: call_setup_def Let_def)
  ultimately show ?thesis by (simp add: typed_def well_typed_def)
next
  case (Some f)
  obtain p im w where f: "f (s_images s) (s_images s ! i) (s_sec s i) (s_priv s i) (s_world s) = (Inr (p, im), w)"
    and s': "s' = set_image i im (s\<lparr>s_world := w, s_priv := (s_priv s)(i := p)\<rparr>)"
    using c Some by (auto simp: call_setup_def Let_def finish_call_def split: prod.splits sum.splits)
  obtain h where h: "h \<in> set (handlers u)" "h_setup h = Some f"
    using Some handler_get_set by (cases "handler_get (handlers u) (im_handler (s_images s ! i))") fastforce+
  have "same_node (s_images s ! i) im"
    using f h all_handlers_tame [of u] unfolding handlers_tame_def setup_tame_def by blast
  then have "im_handler im = im_handler (s_images s ! i)" by (simp add: same_node_def)
  then show ?thesis using setup_well_typed [OF Some f] i by (simp add: typed_def s' set_image_def)
qed

text \<open>What a call on \<open>i\<close> leaves alone.\<close>

lemma typed_other:
  assumes "s_images s' = s_images s \<or> (\<exists>im. s_images s' = (s_images s)[i := im] \<and> same_node (s_images s ! i) im)"
    and "s_priv s' j = s_priv s j" and "typed s j"
  shows "typed s' j"
proof -
  have "length (s_images s') = length (s_images s)" using assms(1) by auto
  moreover have "im_handler (s_images s' ! j) = im_handler (s_images s ! j)" if "j < length (s_images s)"
    using assms(1) that by (cases "i = j") (auto simp: same_node_def)
  ultimately show ?thesis using assms(2,3) by (simp add: typed_def)
qed

lemma call_setup_priv: "call_setup hs i s = (r, s') \<Longrightarrow> j \<noteq> i \<Longrightarrow> s_priv s' j = s_priv s j"
  by (auto simp: call_setup_def Let_def finish_call_def set_image_def split: option.splits prod.splits sum.splits)

lemma resolve_percent_priv: "resolve_percent hs tree i s = (r, s') \<Longrightarrow> s_priv s' = s_priv s"
  by (auto simp: resolve_percent_def Let_def set_image_def split: sum.splits if_splits)

lemma typed_mark:
  "im_handler im = im_handler (s_images s ! i) \<Longrightarrow> typed (set_image i im s) j = typed s j"
  by (cases "i = j") (simp_all add: typed_def set_image_def)

interpretation typing: image_contract "- 1" "resolve_percent (handlers u) tree" "call_setup (handlers u)" typed "\<lambda>s i. True"
  for u tree
proof (unfold_locales, goal_cases)
  case (6 i s r s' j)
  have "s_priv s' j = s_priv s j" by (simp add: resolve_percent_priv [OF 6(1)])
  then show ?case by (rule typed_other [OF resolve_percent_node [OF 6(1)] _ 6(6)])
next
  case (7 i s r s' j)
  have "s_priv s' j = s_priv s j" using call_setup_priv [OF 7(1), of j] 7(4) by simp
  then show ?case using typed_other [OF call_setup_images [OF all_handlers_tame 7(1)]] 7(6) by blast
next
  case (8 i s u s')
  then show ?case using call_setup_typed by blast
qed (simp_all add: typed_mark)

section \<open>The generation\<close>

text \<open>The generation changes no private data and no handler.\<close>

definition same_types :: "'p sys \<Rightarrow> 'p sys \<Rightarrow> bool" where
  "same_types s s' \<longleftrightarrow> s_priv s' = s_priv s \<and> map im_handler (s_images s') = map im_handler (s_images s)"

lemma same_types_simps [simp]: "same_types s s" "same_types s (s\<lparr>s_world := w\<rparr>)" "same_types s (s\<lparr>s_env := e\<rparr>)"
  by (simp_all add: same_types_def)

lemma same_types_trans: "same_types a b \<Longrightarrow> same_types b c \<Longrightarrow> same_types a c"
  by (simp add: same_types_def)

lemma same_types_image: "im_handler im = im_handler (s_images s ! i) \<Longrightarrow> same_types s (set_image i im s)"
  by (cases "i < length (s_images s)") (simp_all add: same_types_def set_image_def map_update list_update_same_conv list_update_beyond)

lemma same_types_run: "same_types s (snd (run_io m s))"
  by (simp add: run_io_def split: prod.split)

lemma same_types_then:
  "same_types s (snd (m s)) \<Longrightarrow> (\<And>s1. same_types s1 (snd (n s1))) \<Longrightarrow> same_types s (snd (and_then m n s))"
  using same_types_trans by (cases "m s"; cases "fst (m s)") (auto simp: and_then_def)

lemma same_types_call:
  assumes "handlers_tame hs" shows "same_types s (snd (call_generate hs i s))"
proof (cases "Option.bind (handler_get hs (im_handler (s_images s ! i))) h_generate")
  case (Some g)
  then obtain h where h: "h \<in> set hs" "h_generate h = Some g"
    using handler_get_set by (cases "handler_get hs (im_handler (s_images s ! i))") fastforce+
  obtain r w where g: "g (gen_env hs i s) (s_world s) = (r, w)" by fastforce
  show ?thesis
  proof (cases r)
    case (Inr im)
    have "gen_tame g" using assms h by (auto simp: handlers_tame_def)
    then have "same_node (g_image (gen_env hs i s)) im" using g Inr unfolding gen_tame_def by blast
    then have "im_handler im = im_handler (s_images (s\<lparr>s_world := w\<rparr>) ! i)" by (simp add: gen_env_def same_node_def)
    then have "same_types (s\<lparr>s_world := w\<rparr>) (set_image i im (s\<lparr>s_world := w\<rparr>))" by (rule same_types_image)
    then have "same_types s (set_image i im (s\<lparr>s_world := w\<rparr>))" using same_types_trans same_types_simps(2) by blast
    then show ?thesis by (simp add: call_generate_def Some g Inr)
  qed (simp add: call_generate_def Some g)
qed (simp add: call_generate_def)

lemma same_types_generate: "handlers_tame hs \<Longrightarrow> same_types s (snd (generate_one hs sh i s))"
proof -
  assume t: "handlers_tame hs"
  have g: "same_types s1 (snd (generate_or_remove hs sh i s1))" for s1
    using same_types_call [OF t, of s1 i] same_types_run same_types_trans
    by (auto simp: generate_or_remove_def split: prod.splits sum.splits) blast+
  have e: "same_types s1 (snd (exec_hook sh c s1))" for s1 c
    by (simp add: exec_hook_def skip_op_def same_types_run split: option.split)
  have v: "same_types s1 (snd (setenv_image hs i s1))" for s1
    by (simp add: setenv_image_def Let_def split: sum.split)
  show ?thesis unfolding generate_one_def Let_def by (intro same_types_then v e g)
qed

lemma typed_same: "same_types s s' \<Longrightarrow> typed s i \<Longrightarrow> typed s' i"
  unfolding same_types_def typed_def by (metis length_map nth_map)


definition demo_file :: image where
  "demo_file = (demo_image ''in'' 0)\<lparr>im_handler := ''file''\<rparr>"

lemma demo_file_setup:
  "\<exists>s1. all_images (image_setup (handlers demo_surroundings) (\<lambda>_. None)) (demo_sys [demo_file]) = Some (Inr (), s1) \<and>
     length (s_images s1) = 1 \<and> im_handler (s_images s1 ! 0) = ''file''"
  by (simp add: all_images_def image_setup_def demo_sys_def demo_file_def demo_image_def demo_surroundings_def
    set_image_def resolve_percent_def call_setup_def finish_call_def handler_setups part_images_def
    file_setup_def file_infile_def file_name_def parse_holes_def demo_world_def demo_src_def eval_io visit_numeral)


end
