(* ===== verification/Acyclic.thy ===== *)
theory Acyclic
  imports Typing
begin

text \<open>
  The setup succeeds on images without a cycle, from the lemma of \<open>image_walk\<close> that a walk does.
\<close>

section \<open>Without a cycle nothing is refused\<close>

text \<open>
  C22: the other direction of the search for cycles. When the images can be numbered so that children come before
  their parents, all names exist, and the handlers' setups and the sizes in per cent succeed (in the states that
  have a property \<open>J\<close> that they keep), the setup of all images succeeds: no image is taken for part of a cycle,
  however the images are ordered in the configuration and however often one is used.
\<close>

theorem setup_accepts_acyclic:
  assumes "children_first (s_images s) rk" and "untouched (s_images s)" and "J s"
    and "\<And>i s. i < length (s_images s) \<Longrightarrow> J s \<Longrightarrow> \<exists>s'. resolve_percent (handlers u) tree i s = (Inr (), s') \<and> J s'"
    and "\<And>i s. i < length (s_images s) \<Longrightarrow> J s \<Longrightarrow> \<exists>s'. call_setup (handlers u) i s = (Inr (), s') \<and> J s'"
    and "\<And>i s. J s \<Longrightarrow> J (set_image i ((s_images s ! i)\<lparr>im_seen := -1\<rparr>) s) \<and> J (set_image i ((s_images s ! i)\<lparr>im_done := -1\<rparr>) s)"
  shows "\<exists>s'. all_images (image_setup (handlers u) tree) s = Some (Inr (), s')"
  unfolding image_setup_def
proof (rule walk_setup.all_images_succeed [where J = J and rk = rk])
  show "begun (- 1) (s_images s) \<subseteq> finished (- 1) (s_images s)" using untouched_marks [OF assms(2)] by simp
  show "\<And>i k. i < length (s_images s) \<Longrightarrow> k \<in> kids (s_images s) i \<Longrightarrow> rk k < rk i"
    "\<And>i m. i < length (s_images s) \<Longrightarrow> m \<in> child_names (s_images s) i \<Longrightarrow> image_index (s_images s) m \<noteq> None"
    using assms(1) unfolding children_first_iff by blast+
qed (use assms(3-6) in blast)+

text \<open>A parent that is listed before its child, which it contains twice.\<close>

definition demo_nested :: "image list" where
  "demo_nested = [(demo_image ''out'' 3)\<lparr>im_handler := ''tar'', im_partitions :=
     [(zero_partition 1)\<lparr>p_image := Some ''in''\<rparr>, (zero_partition 2)\<lparr>p_image := Some ''in''\<rparr>]\<rparr>,
     (demo_image ''in'' 3)\<lparr>im_handler := ''tar''\<rparr>]"

definition plain_tars :: "hpriv sys \<Rightarrow> bool" where
  "plain_tars s \<longleftrightarrow> (\<forall>im \<in> set (s_images s). im_handler im = ''tar'' \<and> \<not> im_size_is_percent im)"

lemma plain_tars_mark:
  assumes "plain_tars s" and "i < length (s_images s) \<Longrightarrow> im_handler im = ''tar'' \<and> \<not> im_size_is_percent im"
  shows "plain_tars (set_image i im s)"
proof (cases "i < length (s_images s)")
  case True
  then show ?thesis using assms set_update_subset_insert [of "s_images s" i im] by (auto simp: plain_tars_def set_image_def)
qed (use assms in \<open>simp add: plain_tars_def set_image_def list_update_beyond\<close>)

lemma setup_accepts_acyclic_witness:
  "\<exists>s'. all_images (image_setup (handlers demo_surroundings) (\<lambda>_. None)) (demo_sys demo_nested) = Some (Inr (), s')"
proof (rule setup_accepts_acyclic [where J = plain_tars and rk = "\<lambda>i. 1 - i"])
  show "children_first (s_images (demo_sys demo_nested)) (\<lambda>i. 1 - i)"
    by (auto simp: children_first_def demo_sys_def demo_nested_def demo_image_def less_Suc_eq zero_partition_def)
  show "untouched (s_images (demo_sys demo_nested))" "plain_tars (demo_sys demo_nested)"
    by (simp_all add: untouched_def plain_tars_def demo_sys_def demo_nested_def demo_image_def)
  fix i and s :: "hpriv sys"
  show "\<exists>s'. resolve_percent (handlers demo_surroundings) (\<lambda>_. None) i s = (Inr (), s') \<and> plain_tars s'"
    if "i < length (s_images s)" "plain_tars s"
    using that by (simp add: resolve_percent_def plain_tars_def)
  show "\<exists>s'. call_setup (handlers demo_surroundings) i s = (Inr (), s') \<and> plain_tars s'"
    if "i < length (s_images s)" "plain_tars s"
    using that handler_setups(3) [of demo_surroundings] by (simp add: call_setup_def plain_tars_def)
  show "plain_tars (set_image i ((s_images s ! i)\<lparr>im_seen := -1\<rparr>) s) \<and> plain_tars (set_image i ((s_images s ! i)\<lparr>im_done := -1\<rparr>) s)"
    if "plain_tars s"
    using that by (intro conjI plain_tars_mark) (simp_all add: plain_tars_def)
qed

end
