(* ===== verification/Mdraid.thy ===== *)
theory Mdraid
  imports Tools HdTables
begin

text \<open>
  Members of a RAID 1 array, \<^verbatim>\<open>image-mdraid.c\<close>: the version 1.2 superblock, the superblock of the write-intent
  bitmap and the data. The layout of \<open>struct mdp_superblock_1\<close> is that of the kernel's \<^verbatim>\<open>linux/raid/md_p.h\<close>;
  the fields that genimage leaves at zero are not in the record. A member reads and changes the private
  data of its parent, so the functions take and return both.
\<close>

section \<open>The superblocks\<close>

definition DATA_OFFSET_SECTORS :: u64 where "DATA_OFFSET_SECTORS = 2048"
definition DATA_OFFSET_BYTES :: u64 where "DATA_OFFSET_BYTES = DATA_OFFSET_SECTORS * 512"
definition BITMAP_SECTORS_MAX :: u32 where "BITMAP_SECTORS_MAX = 256"
definition MDRAID_ALIGN_BYTES :: u64 where "MDRAID_ALIGN_BYTES = 8 * 512"
definition MD_SB_MAGIC :: u32 where "MD_SB_MAGIC = 0xa92b4efc"
definition MD_FEATURE_BITMAP_OFFSET :: u32 where "MD_FEATURE_BITMAP_OFFSET = 1"
definition MD_DISK_ROLE_MAX :: u16 where "MD_DISK_ROLE_MAX = 0xff00"
definition BITMAP_MAGIC :: u32 where "BITMAP_MAGIC = 0x6d746962"

record mdp_sb =
  sb_magic :: u32
  sb_major_version :: u32
  sb_feature_map :: u32
  sb_set_uuid :: bytes
  sb_set_name :: bytes
  sb_ctime :: u64
  sb_level :: u32
  sb_size :: u64
  sb_raid_disks :: u32
  sb_bitmap_offset :: u32
  sb_data_offset :: u64
  sb_data_size :: u64
  sb_super_offset :: u64
  sb_dev_number :: u32
  sb_device_uuid :: bytes
  sb_bblog_shift :: u8
  sb_bblog_size :: u16
  sb_bblog_offset :: u32
  sb_utime :: u64
  sb_csum :: u32
  sb_max_dev :: u32
  sb_dev_roles :: "u16 list"

definition mdp_sb_bytes :: "mdp_sb \<Rightarrow> bytes" where
  "mdp_sb_bytes s =
     le32 (sb_magic s) @ le32 (sb_major_version s) @ le32 (sb_feature_map s) @ le32 0 @
     sb_set_uuid s @ sb_set_name s @ le64 (sb_ctime s) @ le32 (sb_level s) @ le32 0 @ le64 (sb_size s) @
     le32 0 @ le32 (sb_raid_disks s) @ le32 (sb_bitmap_offset s) @ zeros 28 @
     le64 (sb_data_offset s) @ le64 (sb_data_size s) @ le64 (sb_super_offset s) @ le64 0 @
     le32 (sb_dev_number s) @ le32 0 @ sb_device_uuid s @ [0, sb_bblog_shift s] @ le16 (sb_bblog_size s) @
     le32 (sb_bblog_offset s) @
     le64 (sb_utime s) @ le64 0 @ le64 0 @ le32 (sb_csum s) @ le32 (sb_max_dev s) @ zeros 32 @
     concat (map le16 (sb_dev_roles s))"

text \<open>\<open>bitmap_super_t\<close>, with the fields that are not constant.\<close>

record bitmap_super =
  bsb_uuid :: bytes
  bsb_sync_size :: u64
  bsb_chunksize :: u32
  bsb_sectors_reserved :: u32

definition bitmap_super_bytes :: "bitmap_super \<Rightarrow> bytes" where
  "bitmap_super_bytes b =
     le32 BITMAP_MAGIC @ le32 4 @ bsb_uuid b @ le64 0 @ le64 0 @ le64 (bsb_sync_size b) @ le32 0 @
     le32 (bsb_chunksize b) @ le32 5 @ le32 0 @ le32 (bsb_sectors_reserved b) @ le32 0 @ zeros 64 @ zeros 120"

text \<open>\<open>calc_sb_1_csum\<close>: the sum of the 32-bit words, with a last half word, and the carries added.\<close>

fun sum_words :: "bytes \<Rightarrow> u64 \<Rightarrow> u64" where
  "sum_words (a # b # c # d # bs) acc = sum_words bs (acc + word_of_nat (unle [a, b, c, d]))"
| "sum_words [a, b] acc = acc + word_of_nat (unle [a, b])"
| "sum_words _ acc = acc"

definition calc_sb_1_csum :: "mdp_sb \<Rightarrow> u32" where
  "calc_sb_1_csum s =
     (let newcsum = sum_words (mdp_sb_bytes (s\<lparr>sb_csum := 0\<rparr>)) 0 in
      ucast ((newcsum AND 0xffffffff) + drop_bit 32 newcsum))"

section \<open>The bitmap\<close>

definition bitmap_sectors :: "u64 \<Rightarrow> u32 \<Rightarrow> u32" where
  "bitmap_sectors sync_size chunksize = ucast (roundup (sync_size div ucast chunksize) 8)"

lemma push_bit_32: "push_bit 32 (c :: u32) = 0"
  by (rule bit_word_eqI) (simp add: bit_simps)

text \<open>
  The loop that doubles the chunk size until the bitmap fits. Doubled too often the chunk size is 0, and
  the next division undefined.
\<close>

function bitmap_chunk :: "u64 \<Rightarrow> u32 \<Rightarrow> (u32 \<times> u32) result" where
  "bitmap_chunk sync_size chunksize =
     (if chunksize = 0 then Inl Undefined
      else if bitmap_sectors sync_size chunksize > BITMAP_SECTORS_MAX then bitmap_chunk sync_size (chunksize * 2)
      else Inr (chunksize, bitmap_sectors sync_size chunksize))"
  by pat_completeness auto

termination
proof (relation "measure (\<lambda>(_, c). LEAST k. push_bit k c = 0)", goal_cases)
  case (2 sync_size c)
  let ?k = "LEAST k. push_bit k c = 0"
  have k: "push_bit ?k c = 0" by (rule LeastI [of _ 32]) (rule push_bit_32)
  with 2(1) obtain j where j: "?k = Suc j" by (cases ?k) auto
  have "push_bit j (c * 2) = 0" using k by (simp add: j)
  then have "(LEAST k. push_bit k (c * 2) = 0) \<le> j" by (rule Least_le)
  then show ?case by (simp add: j)
qed simp

declare bitmap_chunk.simps [simp del]

definition make_bitmap :: "mdp_sb \<Rightarrow> bitmap_super result" where
  "make_bitmap s =
     rbind (bitmap_chunk (sb_data_size s) (64 * 1024 * 1024)) (\<lambda>(chunksize, reserved).
       Inr \<lparr>bsb_uuid = sb_set_uuid s, bsb_sync_size = sb_data_size s, bsb_chunksize = chunksize,
            bsb_sectors_reserved = reserved\<rparr>)"

section \<open>The private data\<close>

text \<open>\<open>md_data\<close> and \<open>md_parent\<close> are the images of \<open>img_data_part\<close> and \<open>img_parent_part\<close>.\<close>

record mdraid_img =
  md_data :: "string option"
  md_parent :: "string option"
  md_sb :: "mdp_sb option"
  md_last_role :: u16

section \<open>mdraid_parse and mdraid_setup\<close>

text \<open>\<open>parent\<close> is what \<open>image_get\<close> finds for a name: the image and the section of its handler.\<close>

definition mdraid_parse ::
  "(string \<Rightarrow> (image \<times> cfg option) option) \<Rightarrow> image \<Rightarrow> cfg option \<Rightarrow> (mdraid_img \<times> image) result" where
  "mdraid_parse parent im sec =
     (let part = \<lambda>f. add_partition (file_part None (Some f)); pname = sec_str sec ''parent'';
          done = \<lambda>data im. Inr (\<lparr>md_data = data, md_parent = pname, md_sb = None, md_last_role = 0\<rparr>,
            (case data of None \<Rightarrow> im | Some f \<Rightarrow> part f im)) in
      if Option.bind sec (\<lambda>c. Some (cfg_getint c ''level'')) \<noteq> Some 1 then Inl (Status 1)
      else case pname of None \<Rightarrow> done (sec_str sec ''image'') im
      | Some p \<Rightarrow>
          (case parent p of None \<Rightarrow> Inl (Status 9)
           | Some (pim, psec) \<Rightarrow> done (sec_str psec ''image'') ((part p im)\<lparr>im_size := im_size pim\<rparr>)))"

definition mdraid_setup :: "image list \<Rightarrow> mdraid_img \<Rightarrow> image \<Rightarrow> image result" where
  "mdraid_setup ims md im =
     rbind (case md_data md of None \<Rightarrow> Inr im
       | Some f \<Rightarrow> (case image_get ims f of None \<Rightarrow> Inl (Status 8)
         | Some data \<Rightarrow>
             let sz = (if im_size im = 0 then roundup (im_size data + DATA_OFFSET_BYTES) MDRAID_ALIGN_BYTES else im_size im) in
             if sz < im_size data + DATA_OFFSET_BYTES then Inl (Status 3) else Inr (im\<lparr>im_size := sz\<rparr>))) (\<lambda>im'.
     if im_size im' \<noteq> roundup (im_size im') MDRAID_ALIGN_BYTES then Inl (Status 4) else Inr im')"

section \<open>mdraid_generate\<close>

definition world_uuid :: "string option \<Rightarrow> string io" where
  "world_uuid given w =
     (case given of Some u \<Rightarrow> (Inr u, w)
      | None \<Rightarrow> (case uuid_random (rand w) of (u, g) \<Rightarrow> (Inr u, w\<lparr>rand := g\<rparr>)))"

text \<open>The number of devices, and the role with what becomes of the parent's counter.\<close>

definition mdraid_devices :: "cfg \<Rightarrow> mdp_sb option \<Rightarrow> u16" where
  "mdraid_devices c psb = (case psb of Some s \<Rightarrow> ucast (sb_raid_disks s) | None \<Rightarrow> word_of_int (cfg_getint c ''devices''))"

definition mdraid_role :: "cfg \<Rightarrow> u16 option \<Rightarrow> u16 \<times> u16 option" where
  "mdraid_role c last_role =
     (if cfg_getint c ''role'' = -1 then
        (case last_role of None \<Rightarrow> (0, None) | Some r \<Rightarrow> (r + 1, Some (r + 1)))
      else (word_of_int (cfg_getint c ''role''), last_role))"

definition check_role :: "u16 \<Rightarrow> u16 \<Rightarrow> unit result" where
  "check_role role max_devices =
     (if role > MD_DISK_ROLE_MAX then Inl (Status 6) else if role \<ge> max_devices then Inl (Status 5) else Inr ())"

text \<open>The part of the superblock that describes the array, of an image without a parent.\<close>

definition label_bytes :: "string \<Rightarrow> bytes" where
  "label_bytes s = str_bytes (take 31 s) @ zeros (32 - length (take 31 s))"

definition array_sb :: "u64 \<Rightarrow> cfg \<Rightarrow> bytes \<Rightarrow> u64 \<Rightarrow> u16 \<Rightarrow> mdp_sb" where
  "array_sb mdraid_time c uuid isize max_devices =
     (let timestamp = cfg_getint c ''timestamp'' in
      \<lparr>sb_magic = MD_SB_MAGIC, sb_major_version = 1, sb_feature_map = MD_FEATURE_BITMAP_OFFSET,
       sb_set_uuid = uuid, sb_set_name = label_bytes (cstr (cfg_getstr c ''label'')),
       sb_ctime = (if timestamp \<ge> 0 then word_of_int timestamp else mdraid_time) AND 0xffffffffff,
       sb_level = 1, sb_size = (isize - DATA_OFFSET_BYTES) div 512, sb_raid_disks = ucast max_devices,
       sb_bitmap_offset = 0, sb_data_offset = 0, sb_data_size = 0, sb_super_offset = 0, sb_dev_number = 0,
       sb_device_uuid = zeros 16, sb_bblog_shift = 0, sb_bblog_size = 0, sb_bblog_offset = 0, sb_utime = 0,
       sb_csum = 0, sb_max_dev = 0, sb_dev_roles = []\<rparr>)"

text \<open>The part that describes the member, and the checksum over all.\<close>

definition member_sb :: "mdp_sb \<Rightarrow> bytes \<Rightarrow> u16 \<Rightarrow> u16 \<Rightarrow> mdp_sb" where
  "member_sb s uuid role max_devices =
     (let s1 = s\<lparr>sb_bitmap_offset := 8, sb_data_offset := DATA_OFFSET_SECTORS, sb_data_size := sb_size s,
                 sb_super_offset := 8, sb_dev_number := ucast role, sb_device_uuid := uuid,
                 sb_bblog_shift := 9, sb_bblog_size := 8, sb_bblog_offset := 8 + BITMAP_SECTORS_MAX + 8,
                 sb_utime := sb_ctime s, sb_max_dev := ucast max_devices,
                 sb_dev_roles := map word_of_nat [0..<unat max_devices]\<rparr> in
      s1\<lparr>sb_csum := calc_sb_1_csum s1\<rparr>)"

text \<open>The writes: superblock, bitmap and data.\<close>

definition mdraid_write :: "fiemap \<Rightarrow> image \<Rightarrow> image option \<Rightarrow> mdp_sb \<Rightarrow> bitmap_super \<Rightarrow> unit io" where
  "mdraid_write fm im data s b =
     (let out = im_outfile im in
      bind_io (prepare_image fm out (im_size im)) (\<lambda>_.
      bind_io (insert_data out (mdp_sb_bytes s) (sb_super_offset s * 512)) (\<lambda>_.
      bind_io (if sb_feature_map s AND MD_FEATURE_BITMAP_OFFSET \<noteq> 0
        then insert_data out (bitmap_super_bytes b) ((sb_super_offset s + ucast (sb_bitmap_offset s)) * 512)
        else ret ()) (\<lambda>_.
      case data of None \<Rightarrow> ret ()
      | Some d \<Rightarrow> insert_image fm out (Some (im_outfile d)) (im_size d) DATA_OFFSET_BYTES 0 0 True))))"

text \<open>
  \<open>mdp\<close> is the private data of the parent, which must have its superblock. The result has the private data
  of the image and of its parent afterwards.
\<close>

definition mdraid_generate ::
  "fiemap \<Rightarrow> u64 \<Rightarrow> image list \<Rightarrow> image \<Rightarrow> cfg \<Rightarrow> mdraid_img \<Rightarrow> mdraid_img option \<Rightarrow>
   (mdraid_img \<times> mdraid_img option) io" where
  "mdraid_generate fm mdraid_time ims im c md mdp =
     (if mdp \<noteq> None \<and> Option.bind mdp md_sb = None then throw Undefined
      else
        let psb = Option.bind mdp md_sb; max_devices = mdraid_devices c psb;
            (role, last_role) = mdraid_role c (map_option md_last_role mdp);
            mdp' = map_option (\<lambda>p. case last_role of None \<Rightarrow> p | Some r \<Rightarrow> p\<lparr>md_last_role := r\<rparr>) mdp in
        bind_io (lift_io (check_role role max_devices)) (\<lambda>_.
        bind_io (case psb of Some s \<Rightarrow> ret s
          | None \<Rightarrow>
              bind_io (world_uuid (cfg_getstr c ''raid-uuid'')) (\<lambda>u.
              bind_io (lift_io (uuid_parse u)) (\<lambda>uuid. ret (array_sb mdraid_time c uuid (im_size im) max_devices)))) (\<lambda>s0.
        bind_io (world_uuid (cfg_getstr c ''disk-uuid'')) (\<lambda>u.
        bind_io (lift_io (uuid_parse u)) (\<lambda>uuid.
        let s = member_sb s0 uuid role max_devices in
        bind_io (lift_io (make_bitmap s)) (\<lambda>b.
        bind_io (mdraid_write fm im (Option.bind (md_data md) (image_get ims)) s b) (\<lambda>_.
          ret (md\<lparr>md_sb := Some s\<rparr>, mdp'))))))))"

end
