(* ===== verification/HdTableProps.thy ===== *)
theory HdTableProps
  imports HdTables
begin

text \<open>
  The tables that are written can be read back: CHS addresses, the MBR, the chain of extended boot
  records, the GPT header.
\<close>

section \<open>CHS addresses\<close>

text \<open>Reading a CHS address back: head, sector with the upper two bits of the cylinder, cylinder.\<close>

fun chs_to_lba :: "bytes \<Rightarrow> nat" where
  "chs_to_lba [head, sec, cyl] =
     (let c = ucast cyl OR push_bit 2 (ucast (sec AND 0xC0) :: u32)
      in (unat c * 255 + unat head) * 63 + unat (sec AND 0x3F) - 1)"
| "chs_to_lba _ = 0"

lemma masks: "(0x300 :: u32) = push_bit 8 (mask 2)" "(0xff :: u32) = mask 8" "(0x3F :: u8) = mask 6"
  "(0xC0 :: u8) = push_bit 6 (mask 2)"
  by (simp_all add: mask_eq_exp_minus_1)

lemma bits_above:
  assumes "unat (x :: u32) < 2 ^ n" and "bit x m" shows "m < n"
proof (rule ccontr)
  assume "\<not> m < n"
  then have "(2 :: nat) ^ n \<le> 2 ^ m" by (intro power_increasing) auto
  then have "unat x div 2 ^ m = 0" using assms(1) by (intro div_less) linarith
  moreover have "bit (unat x) m" using assms(2) by (simp add: bit_unsigned_iff)
  ultimately show False by (simp add: bit_iff_odd)
qed

lemma chs_sector:
  assumes "unat (s :: u32) < 2 ^ 6"
  shows "(ucast (drop_bit 2 (c AND 0x300) OR (s AND 0xff)) :: u8) AND 0x3F = ucast s"
  unfolding masks
  by (rule bit_word_eqI) (auto simp: bit_simps dest: bits_above [OF assms])

lemma chs_cylinder:
  assumes "unat (c :: u32) < 2 ^ 10" "unat (s :: u32) < 2 ^ 6"
  shows "ucast (ucast (c AND 0xff) :: u8)
    OR push_bit 2 (ucast ((ucast (drop_bit 2 (c AND 0x300) OR (s AND 0xff)) :: u8) AND 0xC0) :: u32) = c"
proof -
  have two: "2 \<le> n \<Longrightarrow> Suc (Suc (n - 2)) = n" for n :: nat by simp
  show ?thesis
    unfolding masks
    by (rule bit_word_eqI) (auto simp: bit_simps two dest: bits_above [OF assms(1)] bits_above [OF assms(2)])
qed


text \<open>
  C18: the cylinder, head and sector that the code stores for a sector number give that number back, for
  every sector that CHS can address (1024 cylinders of 255 heads and 63 sectors); sector 0 is stored as
  the invalid sector 0.
\<close>

theorem lba_to_chs_roundtrip:
  assumes "0 < lba" and "unat lba < 1024 * 255 * 63"
  shows "chs_to_lba (lba_to_chs lba) = unat lba"
proof -
  let ?c = "lba div (63 * 255)" and ?s = "lba mod 63 + 1" and ?h = "(lba div 63) mod 255"
  have c: "unat ?c = unat lba div 16065" by (simp add: unat_div_distrib)
  then have c10: "unat ?c < 2 ^ 10" using assms(2) by (simp add: less_mult_imp_div_less)
  have m: "unat (lba mod 63) = unat lba mod 63" by (simp add: unat_mod_distrib)
  have s: "unat ?s = unat lba mod 63 + 1"
    using m by (subst unat_word_ariths) simp
  then have s6: "unat ?s < 2 ^ 6" by simp
  have h: "unat ?h = unat lba div 63 mod 255" by (simp add: unat_div_distrib unat_mod_distrib)
  have "unat (ucast ?h :: u8) = unat ?h"
    using h by (simp add: unsigned_ucast_eq take_bit_eq_mod)
  moreover have "unat (ucast ?s :: u8) = unat ?s" using s6 by (simp add: unsigned_ucast_eq take_bit_eq_mod)
  ultimately have "chs_to_lba (lba_to_chs lba) = (unat ?c * 255 + unat ?h) * 63 + unat ?s - 1"
    using assms(1) unfolding lba_to_chs_def Let_def chs_to_lba.simps
    by (simp only: if_True chs_sector [OF s6] chs_cylinder [OF c10 s6])
  also have "\<dots> = unat lba"
  proof -
    have "unat lba div 63 div 255 = unat lba div 16065" by (simp add: div_mult2_eq [symmetric])
    then have "unat ?c * 255 + unat ?h = unat lba div 63" using c h by (metis div_mult_mod_eq)
    then show ?thesis using s by simp
  qed
  finally show ?thesis .
qed

lemma lba_to_chs_roundtrip_witness: "chs_to_lba (lba_to_chs 16450559) = 16450559"
  using lba_to_chs_roundtrip [of 16450559] by simp


section \<open>MBR\<close>

lemma length_lba_to_chs [simp]: "length (lba_to_chs x) = 3"
  by (simp add: lba_to_chs_def Let_def)

lemma length_mbr_entry_bytes [simp]: "length (mbr_entry_bytes e off) = 16"
  by (simp add: mbr_entry_bytes_def hdimage_setup_chs_def)

lemma field_concat:
  "i < length xs \<Longrightarrow> (\<forall>x \<in> set xs. length x = n) \<Longrightarrow> field (n * i) n (concat xs @ ys) = xs ! i"
proof (induction xs arbitrary: i)
  case (Cons x xs)
  show ?case
  proof (cases i)
    case 0
    then show ?thesis using Cons.prems by (simp add: field_append_left)
  next
    case (Suc k)
    then show ?thesis using Cons by (simp add: field_append_right)
  qed
qed simp

lemma length_mbr_tail_bytes: "length es \<le> 4 \<Longrightarrow> length (mbr_tail_bytes h es) = 72"
  by (simp add: mbr_tail_bytes_def zeros_def length_concat comp_def sum_list_triv)

text \<open>Reading entry \<open>i\<close> of the MBR back: active flag, type, first sector, number of sectors.\<close>

definition read_entry :: "bytes \<Rightarrow> u8 \<times> u8 \<times> nat \<times> nat" where
  "read_entry e = (e ! 0, e ! 4, unle (field 8 4 e), unle (field 12 4 e))"

definition mbr_read :: "bytes \<Rightarrow> nat \<Rightarrow> u8 \<times> u8 \<times> nat \<times> nat" where
  "mbr_read tail i = read_entry (field (6 + 16 * i) 16 tail)"

lemma read_entry_bytes:
  "read_entry (mbr_entry_bytes e off)
    = (me_boot e, me_partition_type e, unat (me_relative_sectors e), unat (me_total_sectors e))"
proof -
  have "lba_to_chs x = [lba_to_chs x ! 0, lba_to_chs x ! 1, lba_to_chs x ! 2]" for x
    by (simp add: lba_to_chs_def Let_def)
  then obtain a b c d f g where "lba_to_chs (ucast (ucast (me_relative_sectors e) + off)) = [a, b, c]"
    "lba_to_chs (ucast (ucast (me_relative_sectors e + me_total_sectors e - 1) + off)) = [d, f, g]" by blast
  then show ?thesis
    by (simp add: read_entry_def mbr_entry_bytes_def hdimage_setup_chs_def field_append_right field_append_left
        field_all nth_append flip: append_Cons)
qed

lemma mbr_read_bytes:
  assumes "i < length es"
  shows "mbr_read (mbr_tail_bytes h es) i
    = (me_boot (es ! i), me_partition_type (es ! i), unat (me_relative_sectors (es ! i)), unat (me_total_sectors (es ! i)))"
proof -
  have "field (6 + 16 * i) 16 (mbr_tail_bytes h es) = map (\<lambda>e. mbr_entry_bytes e 0) es ! i"
    using assms unfolding mbr_tail_bytes_def
    by (simp add: field_append_right field_concat del: nth_map)
  then show ?thesis using assms by (simp add: mbr_read_def read_entry_bytes)
qed

lemma sectors32:
  assumes "512 dvd unat (x :: u64)" "unat x < 2 ^ 41"
  shows "512 * unat (ucast (x div 512) :: u32) = unat x"
proof -
  have "unat (x div 512) < 2 ^ 32" using assms(2) by (simp add: unat_div64)
  then have "unat (ucast (x div 512) :: u32) = unat x div 512"
    by (simp add: unsigned_ucast_eq take_bit_eq_mod unat_div64)
  then show ?thesis using assms(1) by simp
qed

text \<open>
  C10: the MBR that is written tells a reader exactly where the primary partitions are: entry \<open>i\<close> has the
  type and the active flag of the \<open>i\<close>-th of them and, in sectors, its offset and its size, for partitions
  of whole sectors below 2 TiB.
\<close>

theorem mbr_roundtrip:
  assumes "ps' = filter (in_mbr h) ps" and "i < length ps'"
    and "512 dvd unat (p_offset (ps' ! i))" "unat (p_offset (ps' ! i)) < 2 ^ 41"
    and "512 dvd unat (p_size (ps' ! i))" "unat (p_size (ps' ! i)) < 2 ^ 41"
  shows "\<exists>start count. mbr_read (mbr_tail_bytes h (mbr_entries h ps)) i =
      (if p_bootable (ps' ! i) then 0x80 else 0, p_partition_type (ps' ! i), start, count) \<and>
    512 * start = unat (p_offset (ps' ! i)) \<and> 512 * count = unat (p_size (ps' ! i))"
proof -
  have "mbr_entries h ps ! i = mbr_entry (ps' ! i)" "i < length (mbr_entries h ps)"
    using assms(1,2) by (simp_all add: mbr_entries_def nth_append)
  then show ?thesis
    using mbr_read_bytes [of i "mbr_entries h ps" h] sectors32 [OF assms(3,4)] sectors32 [OF assms(5,6)]
    by (simp add: mbr_entry_def)
qed

lemma mbr_roundtrip_witness:
  "let h = \<lparr>hd_extended_partition_index = 0, hd_extended_partition = None, hd_align = 512, hd_disksig = 0,
     hd_disk_uuid = [], hd_table_type = TYPE_MBR, hd_gpt_location = 1024, hd_gpt_no_backup = False,
     hd_fill = False, hd_file_size = 0\<rparr>;
     p = (zero_partition 1)\<lparr>p_in_partition_table := True, p_partition_type := 0x83, p_offset := 4096, p_size := 1048576\<rparr>
   in mbr_read (mbr_tail_bytes h (mbr_entries h [p])) 0 = (0, 0x83, 8, 2048)"
proof -
  let ?h = "\<lparr>hd_extended_partition_index = 0, hd_extended_partition = None, hd_align = 512, hd_disksig = 0,
     hd_disk_uuid = [], hd_table_type = TYPE_MBR, hd_gpt_location = 1024, hd_gpt_no_backup = False,
     hd_fill = False, hd_file_size = 0\<rparr> :: hdimage"
  let ?p = "(zero_partition 1)\<lparr>p_in_partition_table := True, p_partition_type := 0x83, p_offset := 4096, p_size := 1048576\<rparr>"
  show ?thesis
    using mbr_roundtrip [of _ ?h "[?p]" 0, OF refl]
    by (simp add: in_mbr_def zero_partition_def)
qed


section \<open>Extended boot records\<close>

lemma length_ebr_bytes [simp]: "length (ebr_bytes h ext p nxt) = 66"
  by (simp add: ebr_bytes_def zeros_def split: option.split)

definition ebr_read :: "bytes \<Rightarrow> nat \<Rightarrow> u8 \<times> u8 \<times> nat \<times> nat" where
  "ebr_read ebr i = read_entry (field (16 * i) 16 ebr)"

lemma ebr_read_bytes:
  "ebr_read (ebr_bytes h ext p nxt) 0 = (0, p_partition_type p,
     unat (me_relative_sectors (ebr_entry h p)), unat (me_total_sectors (ebr_entry h p)))"
  "ebr_read (ebr_bytes h ext p (Some q)) 1 = (0, PARTITION_TYPE_EXTENDED,
     unat (me_relative_sectors (ebr_link h ext q)), unat (me_total_sectors (ebr_link h ext q)))"
  by (simp_all add: ebr_read_def ebr_bytes_def field_append_left field_append_right read_entry_bytes ebr_entry_def ebr_link_def)

lemma dvd_unat_sub:
  "512 dvd unat (x :: u64) \<Longrightarrow> 512 dvd unat y \<Longrightarrow> y \<le> x \<Longrightarrow> 512 dvd unat (x - y) \<and> unat (x - y) = unat x - unat y"
  by (simp add: unat_sub64 word_le_nat_alt)


section \<open>GPT header\<close>

text \<open>What a reader checks first: the checksum of the header, computed with its own field zero.\<close>

definition header_crc_ok :: "bytes \<Rightarrow> bool" where
  "header_crc_ok bs \<longleftrightarrow> unat (crc32 (take 16 bs @ [0, 0, 0, 0] @ field 20 72 bs)) = unle (field 16 4 bs)"

lemma length_gpt_header_bytes: "length (gh_disk_uuid g) = 16 \<Longrightarrow> length (gpt_header_bytes g) = 92"
  by (simp add: gpt_header_bytes_def str_bytes_def)

lemma le32_0: "le32 0 = [0, 0, 0, 0]"
  by (simp add: le32_def le_def upt_rec)

lemma seal_crc_ok:
  assumes u: "length (gh_disk_uuid g) = 16"
  shows "header_crc_ok (gpt_header_bytes (seal g))"
proof -
  define a where "a = str_bytes ''EFI PART'' @ le32 GPT_REVISION_1_0 @ le32 92"
  define b where "b = le32 0 @ le64 (gh_current_lba g) @ le64 (gh_backup_lba g) @ le64 (gh_first_usable_lba g)
       @ le64 (gh_last_usable_lba g) @ gh_disk_uuid g @ le64 (gh_starting_lba g)
       @ le32 (word_of_nat GPT_ENTRIES) @ le32 128 @ le32 (gh_table_crc g)"
  have la: "length a = 16" and lb: "length b = 72" using u by (simp_all add: a_def b_def str_bytes_def)
  have eq: "gpt_header_bytes (g\<lparr>gh_header_crc := c\<rparr>) = a @ le32 c @ b" for c
    by (simp add: gpt_header_bytes_def a_def b_def)
  have "gpt_header_bytes (seal g) = a @ le32 (crc32 (a @ le32 0 @ b)) @ b" by (simp add: seal_def eq)
  then show ?thesis using la lb
    by (simp add: header_crc_ok_def field_append_right field_append_left field_all le32_0)
qed



definition demo_gpt_header :: gpt_header where
  "demo_gpt_header = \<lparr>gh_header_crc = 0, gh_current_lba = 1, gh_backup_lba = 2047, gh_first_usable_lba = 34,
     gh_last_usable_lba = 2014, gh_disk_uuid = replicate 16 7, gh_starting_lba = 2, gh_table_crc = 5\<rparr>"


definition demo_mbr_hd :: hdimage where
  "demo_mbr_hd = \<lparr>hd_extended_partition_index = 4, hd_extended_partition = Some 9, hd_align = 512, hd_disksig = 0,
     hd_disk_uuid = [], hd_table_type = TYPE_MBR, hd_gpt_location = 1024, hd_gpt_no_backup = False,
     hd_fill = False, hd_file_size = 0\<rparr>"


end
