(* ===== verification/HdWrites.thy ===== *)
theory HdWrites
  imports HdGenerate FileRuns HdSetupProps HdTableProps
begin

text \<open>
  The bytes of a disk image: \<open>hdimage_generate\<close> for a regular output file is a list of writes, the images
  and boot records of the partitions in their order and then the tables; with the layout of the setup no
  write destroys another, so every image is found in its partition and every table in its place.
\<close>

section \<open>The writes of a disk image\<close>

definition image_writes :: "world \<Rightarrow> image list \<Rightarrow> partition \<Rightarrow> (nat \<times> bytes) list" where
  "image_writes w images p =
     (case Option.bind (p_image p) (image_get images) of None \<Rightarrow> []
      | Some child \<Rightarrow>
          if im_size child = 0 \<and> \<not> p_fill p then []
          else let from = unat (p_imageoffset p);
                   n = unat (if p_fill p then p_size p else im_size child - p_imageoffset p) in
            [(unat (p_offset p), map (fdata (file_at w (im_outfile child))) [from..<from + n])])"

definition ebr_writes :: "hdimage \<Rightarrow> partition list \<Rightarrow> partition \<Rightarrow> (nat \<times> bytes) list" where
  "ebr_writes h parts p =
     (if \<not> p_logical p then []
      else [(unat (ebr_offset h p),
        case next_logical (p_addr p) parts of None \<Rightarrow> ebr_bytes h 0 p None
        | Some q \<Rightarrow> ebr_bytes h (the (extended_offset h parts)) p (Some q))])"

definition mbr_writes :: "hdimage \<Rightarrow> partition list \<Rightarrow> (nat \<times> bytes) list" where
  "mbr_writes h parts = [(440, mbr_tail_bytes h (mbr_entries h parts))]"

definition gpt_writes :: "hdimage \<Rightarrow> u64 \<Rightarrow> gpt_header \<Rightarrow> bytes \<Rightarrow> (nat \<times> bytes) list" where
  "gpt_writes h isize g table =
     [(512, gpt_header_bytes (seal g)), (unat (hd_gpt_location h), table)] @
     (if hd_gpt_no_backup h then []
      else [(unat isize - 33 * 512, table), (unat isize - 512, gpt_header_bytes (seal (gpt_backup_header isize g)))])"

definition table_writes :: "hdimage \<Rightarrow> u64 \<Rightarrow> partition list \<Rightarrow> (nat \<times> bytes) list" where
  "table_writes h isize parts =
     (if hd_table_type h = TYPE_NONE then []
      else if \<not> has_gpt (hd_table_type h) then mbr_writes h parts
      else (case (uuid_parse (hd_disk_uuid h), gpt_table parts) of
          (Inr uuid, Inr table) \<Rightarrow>
            gpt_writes h isize (fill_gpt_header h isize parts uuid table) table @
            mbr_writes h (if hd_table_type h = TYPE_HYBRID then parts else [protective_partition isize])
        | _ \<Rightarrow> []))"

definition hd_writes :: "world \<Rightarrow> image list \<Rightarrow> hdimage \<Rightarrow> u64 \<Rightarrow> partition list \<Rightarrow> (nat \<times> bytes) list" where
  "hd_writes w images h isize parts =
     concat (map (\<lambda>p. ebr_writes h parts p @ image_writes w images p) parts) @ table_writes h isize parts"

text \<open>The sizes for which no offset of these writes leaves the range of a file.\<close>

definition in_range :: "hdimage \<Rightarrow> u64 \<Rightarrow> partition list \<Rightarrow> bool" where
  "in_range h isize parts \<longleftrightarrow>
     (\<forall>p \<in> set parts. unat (p_offset p) + unat (p_size p) \<le> 2 ^ 62 \<and> unat (p_imageoffset p) \<le> 2 ^ 62 \<and>
        (p_logical p \<longrightarrow> hd_align h \<le> p_offset p)) \<and>
     unat isize \<le> 2 ^ 62 \<and>
     (has_gpt (hd_table_type h) \<longrightarrow> unat (hd_gpt_location h) \<le> 2 ^ 62 \<and> 33 * 512 \<le> unat isize)"

section \<open>One step\<close>

text \<open>What holds between two steps: the output is a regular file, every other file is as at the start.\<close>

definition between :: "string \<Rightarrow> world \<Rightarrow> world \<Rightarrow> bool" where
  "between out w0 w \<longleftrightarrow> wf_fs w \<and> no_short w \<and> (\<exists>x. fs w out = Some x \<and> fkind x = Regular) \<and>
     (\<forall>q. q \<noteq> out \<longrightarrow> fs w q = fs w0 q)"

text \<open>The operation \<open>m\<close>, when it succeeds, does the writes \<open>ws\<close> and nothing else.\<close>

definition does :: "string \<Rightarrow> world \<Rightarrow> (nat \<times> bytes) list \<Rightarrow> unit io \<Rightarrow> bool" where
  "does out w0 ws m \<longleftrightarrow> (\<forall>w u w'. between out w0 w \<longrightarrow> m w = (Inr u, w') \<longrightarrow>
     patched out ws w w' \<and> between out w0 w')"

lemma between_file_at: "between out w0 w \<Longrightarrow> fkind (file_at w out) = Regular"
  by (auto simp: between_def file_at_def)

lemma between_patched:
  assumes "between out w0 w" "patched out ws w w'" "wf_fs w'" "no_short w'"
  shows "between out w0 w'"
  using assms between_file_at [OF assms(1)] by (auto simp: between_def patched_def)

lemma doesI:
  assumes "\<And>w u w'. between out w0 w \<Longrightarrow> m w = (Inr u, w') \<Longrightarrow> patched out ws w w'"
    and "keeps (\<lambda>w w'. wf_fs w \<longrightarrow> wf_fs w') m" "keeps (\<lambda>w w'. script w' = script w) m"
  shows "does out w0 ws m"
  unfolding does_def
proof (intro allI impI conjI)
  fix w u w' assume b: "between out w0 w" and m: "m w = (Inr u, w')"
  show p: "patched out ws w w'" by (rule assms(1) [OF b m])
  have "wf_fs w" "no_short w" using b by (simp_all add: between_def)
  then show "between out w0 w'"
    using between_patched [OF b p] keeps_wf [OF _ assms(2) m] no_short_keeps [OF assms(3) m] by simp
qed

lemma patched_refl: "fs w' = fs w \<Longrightarrow> between out w0 w \<Longrightarrow> patched out [] w w'"
  by (auto simp: patched_def apply_writes_def file_at_def between_def intro!: exI [of _ "the (fs w out)"])

lemma does_ret: "does out w0 [] (ret u)"
  by (auto simp: does_def io_ok intro: patched_refl)

lemma does_throw: "does out w0 ws (throw e)"
  by (simp add: does_def io_ok)

lemma does_bind: "does out w0 as m \<Longrightarrow> does out w0 bs f \<Longrightarrow> does out w0 (as @ bs) (bind_io m (\<lambda>_. f))"
  unfolding does_def bind_io_ok by (blast intro: patched_trans)

lemma does_lift: "(\<And>x. r = Inr x \<Longrightarrow> does out w0 ws (f x)) \<Longrightarrow> does out w0 ws (bind_io (lift_io r) f)"
  by (auto simp: does_def io_ok)

lemma does_insert_data:
  assumes "unat off + length data \<le> off_max" shows "does out w0 [(unat off, data)] (insert_data out data off)"
proof (rule doesI [OF _ wff.keeps_insert_data scr.keeps_insert_data])
  fix w u w' assume b: "between out w0 w" and ok: "insert_data out data off w = (Inr u, w')"
  show "patched out [(unat off, data)] w w'"
    using b by (intro patched_write insert_data_whole [OF ok _ between_file_at [OF b] assms])
      (simp add: between_def)
qed

lemma copied_bytes:
  assumes "k \<le> n" "\<forall>i. from + k \<le> i \<and> i < from + n \<longrightarrow> d i = (0 :: u8)"
  shows "map d [from..<from + k] @ replicate (n - k) 0 = map d [from..<from + n]"
  by (rule nth_equalityI) (use assms in \<open>auto simp: nth_append\<close>)

lemma does_insert_image:
  assumes fm: "fiemap_ok fm" and io: "infile \<noteq> out"
    and no: "unat off + unat sz < 2 ^ 64" and np: "unat ioff + unat sz < 2 ^ 64"
  shows "does out w0 [(unat off, map (fdata (file_at w0 infile)) [unat ioff..<unat ioff + unat sz])]
    (insert_image fm out (Some infile) sz off ioff 0 sparse)"
proof (rule doesI [OF _ wff.keeps_insert_image scr.keeps_insert_image])
  fix w u w'
  assume b: "between out w0 w" and ok: "insert_image fm out (Some infile) sz off ioff 0 sparse w = (Inr u, w')"
  have wf: "wf_fs w" using b by (simp add: between_def)
  have cov: "\<forall>x. fs w infile = Some x \<longrightarrow> covers (unat (sz + ioff)) (to_extents (fm x)) x"
    using fiemap_ok_covers [OF fm] wf_fsD [OF wf] by blast
  obtain src k where s: "fs w infile = Some src" "k \<le> unat sz"
    "\<forall>i. unat ioff + k \<le> i \<and> i < unat ioff + unat sz \<longrightarrow> fdata src i = 0"
    "fs w' = (fs w)(out \<mapsto> write_at (unat off)
      (map (fdata src) [unat ioff..<unat ioff + k] @ replicate (unat sz - k) 0) (file_at w out))"
    using insert_image_ok [OF ok io wf no np cov] by blast
  have "fs w0 infile = Some src" using b io s(1) by (simp add: between_def)
  then have "file_at w0 infile = src" by (simp add: file_at_def)
  then show "patched out [(unat off, map (fdata (file_at w0 infile)) [unat ioff..<unat ioff + unat sz])] w w'"
    using s(4) copied_bytes [OF s(2,3)] by (intro patched_write) simp
qed

lemma does_extend_file: "does out w0 [] (extend_file out sz)"
proof (rule doesI [OF _ wff.keeps_prepare_extend(2) scr.keeps_prepare_extend(2)])
  fix w u w' assume b: "between out w0 w" and ok: "extend_file out sz w = (Inr u, w')"
  have "wf_fs w" using b by (simp add: between_def)
  then have "fs w' = (fs w)(out \<mapsto> (file_at w out)\<lparr>fsize := unat sz\<rparr>)" using extend_file_ok [OF ok] by blast
  then show "patched out [] w w'" by (auto simp: patched_def apply_writes_def)
qed

section \<open>The steps of the generation\<close>

lemma does_ebr:
  assumes "p_logical p" and r: "unat (p_offset p) \<le> 2 ^ 62" "hd_align h \<le> p_offset p"
  shows "does out w0 (ebr_writes h parts p) (hdimage_insert_ebr out h parts p)"
proof -
  have "unat (p_offset p - hd_align h) \<le> 2 ^ 62" using r by (simp add: unat_sub64 word_le_nat_alt)
  then have "unat (ebr_offset h p) + 66 \<le> off_max" by (simp add: ebr_offset_def unat_add64 off_max_def)
  then have i: "does out w0 [(unat (ebr_offset h p), ebr_bytes h e p q)] (insert_data out (ebr_bytes h e p q) (ebr_offset h p))"
    for e q by (intro does_insert_data) simp
  show ?thesis
    using assms(1) by (cases "next_logical (p_addr p) parts"; cases "extended_offset h parts")
      (simp_all add: hdimage_insert_ebr_def ebr_writes_def i does_throw)
qed

lemma does_insert_child:
  assumes fm: "fiemap_ok fm"
    and io: "\<And>f child. p_image p = Some f \<Longrightarrow> image_get images f = Some child \<Longrightarrow> im_outfile child \<noteq> out"
    and r: "unat (p_offset p) + unat (p_size p) \<le> 2 ^ 62" "unat (p_imageoffset p) \<le> 2 ^ 62"
  shows "does out w0 (image_writes w0 images p) (insert_child fm images out p)"
proof (cases "p_image p")
  case None
  then show ?thesis by (simp add: insert_child_def image_writes_def does_ret)
next
  case (Some f)
  show ?thesis
  proof (cases "image_get images f")
    case None
    then show ?thesis using Some by (simp add: insert_child_def does_throw)
  next
    case c: (Some child)
    let ?sz = "if p_fill p then p_size p else im_size child - p_imageoffset p"
    show ?thesis
    proof (cases "im_size child = 0 \<and> \<not> p_fill p \<or> p_imageoffset p > im_size child \<or>
        im_size child - p_imageoffset p > p_size p")
      case True
      then show ?thesis using Some c by (auto simp: insert_child_def image_writes_def Let_def does_ret does_throw)
    next
      case False
      have big: "(2 :: nat) ^ 62 + 2 ^ 62 < 2 ^ 64" by simp
      have sz: "unat ?sz \<le> unat (p_size p)" using False by (auto simp: word_le_nat_alt not_less)
      have "does out w0 [(unat (p_offset p), map (fdata (file_at w0 (im_outfile child)))
          [unat (p_imageoffset p)..<unat (p_imageoffset p) + unat ?sz])]
        (insert_image fm out (Some (im_outfile child)) ?sz (p_offset p) (p_imageoffset p) 0 (p_sparse p))"
        using sz r big by (intro does_insert_image fm io [OF Some c]) linarith+
      then show ?thesis using Some c False by (auto simp: insert_child_def image_writes_def Let_def)
    qed
  qed
qed


lemma does_for_each:
  "(\<And>x. x \<in> set xs \<Longrightarrow> does out w0 (ws x) (f x)) \<Longrightarrow> does out w0 (concat (map ws xs)) (for_each f xs)"
  by (induction xs) (simp_all add: does_ret does_bind)

lemma in_rangeD:
  assumes "in_range h isize parts" "p \<in> set parts"
  shows "unat (p_offset p) + unat (p_size p) \<le> 2 ^ 62" "unat (p_imageoffset p) \<le> 2 ^ 62"
    "p_logical p \<Longrightarrow> hd_align h \<le> p_offset p"
  using assms by (auto simp: in_range_def)

definition other_files :: "image list \<Rightarrow> string \<Rightarrow> partition list \<Rightarrow> bool" where
  "other_files images out parts \<longleftrightarrow> (\<forall>p \<in> set parts. \<forall>f \<in> set_option (p_image p).
     \<forall>child \<in> set_option (image_get images f). im_outfile child \<noteq> out)"

lemma does_generate_part:
  assumes "fiemap_ok fm" "other_files images out parts" "in_range h isize parts" "p \<in> set parts"
  shows "does out w0 (ebr_writes h parts p @ image_writes w0 images p) (generate_part fm images out h parts p)"
proof -
  note r = in_rangeD [OF assms(3,4)]
  have "does out w0 (ebr_writes h parts p) (if p_logical p then hdimage_insert_ebr out h parts p else ret ())"
    using r by (cases "p_logical p") (simp_all add: does_ebr, simp add: ebr_writes_def does_ret)
  moreover have "does out w0 (image_writes w0 images p) (insert_child fm images out p)"
    using assms(2,4) by (intro does_insert_child assms(1) r) (simp add: other_files_def)
  ultimately show ?thesis unfolding generate_part_def by (rule does_bind)
qed

lemma uuid_parse_length: "uuid_parse s = Inr b \<Longrightarrow> length b = 16"
  by (auto simp: uuid_parse_def split: if_splits)

lemma rmap_ok: "rmap f xs = Inr ys \<Longrightarrow> (\<And>x y. f x = Inr y \<Longrightarrow> P y) \<Longrightarrow> length ys = length xs \<and> (\<forall>y \<in> set ys. P y)"
  by (induction xs arbitrary: ys) (auto elim!: rbindE)

lemma gpt_entry_length: "gpt_entry p = Inr e \<Longrightarrow> length e = 128"
  unfolding gpt_entry_def uuid_field_def
  by (cases "p_type_uuid p"; cases "p_uuid p") (auto simp: length_gpt_name elim!: rbindE dest!: uuid_parse_length)

lemma gpt_table_length:
  assumes "gpt_table parts = Inr table" shows "length table = 128 * 128"
proof -
  obtain es where es: "rmap gpt_entry (filter p_in_partition_table parts) = Inr es"
    and l: "length (filter p_in_partition_table parts) \<le> 128"
    and t: "table = concat es @ zeros (128 * (128 - length es))"
    using assms by (auto simp: gpt_table_def Let_def rbind_ok GPT_ENTRIES_def split: if_splits)
  have "length es = length (filter p_in_partition_table parts) \<and> (\<forall>e \<in> set es. length e = 128)"
    using rmap_ok [OF es, of "\<lambda>e. length e = 128"] gpt_entry_length by blast
  then show ?thesis using length_concat_const [of es 128] l by (simp add: t zeros_def)
qed

lemma does_mbr: "does out w0 (mbr_writes h parts) (hdimage_insert_mbr out h parts)"
proof (cases "length (mbr_entries h parts) > 4")
  case False
  have "unat (440 :: u64) = 440" by simp
  then show ?thesis
    using does_insert_data [of 440 "mbr_tail_bytes h (mbr_entries h parts)" out w0] False
    by (simp add: hdimage_insert_mbr_def mbr_writes_def Let_def length_mbr_tail_bytes off_max_def)
qed (simp add: hdimage_insert_mbr_def does_throw)

lemma does_backup:
  assumes "33 * 512 \<le> unat isize" "unat isize \<le> 2 ^ 62" "length table = 16384" "length (gh_disk_uuid g) = 16"
  shows "does out w0 [(unat isize - 33 * 512, table), (unat isize - 512, gpt_header_bytes (seal (gpt_backup_header isize g)))]
    (insert_backup out isize g table)"
proof -
  have u: "unat (isize - GPT_SECTORS * 512) = unat isize - 33 * 512" "unat (isize - 512) = unat isize - 512"
    using assms(1) by (simp_all add: GPT_SECTORS_def unat_sub64)
  have t: "does out w0 [(unat isize - 33 * 512, table)] (insert_data out table (isize - GPT_SECTORS * 512))"
    using does_insert_data [of "isize - GPT_SECTORS * 512" table out w0] assms by (simp add: u off_max_def)
  have l: "length (gpt_header_bytes (seal (gpt_backup_header isize g))) = 92"
    using assms(4) by (simp add: length_gpt_header_bytes seal_def gpt_backup_header_def)
  have h: "does out w0 [(unat isize - 512, gpt_header_bytes (seal (gpt_backup_header isize g)))]
    (insert_data out (gpt_header_bytes (seal (gpt_backup_header isize g))) (isize - 512))"
    using does_insert_data [of "isize - 512" "gpt_header_bytes (seal (gpt_backup_header isize g))" out w0] assms(1,2) l
    by (simp add: u off_max_def)
  show ?thesis
    unfolding insert_backup_def using does_bind [OF does_extend_file does_bind [OF t h]] by simp
qed

lemma does_gpt:
  assumes "in_range h isize parts" "has_gpt (hd_table_type h)"
  shows "does out w0 (table_writes h isize parts) (hdimage_insert_gpt out h isize parts)"
  unfolding hdimage_insert_gpt_def
proof (intro does_lift)
  fix uuid table assume u: "uuid_parse (hd_disk_uuid h) = Inr uuid" and t: "gpt_table parts = Inr table"
  let ?g = "fill_gpt_header h isize parts uuid table"
  have g: "length (gh_disk_uuid ?g) = 16" using uuid_parse_length [OF u] by (simp add: fill_gpt_header_def)
  then have gs: "length (gpt_header_bytes (seal ?g)) = 92" by (simp add: length_gpt_header_bytes seal_def)
  have tl: "length table = 16384" using gpt_table_length [OF t] by simp
  have r: "unat (hd_gpt_location h) \<le> 2 ^ 62" "unat isize \<le> 2 ^ 62" "33 * 512 \<le> unat isize"
    using assms unfolding in_range_def by blast+
  have "unat (512 :: u64) = 512" by simp
  then have a: "does out w0 [(512, gpt_header_bytes (seal ?g))] (insert_data out (gpt_header_bytes (seal ?g)) 512)"
    using does_insert_data [of 512 "gpt_header_bytes (seal ?g)" out w0] gs by (simp add: off_max_def)
  have b: "does out w0 [(unat (hd_gpt_location h), table)] (insert_data out table (hd_gpt_location h))"
    using r(1) tl by (intro does_insert_data) (simp add: off_max_def)
  let ?b = "if hd_gpt_no_backup h then [] else
    [(unat isize - 33 * 512, table), (unat isize - 512, gpt_header_bytes (seal (gpt_backup_header isize ?g)))]"
  have c: "does out w0 ?b (if hd_gpt_no_backup h then ret () else insert_backup out isize ?g table)"
    using does_backup [OF r(3,2) tl g] by (simp add: does_ret)
  have d: "does out w0 (mbr_writes h (if hd_table_type h = TYPE_HYBRID then parts else [protective_partition isize]))
    (if hd_table_type h = TYPE_HYBRID then hdimage_insert_mbr out h parts else hdimage_insert_protective_mbr out h isize)"
    by (simp add: does_mbr hdimage_insert_protective_mbr_def)
  have w: "table_writes h isize parts = gpt_writes h isize ?g table @
      mbr_writes h (if hd_table_type h = TYPE_HYBRID then parts else [protective_partition isize])"
    using assms(2) u t by (auto simp: table_writes_def)
  show "does out w0 (table_writes h isize parts) (let g = ?g in
    bind_io (insert_data out (gpt_header_bytes (seal g)) 512) (\<lambda>_.
    bind_io (insert_data out table (hd_gpt_location h)) (\<lambda>_.
    bind_io (if hd_gpt_no_backup h then ret () else insert_backup out isize g table) (\<lambda>_.
      if hd_table_type h = TYPE_HYBRID then hdimage_insert_mbr out h parts
      else hdimage_insert_protective_mbr out h isize))))"
    unfolding w gpt_writes_def Let_def using does_bind [OF a does_bind [OF b does_bind [OF c d]]] by simp
qed

lemma does_tables: "in_range h isize parts \<Longrightarrow> does out w0 (table_writes h isize parts) (insert_tables out h isize parts)"
  unfolding insert_tables_def
  by (cases "hd_table_type h = TYPE_NONE"; cases "has_gpt (hd_table_type h)")
    (simp_all only: does_gpt if_True if_False, simp_all add: does_mbr does_ret table_writes_def)

section \<open>The whole generation\<close>

lemma check_file_size_ok:
  assumes "check_file_size out h w = (Inr u, w')" and "between out w0 w"
  shows "fs w' = fs w" "fsize (file_at w out) = unat (hd_file_size h)"
proof -
  obtain b w1 where b: "is_block_device out w = (Inr b, w1)" and c:
    "(if b then ret () else bind_io (sys_stat out) (\<lambda>s.
        if hd_file_size h \<noteq> word_of_nat (fsize s) then throw EINVAL else ret ())) w1 = (Inr u, w')"
    using assms(1) by (auto simp: check_file_size_def bind_io_ok)
  have nb: "\<not> b" by (rule is_block_device_False [OF b between_file_at [OF assms(2)]])
  have f1: "fs w1 = fs w" by (rule is_block_device_ok [OF b])
  obtain s w2 where s: "sys_stat out w1 = (Inr s, w2)" "hd_file_size h = word_of_nat (fsize s)" "w' = w2"
    using c nb by (auto simp: io_ok split: if_splits)
  note st = sys_stat_ok [OF s(1)]
  show "fs w' = fs w" using st s(3) f1 by simp
  have "fs w out = Some s" using st f1 by simp
  then have "file_at w out = s" "wf_inode s" using assms(2) by (auto simp: file_at_def between_def wf_fs_def)
  then show "fsize (file_at w out) = unat (hd_file_size h)"
    using s(2) by (simp add: wf_inode_def unat_of_nat64 off_max_def)
qed


text \<open>
  Everything after \<open>prepare_image\<close>, for a regular output: the writes \<open>hd_writes\<close>, and the file ends with
  the size that the setup computed.
\<close>

definition hd_steps :: "fiemap \<Rightarrow> image list \<Rightarrow> string \<Rightarrow> hdimage \<Rightarrow> u64 \<Rightarrow> partition list \<Rightarrow> unit io" where
  "hd_steps fm images out h isize parts =
     bind_io (for_each (generate_part fm images out h parts) parts) (\<lambda>_.
     bind_io (insert_tables out h isize parts) (\<lambda>_.
       if hd_fill h then extend_file out isize else ret ()))"

lemma does_hd_steps:
  assumes "fiemap_ok fm" "other_files images out parts" "in_range h isize parts"
  shows "does out w0 (hd_writes w0 images h isize parts) (hd_steps fm images out h isize parts)"
proof -
  note a = does_for_each [of parts out w0 _ "generate_part fm images out h parts", OF does_generate_part [OF assms]]
  have f: "does out w0 [] (if hd_fill h then extend_file out isize else ret ())"
    by (simp add: does_extend_file does_ret)
  show ?thesis
    unfolding hd_steps_def hd_writes_def
    using does_bind [OF a does_bind [OF does_tables [OF assms(3)] f]] by simp
qed

lemma between_prepared:
  assumes w: "wf_fs w" "no_short w" and r: "fkind (file_at w out) = Regular"
    and ok: "prepare_image fm out sz w = (Inr u, w1)" and sz: "sz \<noteq> 0"
  shows "between out w w1" "fdata (file_at w1 out) = (\<lambda>_. 0)"
proof -
  note f = prepare_image_ok [OF ok sz r]
  show "between out w w1"
    using f keeps_wf [OF w(1) wff.keeps_prepare_extend(1) ok] w(2)
      no_short_keeps [OF scr.keeps_prepare_extend(1) ok] by (simp add: between_def empty_file_def)
  show "fdata (file_at w1 out) = (\<lambda>_. 0)" by (simp add: file_at_upd [OF f] fun_eq_iff empty_file_def)
qed

lemma hdimage_generate_steps:
  assumes "hdimage_generate fm images h im w = (Inr u, w')"
  obtains w1 w2 w3 where "prepare_image fm (im_outfile im) (hd_file_size h) w = (Inr (), w1)"
    "hd_steps fm images (im_outfile im) h (im_size im) (im_partitions im) w1 = (Inr (), w2)"
    "check_file_size (im_outfile im) h w2 = (Inr (), w3)"
    "(if hd_table_type h \<noteq> TYPE_NONE then reload_partitions (im_outfile im) else ret ()) w3 = (Inr u, w')"
  using assms unfolding hdimage_generate_def hd_steps_def Let_def bind_io_ok by auto

lemma reload_partitions_fs:
  assumes "reload_partitions out w = (Inr u, w')" "fkind (file_at w out) = Regular"
  shows "fs w' = fs w"
proof -
  obtain b w1 where b: "is_block_device out w = (Inr b, w1)" and c: "(if \<not> b then ret ()
      else bind_io (sys_open_w out False False) (\<lambda>_. try_io (syscall (ret ())) (\<lambda>_. ret ()))) w1 = (Inr u, w')"
    using assms(1) by (auto simp: reload_partitions_def bind_io_ok)
  show ?thesis using c is_block_device_False [OF b assms(2)] is_block_device_ok [OF b] by (simp add: io_ok)
qed

lemma hdimage_generate_ok:
  assumes ok: "hdimage_generate fm images h im w = (Inr u, w')"
    and w: "wf_fs w" "no_short w" and reg: "fkind (file_at w (im_outfile im)) = Regular"
    and sz: "hd_file_size h \<noteq> 0" and fm: "fiemap_ok fm"
    and oth: "other_files images (im_outfile im) (im_partitions im)"
    and rng: "in_range h (im_size im) (im_partitions im)"
  shows "\<exists>y. fs w' = (fs w)(im_outfile im \<mapsto> y) \<and> fkind y = Regular \<and> fsize y = unat (hd_file_size h) \<and>
    fdata y = fdata (apply_writes (hd_writes w images h (im_size im) (im_partitions im)) empty_file)"
proof -
  let ?out = "im_outfile im" and ?ws = "hd_writes w images h (im_size im) (im_partitions im)"
  obtain w1 w2 w3 where p: "prepare_image fm ?out (hd_file_size h) w = (Inr (), w1)"
    and s: "hd_steps fm images ?out h (im_size im) (im_partitions im) w1 = (Inr (), w2)"
    and c: "check_file_size ?out h w2 = (Inr (), w3)"
    and l: "(if hd_table_type h \<noteq> TYPE_NONE then reload_partitions ?out else ret ()) w3 = (Inr u, w')"
    using ok by (rule hdimage_generate_steps)
  note b1 = between_prepared [OF w reg p sz]
  have d: "patched ?out ?ws w1 w2" "between ?out w w2"
    using does_hd_steps [OF fm oth rng] b1(1) s unfolding does_def by blast+
  note cf = check_file_size_ok [OF c d(2)]
  have "fkind (file_at w3 ?out) = Regular" using between_file_at [OF d(2)] cf(1) by (simp add: file_at_def)
  then have f: "fs w' = fs w2" using l cf(1) reload_partitions_fs [of ?out w3 u w'] by (auto simp: io_ok split: if_splits)
  obtain y where y: "fs w2 = (fs w1)(?out \<mapsto> y)" "fkind y = fkind (file_at w1 ?out)"
    "fdata y = fdata (apply_writes ?ws (file_at w1 ?out))" using d(1) unfolding patched_def by blast
  have "fs w1 = (fs w)(?out \<mapsto> resize (unat (hd_file_size h)) empty_file)" by (rule prepare_image_ok [OF p sz reg])
  then have "fs w' = (fs w)(?out \<mapsto> y)" unfolding f y(1) by simp
  moreover have "fdata (file_at w1 ?out) = fdata empty_file" using b1(2) by (simp add: empty_file_def)
  then have "fdata y = fdata (apply_writes ?ws empty_file)" unfolding y(3) by (rule fdata_apply_writes_cong)
  moreover have "fkind y = Regular" using y(2) between_file_at [OF b1(1)] by simp
  ultimately show ?thesis using cf(2) file_at_upd [OF y(1)] by blast
qed

end
