(* ===== verification/HdImages.thy ===== *)
theory HdImages
  imports HdWrites
begin

text \<open>
  A disk image that was set up and generated with success holds its images in its partitions and its tables
  in their places: the writes of the generation and the layout of the setup, put together.
\<close>

section \<open>No write destroys another\<close>

definition ident :: "partition \<Rightarrow> nat \<times> string option \<times> bool" where
  "ident p = (p_addr p, p_image p, p_logical p)"

lemma ident_resized: "resized_ext ext p q \<Longrightarrow> ident q = ident p"
  by (auto simp: resized_ext_def ident_def)

lemma setup_loop_ident: "setup_loop ev h pre post st = Inr (ps, st') \<Longrightarrow> map ident ps = map ident (pre @ post)"
proof (induction post arbitrary: pre st)
  case (Cons a post)
  from Cons.prems obtain a' st1 pre' where s: "setup_part ev h pre post a st = Inr (a', st1)"
    and g: "grow_extended h a' (st_now st1) (pre @ [a']) = Inr pre'"
    and l: "setup_loop ev h pre' post st1 = Inr (ps, st')" by (auto simp: rbind_ok)
  obtain f where f: "pre' = map f (pre @ [a'])" "\<And>q. resized_ext (hd_extended_partition h) q (f q)"
    by (rule grow_extended_ok [OF g]) blast
  have "ident a' = ident a" using setup_part_id(1) [OF s] by (simp add: same_id_def ident_def)
  then have "map ident pre' = map ident (pre @ [a])" using f ident_resized [OF f(2)] by simp
  then show ?case using Cons.IH [OF l] by simp
qed simp

lemma setup_layout_extended:
  assumes s: "setup_layout images shortcuts cfg a0 loc isize parts g = Inr (h, isize', ps, g')"
    and d: "distinct (map p_addr parts)" and sm: "\<forall>p \<in> set ps. small p" and al: "unat (hd_align h) \<le> 2 ^ 62"
    and q: "q \<in> set ps" "hd_extended_partition h = Some (p_addr q)"
  shows "p_image q = None" "\<not> p_logical q"
proof -
  obtain h0 parts1 fakes st0 st ev where a: "setup_loop ev h0 [] (parts1 @ fakes) st0 = Inr (ps, st)"
    "finish_setup h0 isize st = Inr (h, isize')"
    "\<And>p. p \<in> set (parts1 @ fakes) \<Longrightarrow> hd_extended_partition h0 = Some (p_addr p) \<Longrightarrow> plain p \<and> p_size p = 0"
    using s d sm al by (rule setup_layout_loop) blast
  have h: "hd_extended_partition h = hd_extended_partition h0" using finish_setup_ok(3) [OF a(2)] by auto
  have "ident q \<in> set (map ident (parts1 @ fakes))" using setup_loop_ident [OF a(1)] q(1) by (metis append_Nil imageI set_map)
  then obtain p where p: "p \<in> set (parts1 @ fakes)" "ident q = ident p" by auto
  then have "plain p" using a(3) [OF p(1)] q(2) h by (simp add: ident_def)
  then show "p_image q = None" "\<not> p_logical q" using p(2) by (simp_all add: ident_def plain_def)
qed

text \<open>What the generation writes of an image is not longer than the partition.\<close>

definition child_fits :: "image list \<Rightarrow> partition \<Rightarrow> bool" where
  "child_fits images p \<longleftrightarrow> (\<forall>f \<in> set_option (p_image p). \<forall>child \<in> set_option (image_get images f).
     im_size child \<noteq> 0 \<or> p_fill p \<longrightarrow> p_imageoffset p \<le> im_size child \<and> im_size child - p_imageoffset p \<le> p_size p)"

lemma for_each_runs: "for_each f xs w = (Inr u, w') \<Longrightarrow> x \<in> set xs \<Longrightarrow> \<exists>w1 w2. f x w1 = (Inr (), w2)"
proof (induction xs arbitrary: w)
  case (Cons a xs)
  obtain w1 where w1: "f a w = (Inr (), w1)" "for_each f xs w1 = (Inr u, w')"
    using Cons.prems(1) by (auto simp: bind_io_ok)
  show ?case
  proof (cases "x = a")
    case True
    then show ?thesis using w1(1) by blast
  next
    case False
    then show ?thesis using Cons.IH [OF w1(2)] Cons.prems(2) by simp
  qed
qed simp

lemma insert_child_fits: "insert_child fm images out p w = (Inr u, w') \<Longrightarrow> child_fits images p"
  by (auto simp: child_fits_def insert_child_def Let_def io_ok split: if_splits)

lemma generate_fits:
  assumes "hdimage_generate fm images h im w = (Inr u, w')" "p \<in> set (im_partitions im)"
  shows "child_fits images p"
proof -
  obtain w1 w2 where s: "hd_steps fm images (im_outfile im) h (im_size im) (im_partitions im) w1 = (Inr (), w2)"
    using assms(1) by (rule hdimage_generate_steps)
  obtain w3 where "for_each (generate_part fm images (im_outfile im) h (im_partitions im)) (im_partitions im) w1 = (Inr (), w3)"
    using s unfolding hd_steps_def bind_io_ok by auto
  from for_each_runs [OF this assms(2)] show ?thesis
    by (auto simp: generate_part_def bind_io_ok dest: insert_child_fits)
qed

lemma image_writes_inside:
  assumes "child_fits images p" "(off, bs) \<in> set (image_writes w images p)"
  shows "off = unat (p_offset p)" "length bs \<le> unat (p_size p)"
proof -
  obtain f child where f: "p_image p = Some f" "image_get images f = Some child"
    using assms(2) by (cases "p_image p"; cases "image_get images (the (p_image p))") (auto simp: image_writes_def)
  then show "off = unat (p_offset p)" "length bs \<le> unat (p_size p)"
    using assms by (auto simp: image_writes_def child_fits_def Let_def word_le_nat_alt split: if_splits)
qed

text \<open>A byte of a partition that is in no hole that its image declares.\<close>

definition solid :: "image list \<Rightarrow> partition \<Rightarrow> nat \<Rightarrow> bool" where
  "solid images p i \<longleftrightarrow> i \<in> covered p \<and> \<not> hole_in images p {i}"

lemma hole_in_elem: "hole_in images p A \<Longrightarrow> i \<in> A \<Longrightarrow> hole_in images p {i}"
  unfolding hole_in_def by blast

lemma solid_apart: "solid images p i \<Longrightarrow> apart images p q \<Longrightarrow> i \<notin> covered q"
  unfolding solid_def apart_def using hole_in_elem [of images p "covered p \<inter> covered q" i] by blast

lemma solid_apart_before: "solid images p i \<Longrightarrow> apart images q p \<Longrightarrow> p_image q = None \<Longrightarrow> i \<notin> covered q"
  unfolding solid_def apart_def hole_in_def by auto

lemma ebr_writes_after:
  assumes "p_logical q" and r: "ebr_room (hd_align h) p q" and i: "i \<in> covered p" and o: "unat (p_offset q) \<le> 2 ^ 62"
  shows "misses (ebr_writes h parts q) i"
proof -
  have e: "unat (p_offset p) + unat (p_size p) + unat (hd_align h) \<le> unat (p_offset q)"
    using r assms(1) by (simp add: ebr_room_def)
  have "unat (p_offset q - hd_align h) = unat (p_offset q) - unat (hd_align h)" using e by (subst unat_sub64) auto
  then have "unat (ebr_offset h q) = unat (p_offset q) - unat (hd_align h) + 446"
    using o by (simp add: ebr_offset_def unat_add64)
  then have "i < unat (ebr_offset h q)" using e i by (auto simp: covered_def)
  then show ?thesis by (auto simp: misses_def ebr_writes_def)
qed

lemma misses_append [simp]: "misses (as @ bs) i \<longleftrightarrow> misses as i \<and> misses bs i"
  by (auto simp: misses_def)

lemma misses_Nil [simp]: "misses [] i"
  by (simp add: misses_def)

lemma misses_concat: "(\<And>x. x \<in> set xs \<Longrightarrow> misses (f x) i) \<Longrightarrow> misses (concat (map f xs)) i"
  by (induction xs) simp_all

lemma later_part_misses:
  assumes s: "solid images0 p i" and ap: "apart_unless (hd_align h) ext images0 p q"
    and p: "ext \<noteq> Some (p_addr p)" and q: "ext = Some (p_addr q) \<Longrightarrow> p_image q = None \<and> \<not> p_logical q"
    and f: "child_fits images q" and o: "unat (p_offset q) \<le> 2 ^ 62"
  shows "misses (ebr_writes h parts q @ image_writes w images q) i"
proof (cases "ext = Some (p_addr q)")
  case True
  then show ?thesis using q by (simp add: ebr_writes_def image_writes_def)
next
  case False
  then have a: "apart images0 p q" "ebr_room (hd_align h) p q" using ap p by (simp_all add: apart_unless_def)
  have i: "i \<in> covered p" using s by (simp add: solid_def)
  have "misses (ebr_writes h parts q) i"
    using ebr_writes_after [OF _ a(2) i o] by (cases "p_logical q") (simp_all add: ebr_writes_def)
  moreover have "misses (image_writes w images q) i"
    using solid_apart [OF s a(1)] image_writes_inside [OF f] by (fastforce simp: misses_def covered_def)
  ultimately show ?thesis by simp
qed

lemma reserved_misses:
  assumes s: "solid images0 p i" and p: "p \<in> set ps" "p_image p \<noteq> None" "ext \<noteq> Some (p_addr p)"
    and lay: "sorted_wrt (apart_unless al ext images0) ps" and r: "reserved ext ps off n"
  shows "i < off \<or> off + n \<le> i"
proof -
  obtain q where q: "q \<in> set ps" "ext \<noteq> Some (p_addr q)" "p_image q = None" "covered q = {off..<off + n}"
    using r by (auto simp: reserved_def covered_def)
  obtain j k where jk: "j < length ps" "ps ! j = p" "k < length ps" "ps ! k = q"
    using p(1) q(1) by (auto simp: in_set_conv_nth)
  have "i \<notin> covered q"
  proof (cases "j < k")
    case True
    then have "apart_unless al ext images0 p q" using sorted_wrt_nth_less [OF lay True] jk by simp
    then show ?thesis using p(3) q(2) solid_apart [OF s] by (simp add: apart_unless_def)
  next
    case False
    then have "k < j" using jk q(3) p(2) by (cases "j = k") auto
    then have "apart_unless al ext images0 q p" using sorted_wrt_nth_less [OF lay] jk by metis
    then show ?thesis using p(3) q(2,3) solid_apart_before [OF s] by (simp add: apart_unless_def)
  qed
  then show ?thesis using q(4) by auto
qed


lemma mbr_misses: "length (mbr_entries h ps) \<le> 4 \<Longrightarrow> i < 440 \<or> 512 \<le> i \<Longrightarrow> misses (mbr_writes h ps) i"
  by (auto simp: misses_def mbr_writes_def length_mbr_tail_bytes)

lemma length_protective: "length (mbr_entries h [protective_partition isize]) \<le> 4"
  by (simp add: mbr_entries_def)

lemma gpt_misses:
  assumes "length (gh_disk_uuid g) = 16" "length table = 16384" "33 * 512 \<le> unat isize"
    and "i < 512 \<or> 1024 \<le> i" "i < unat (hd_gpt_location h) \<or> unat (hd_gpt_location h) + 16384 \<le> i"
    "i < unat isize - 33 * 512 \<or> unat isize \<le> i"
  shows "misses (gpt_writes h isize g table) i"
proof -
  have "length (gpt_header_bytes (seal g)) = 92" "length (gpt_header_bytes (seal (gpt_backup_header isize g))) = 92"
    using assms(1) by (simp_all add: length_gpt_header_bytes seal_def gpt_backup_header_def)
  then show ?thesis using assms by (auto simp: misses_def gpt_writes_def)
qed

lemma table_misses:
  assumes mbr: "hd_table_type h \<noteq> TYPE_NONE \<Longrightarrow> i < 440 \<or> 512 \<le> i"
    and n: "has_mbr (hd_table_type h) \<Longrightarrow> length (mbr_entries h ps) \<le> 4"
    and gpt: "has_gpt (hd_table_type h) \<Longrightarrow> 33 * 512 \<le> unat isize \<and> (i < 512 \<or> 1024 \<le> i) \<and>
      (i < unat (hd_gpt_location h) \<or> unat (hd_gpt_location h) + 16384 \<le> i) \<and>
      (i < unat isize - 33 * 512 \<or> unat isize \<le> i)"
  shows "misses (table_writes h isize ps) i"
proof (cases "has_gpt (hd_table_type h)")
  case False
  then show ?thesis using mbr n by (cases "hd_table_type h") (simp_all add: table_writes_def mbr_misses)
next
  case True
  have t: "hd_table_type h \<noteq> TYPE_NONE" using True by auto
  show ?thesis
  proof (cases "uuid_parse (hd_disk_uuid h)")
    case (Inr uuid)
    show ?thesis
    proof (cases "gpt_table ps")
      case i2: (Inr table)
      have "misses (gpt_writes h isize (fill_gpt_header h isize ps uuid table) table) i"
        using gpt [OF True] gpt_table_length [OF i2] uuid_parse_length [OF Inr]
        by (intro gpt_misses) (simp_all add: fill_gpt_header_def)
      moreover have "misses (mbr_writes h (if hd_table_type h = TYPE_HYBRID then ps else [protective_partition isize])) i"
        using mbr [OF t] n length_protective by (auto intro!: mbr_misses)
      ultimately show ?thesis unfolding table_writes_def using Inr i2 True t by simp
    qed (use Inr t True in \<open>simp add: table_writes_def del: has_gpt.simps\<close>)
  qed (use t True in \<open>simp add: table_writes_def del: has_gpt.simps\<close>)
qed

section \<open>The images are found in their partitions\<close>

lemma covered_solid:
  assumes "n < unat (p_size p)" and "p_image p = Some f"
    and "\<And>child x. image_get images f = Some child \<Longrightarrow> x \<in> set (im_holes child) \<Longrightarrow>
      \<not> (unat (ext_start x) \<le> n \<and> n < unat (ext_end x))"
  shows "solid images p (unat (p_offset p) + n)"
  using assms by (auto simp: solid_def hole_in_def covered_def)

text \<open>What is assumed of the run of the generation, and of the sizes.\<close>

definition clean_run :: "fiemap \<Rightarrow> image list \<Rightarrow> string \<Rightarrow> partition list \<Rightarrow> world \<Rightarrow> bool" where
  "clean_run fm images out ps w \<longleftrightarrow> fiemap_ok fm \<and> wf_fs w \<and> no_short w \<and> fkind (file_at w out) = Regular \<and>
     other_files images out ps"

definition small_layout :: "hdimage \<Rightarrow> u64 \<Rightarrow> partition list \<Rightarrow> bool" where
  "small_layout h isize ps \<longleftrightarrow> (\<forall>p \<in> set ps. small p \<and> unat (p_imageoffset p) \<le> 2 ^ 62) \<and>
     unat (hd_align h) \<le> 2 ^ 62 \<and> unat isize \<le> 2 ^ 62 \<and> hd_file_size h \<noteq> 0"

text \<open>A layout that the setup has made is in the range of the writes.\<close>

lemma small_layout_range:
  assumes s: "setup_layout images shortcuts cfg a0 loc isize parts g = Inr (h, isize', ps, g')"
    and d: "distinct (map p_addr parts)" and sm: "small_layout h isize' ps"
  shows "in_range h isize' ps"
proof -
  have a: "\<forall>p \<in> set ps. small p" "unat (hd_align h) \<le> 2 ^ 62" using sm by (simp_all add: small_layout_def)
  note t = setup_layout_tables [OF s d a]
  have "unat (hd_gpt_location h) \<le> 2 ^ 62" if "has_gpt (hd_table_type h)"
    using t(3) [OF that] a(1) by (auto simp: reserved_def small_def)
  moreover have "hd_align h \<le> p_offset p" if "p \<in> set ps" "p_logical p" for p
    using setup_layout_layout [OF s d a] that by (auto simp: layout_def word_le_nat_alt)
  moreover have "\<forall>p \<in> set ps. unat (p_offset p) + unat (p_size p) \<le> 2 ^ 62 \<and> unat (p_imageoffset p) \<le> 2 ^ 62"
    "unat isize' \<le> 2 ^ 62" using sm by (auto simp: small_layout_def small_def)
  ultimately show ?thesis using t(4) unfolding in_range_def by blast
qed

lemma solid_byte_kept:
  assumes s: "setup_layout images0 shortcuts cfg a0 loc isize parts g = Inr (h, isize', ps, g')"
    and d: "distinct (map p_addr parts)" and sm: "small_layout h isize' ps"
    and fit: "\<And>q. q \<in> set ps \<Longrightarrow> child_fits images q"
    and p: "ps = before @ p # later" "p_image p \<noteq> None" "hd_extended_partition h \<noteq> Some (p_addr p)"
    and i: "solid images0 p i"
  shows "misses (concat (map (\<lambda>q. ebr_writes h ps q @ image_writes w images q) later) @ table_writes h isize' ps) i"
proof -
  let ?ext = "hd_extended_partition h"
  have a: "\<forall>p \<in> set ps. small p" "unat (hd_align h) \<le> 2 ^ 62" using sm by (simp_all add: small_layout_def)
  note t = setup_layout_tables [OF s d a]
  have lay: "sorted_wrt (apart_unless (hd_align h) ?ext images0) ps"
    using setup_layout_layout [OF s d a] by (auto simp: layout_def)
  have m: "misses (ebr_writes h ps q @ image_writes w images q) i" if q: "q \<in> set later" for q
  proof (rule later_part_misses [OF i _ p(3)])
    show "apart_unless (hd_align h) ?ext images0 p q" using lay q unfolding p(1) by (simp add: sorted_wrt_append)
    show "child_fits images q" using fit q p(1) by simp
    have "q \<in> set ps" using q p(1) by simp
    then have "small q" using a(1) by blast
    then show "unat (p_offset q) \<le> 2 ^ 62" by (simp add: small_def)
    show "p_image q = None \<and> \<not> p_logical q" if "?ext = Some (p_addr q)"
      using setup_layout_extended [OF s d a _ that] q p(1) by simp
  qed
  have pin: "p \<in> set ps" using p(1) by simp
  note r = reserved_misses [OF i pin p(2,3) lay]
  have "misses (table_writes h isize' ps) i"
  proof (rule table_misses)
    show "i < 440 \<or> 512 \<le> i" if "hd_table_type h \<noteq> TYPE_NONE" using r [OF t(1) [OF that]] by simp
    show "length (mbr_entries h ps) \<le> 4" if "has_mbr (hd_table_type h)" by (rule setup_mbr_room [OF s d that])
    show "33 * 512 \<le> unat isize' \<and> (i < 512 \<or> 1024 \<le> i) \<and>
      (i < unat (hd_gpt_location h) \<or> unat (hd_gpt_location h) + 16384 \<le> i) \<and>
      (i < unat isize' - 33 * 512 \<or> unat isize' \<le> i)" if g: "has_gpt (hd_table_type h)"
      using r [OF t(2) [OF g]] r [OF t(3) [OF g]] r [OF conjunct2 [OF t(4) [OF g]]] conjunct1 [OF t(4) [OF g]] by auto
  qed
  then show ?thesis using misses_concat [of later "\<lambda>q. ebr_writes h ps q @ image_writes w images q" i, OF m] by simp
qed

lemma hdimage_setup_layout:
  assumes "hdimage_setup images shortcuts cfg im g w = (Inr (h, im', g'), w')"
  obtains a0 loc isize where "setup_layout images shortcuts cfg a0 loc isize (im_partitions im) g =
      Inr (h, im_size im', im_partitions im', g')" "im_outfile im' = im_outfile im"
  using assms by (auto simp: hdimage_setup_def io_ok lift_io_def split: prod.splits)

lemma hdimage_image_bytes:
  assumes su: "hdimage_setup images0 shortcuts cfg im g w0 = (Inr (h, im', g'), w0')"
    and gen: "hdimage_generate fm images h im' w = (Inr u, w')"
    and d: "distinct (map p_addr (im_partitions im))"
    and sm: "small_layout h (im_size im') (im_partitions im')"
    and run: "clean_run fm images (im_outfile im') (im_partitions im') w"
    and p: "p \<in> set (im_partitions im')"
    and f: "p_image p = Some f" "image_get images f = Some child" "im_size child \<noteq> 0"
    and n: "n < unat (im_size child - p_imageoffset p)"
    and hole: "\<And>c x. image_get images0 f = Some c \<Longrightarrow> x \<in> set (im_holes c) \<Longrightarrow>
      \<not> (unat (ext_start x) \<le> n \<and> n < unat (ext_end x))"
  shows "fdata (file_at w' (im_outfile im')) (unat (p_offset p) + n) =
    fdata (file_at w (im_outfile child)) (unat (p_imageoffset p) + n)"
proof -
  obtain a0 loc isize where s: "setup_layout images0 shortcuts cfg a0 loc isize (im_partitions im) g =
      Inr (h, im_size im', im_partitions im', g')" by (rule hdimage_setup_layout [OF su])
  let ?ps = "im_partitions im'" and ?out = "im_outfile im'"
  let ?w = "\<lambda>q. ebr_writes h ?ps q @ image_writes w images q"
  have c: "fiemap_ok fm" "wf_fs w" "no_short w" "fkind (file_at w ?out) = Regular" "other_files images ?out ?ps"
    using run by (simp_all add: clean_run_def)
  have fz: "hd_file_size h \<noteq> 0" using sm by (simp add: small_layout_def)
  obtain y where y: "fs w' = (fs w)(?out \<mapsto> y)"
    "fdata y = fdata (apply_writes (hd_writes w images h (im_size im') ?ps) empty_file)"
    using hdimage_generate_ok [OF gen c(2,3,4) fz c(1,5) small_layout_range [OF s d sm]] by blast
  note fits = generate_fits [OF gen]
  have a: "\<forall>p \<in> set ?ps. small p" "unat (hd_align h) \<le> 2 ^ 62" using sm by (simp_all add: small_layout_def)
  have ne: "hd_extended_partition h \<noteq> Some (p_addr p)" using setup_layout_extended(1) [OF s d a p] f(1) by auto
  have np: "unat (im_size child - p_imageoffset p) \<le> unat (p_size p)"
    using fits [OF p] f by (simp add: child_fits_def word_le_nat_alt)
  then have sol: "solid images0 p (unat (p_offset p) + n)"
    using n by (intro covered_solid [OF _ f(1) hole]) simp_all
  obtain before later where ps: "?ps = before @ p # later" using split_list [OF p] by blast
  let ?sz = "unat (if p_fill p then p_size p else im_size child - p_imageoffset p)"
  let ?bs = "map (fdata (file_at w (im_outfile child))) [unat (p_imageoffset p)..<unat (p_imageoffset p) + ?sz]"
  have iw: "image_writes w images p = [(unat (p_offset p), ?bs)]" using f by (simp add: image_writes_def Let_def)
  have nb: "n < ?sz" using n np by simp
  have "hd_writes w images h (im_size im') ?ps = (concat (map ?w before) @ ebr_writes h ?ps p) @
      (unat (p_offset p), ?bs) # concat (map ?w later) @ table_writes h (im_size im') ?ps"
  proof -
    have "map ?w ?ps = map ?w before @ ?w p # map ?w later" unfolding ps by simp
    then show ?thesis unfolding hd_writes_def iw by (simp only: concat.simps concat_append append_assoc append.simps)
  qed
  then have "fdata y (unat (p_offset p) + n) = ?bs ! (unat (p_offset p) + n - unat (p_offset p))"
    unfolding y(2) using solid_byte_kept [OF s d sm fits ps _ ne sol, of w] f(1) nb
    by (simp only:) (rule apply_writes_hit; simp)
  then show ?thesis using nb file_at_upd [OF y(1)] by simp
qed


section \<open>The tables are found in their places\<close>

text \<open>The bytes of a file from an offset on.\<close>

definition bytes_at :: "inode \<Rightarrow> nat \<Rightarrow> nat \<Rightarrow> bytes" where
  "bytes_at x off n = map (fdata x) [off..<off + n]"

lemma apply_writes_back:
  assumes "\<And>i. off \<le> i \<Longrightarrow> i < off + length bs \<Longrightarrow> misses later i" and "length bs = n"
    and y: "fdata y = fdata (apply_writes (before @ (off, bs) # later) x)"
  shows "bytes_at y off n = bs"
  unfolding bytes_at_def y
  by (rule nth_equalityI) (use assms(1,2) apply_writes_hit [of off _ bs later before x] in auto)

lemma reserved_apart:
  assumes r: "reserved ext ps a n" "reserved ext ps b m" "n \<noteq> m" "0 < n" "0 < m"
    and lay: "sorted_wrt (apart_unless al ext images0) ps"
  shows "a + n \<le> b \<or> b + m \<le> a"
proof -
  obtain q1 where q1: "q1 \<in> set ps" "ext \<noteq> Some (p_addr q1)" "p_image q1 = None" "covered q1 = {a..<a + n}"
    "unat (p_size q1) = n" using r(1) by (auto simp: reserved_def covered_def)
  obtain q2 where q2: "q2 \<in> set ps" "ext \<noteq> Some (p_addr q2)" "p_image q2 = None" "covered q2 = {b..<b + m}"
    "unat (p_size q2) = m" using r(2) by (auto simp: reserved_def covered_def)
  obtain j k where jk: "j < length ps" "ps ! j = q1" "k < length ps" "ps ! k = q2"
    using q1(1) q2(1) by (auto simp: in_set_conv_nth)
  have "j \<noteq> k" using jk q1(5) q2(5) r(3) by auto
  then have "apart_unless al ext images0 q1 q2 \<or> apart_unless al ext images0 q2 q1"
    using sorted_wrt_nth_less [OF lay] jk by (metis nat_neq_iff)
  then have d: "{a..<a + n} \<inter> {b..<b + m} = {}" using q1 q2 by (auto simp: apart_unless_def apart_def hole_in_def)
  show ?thesis
  proof (rule ccontr)
    assume "\<not> ?thesis"
    then have "max a b \<in> {a..<a + n} \<inter> {b..<b + m}" using r(4,5) by auto
    then show False using d by blast
  qed
qed

lemma generate_gpt_tables:
  assumes "hdimage_generate fm images h im w = (Inr u, w')" "has_gpt (hd_table_type h)"
  obtains uuid table where "uuid_parse (hd_disk_uuid h) = Inr uuid" "gpt_table (im_partitions im) = Inr table"
proof -
  obtain w1 w2 where s: "hd_steps fm images (im_outfile im) h (im_size im) (im_partitions im) w1 = (Inr (), w2)"
    using assms(1) by (rule hdimage_generate_steps)
  have t: "hd_table_type h \<noteq> TYPE_NONE" using assms(2) by auto
  obtain w3 w4 where "hdimage_insert_gpt (im_outfile im) h (im_size im) (im_partitions im) w3 = (Inr (), w4)"
    using s assms(2) t unfolding hd_steps_def insert_tables_def bind_io_ok by auto
  then show thesis using that unfolding hdimage_insert_gpt_def by (auto simp: bind_io_ok lift_io_ok)
qed

lemma hdimage_table_bytes:
  assumes su: "hdimage_setup images0 shortcuts cfg im g w0 = (Inr (h, im', g'), w0')"
    and gen: "hdimage_generate fm images h im' w = (Inr u, w')"
    and d: "distinct (map p_addr (im_partitions im))"
    and sm: "small_layout h (im_size im') (im_partitions im')"
    and run: "clean_run fm images (im_outfile im') (im_partitions im') w"
  shows "(hd_table_type h \<noteq> TYPE_NONE \<longrightarrow> bytes_at (file_at w' (im_outfile im')) 440 72 =
      mbr_tail_bytes h (mbr_entries h (if hd_table_type h = TYPE_GPT then [protective_partition (im_size im')] else im_partitions im'))) \<and>
    (has_gpt (hd_table_type h) \<longrightarrow> (\<exists>uuid table. uuid_parse (hd_disk_uuid h) = Inr uuid \<and>
      gpt_table (im_partitions im') = Inr table \<and>
      (let g = fill_gpt_header h (im_size im') (im_partitions im') uuid table; end = unat (im_size im');
           x = file_at w' (im_outfile im') in
        bytes_at x 512 92 = gpt_header_bytes (seal g) \<and> bytes_at x (unat (hd_gpt_location h)) (128 * 128) = table \<and>
        (\<not> hd_gpt_no_backup h \<longrightarrow> bytes_at x (end - 33 * 512) (128 * 128) = table \<and>
          bytes_at x (end - 512) 92 = gpt_header_bytes (seal (gpt_backup_header (im_size im') g))))))"
proof -
  obtain a0 loc isize where s: "setup_layout images0 shortcuts cfg a0 loc isize (im_partitions im) g =
      Inr (h, im_size im', im_partitions im', g')" by (rule hdimage_setup_layout [OF su])
  let ?ps = "im_partitions im'" and ?out = "im_outfile im'" and ?sz = "im_size im'"
  let ?mp = "if hd_table_type h = TYPE_GPT then [protective_partition ?sz] else ?ps"
  have c: "fiemap_ok fm" "wf_fs w" "no_short w" "fkind (file_at w ?out) = Regular" "other_files images ?out ?ps"
    using run by (simp_all add: clean_run_def)
  have fz: "hd_file_size h \<noteq> 0" using sm by (simp add: small_layout_def)
  obtain y where y: "fs w' = (fs w)(?out \<mapsto> y)"
    "fdata y = fdata (apply_writes (hd_writes w images h ?sz ?ps) empty_file)"
    using hdimage_generate_ok [OF gen c(2,3,4) fz c(1,5) small_layout_range [OF s d sm]] by blast
  have fy: "file_at w' ?out = y" by (rule file_at_upd [OF y(1)])
  have a: "\<forall>p \<in> set ?ps. small p" "unat (hd_align h) \<le> 2 ^ 62" using sm by (simp_all add: small_layout_def)
  note t = setup_layout_tables [OF s d a]
  have lay: "sorted_wrt (apart_unless (hd_align h) (hd_extended_partition h) images0) ?ps"
    using setup_layout_layout [OF s d a] by (auto simp: layout_def)
  have n4: "length (mbr_entries h ?mp) \<le> 4" if "hd_table_type h \<noteq> TYPE_NONE"
    using setup_mbr_room [OF s d] length_protective that by (cases "hd_table_type h") simp_all
  let ?pw = "concat (map (\<lambda>q. ebr_writes h ?ps q @ image_writes w images q) ?ps)"
  have w: "\<exists>ws. hd_writes w images h ?sz ?ps = ws @ mbr_writes h ?mp" if "hd_table_type h \<noteq> TYPE_NONE"
  proof (cases "has_gpt (hd_table_type h)")
    case False
    then show ?thesis using that by (cases "hd_table_type h") (simp_all add: hd_writes_def table_writes_def)
  next
    case True
    obtain uuid table where "uuid_parse (hd_disk_uuid h) = Inr uuid" "gpt_table ?ps = Inr table"
      by (rule generate_gpt_tables [OF gen True])
    then show ?thesis using True by (auto simp: hd_writes_def table_writes_def)
  qed
  have mbr: "bytes_at y 440 72 = mbr_tail_bytes h (mbr_entries h ?mp)" if ty: "hd_table_type h \<noteq> TYPE_NONE"
  proof -
    obtain ws where ws: "hd_writes w images h ?sz ?ps = ws @ [(440, mbr_tail_bytes h (mbr_entries h ?mp))]"
      using w [OF ty] by (auto simp: mbr_writes_def)
    show ?thesis
      by (rule apply_writes_back [OF misses_Nil length_mbr_tail_bytes [OF n4 [OF ty]] y(2) [unfolded ws]])
  qed
  have gpt: "\<exists>uuid table. uuid_parse (hd_disk_uuid h) = Inr uuid \<and> gpt_table ?ps = Inr table \<and>
      bytes_at y 512 92 = gpt_header_bytes (seal (fill_gpt_header h ?sz ?ps uuid table)) \<and>
      bytes_at y (unat (hd_gpt_location h)) (128 * 128) = table \<and>
      (\<not> hd_gpt_no_backup h \<longrightarrow> bytes_at y (unat ?sz - 33 * 512) (128 * 128) = table \<and>
        bytes_at y (unat ?sz - 512) 92 =
          gpt_header_bytes (seal (gpt_backup_header ?sz (fill_gpt_header h ?sz ?ps uuid table))))"
    if g: "has_gpt (hd_table_type h)"
  proof -
    obtain uuid table where ut: "uuid_parse (hd_disk_uuid h) = Inr uuid" "gpt_table ?ps = Inr table"
      by (rule generate_gpt_tables [OF gen g])
    have ty: "hd_table_type h \<noteq> TYPE_NONE" using g by auto
    let ?g = "fill_gpt_header h ?sz ?ps uuid table"
    let ?h1 = "gpt_header_bytes (seal ?g)" and ?h2 = "gpt_header_bytes (seal (gpt_backup_header ?sz ?g))"
    let ?m = "mbr_tail_bytes h (mbr_entries h ?mp)" and ?loc = "unat (hd_gpt_location h)" and ?e = "unat ?sz"
    have l: "length ?h1 = 92" "length ?h2 = 92" "length table = 16384" "length ?m = 72"
      using uuid_parse_length [OF ut(1)] gpt_table_length [OF ut(2)] length_mbr_tail_bytes [OF n4 [OF ty]]
      by (simp_all add: length_gpt_header_bytes seal_def gpt_backup_header_def fill_gpt_header_def)
    have e: "33 * 512 \<le> ?e" using t(4) [OF g] by blast
    note ra = reserved_apart [OF _ _ _ _ _ lay]
    have ap: "512 + 512 \<le> ?loc \<or> ?loc + 16384 \<le> 512" "512 + 512 \<le> ?e - 33 * 512 \<or> ?e \<le> 512"
      "?loc + 16384 \<le> ?e - 33 * 512 \<or> ?e \<le> ?loc" "440 + 72 \<le> ?loc \<or> ?loc + 16384 \<le> 440"
      "440 + 72 \<le> ?e - 33 * 512 \<or> ?e \<le> 440"
      using ra [OF t(2) [OF g] t(3) [OF g]] ra [OF t(2) [OF g] conjunct2 [OF t(4) [OF g]]]
        ra [OF t(3) [OF g] conjunct2 [OF t(4) [OF g]]] ra [OF t(1) [OF ty] t(3) [OF g]]
        ra [OF t(1) [OF ty] conjunct2 [OF t(4) [OF g]]] e by simp_all
    let ?b = "if hd_gpt_no_backup h then [] else [(?e - 33 * 512, table), (?e - 512, ?h2)]"
    have ws: "hd_writes w images h ?sz ?ps = ?pw @ (512, ?h1) # (?loc, table) # ?b @ [(440, ?m)]"
      using g ty ut by (auto simp: hd_writes_def table_writes_def gpt_writes_def mbr_writes_def)
    have "bytes_at y 512 92 = ?h1"
      by (rule apply_writes_back [OF _ l(1) y(2) [unfolded ws]])
        (use ap l e in \<open>auto simp: misses_def\<close>)
    moreover have "bytes_at y ?loc (128 * 128) = table"
    proof -
      have "hd_writes w images h ?sz ?ps = (?pw @ [(512, ?h1)]) @ (?loc, table) # ?b @ [(440, ?m)]" by (simp add: ws)
      note y1 = y(2) [unfolded this]
      show ?thesis by (rule apply_writes_back [OF _ _ y1]) (use ap l e in \<open>auto simp: misses_def\<close>)
    qed
    moreover have "bytes_at y (?e - 33 * 512) (128 * 128) = table \<and> bytes_at y (?e - 512) 92 = ?h2"
      if nb: "\<not> hd_gpt_no_backup h"
    proof
      have "hd_writes w images h ?sz ?ps = (?pw @ [(512, ?h1), (?loc, table)]) @ (?e - 33 * 512, table) # [(?e - 512, ?h2), (440, ?m)]"
        by (simp add: ws nb)
      note y1 = y(2) [unfolded this]
      show "bytes_at y (?e - 33 * 512) (128 * 128) = table"
        by (rule apply_writes_back [OF _ _ y1]) (use ap l e in \<open>auto simp: misses_def\<close>)
      have "hd_writes w images h ?sz ?ps = (?pw @ [(512, ?h1), (?loc, table), (?e - 33 * 512, table)]) @ (?e - 512, ?h2) # [(440, ?m)]"
        by (simp add: ws nb)
      note y2 = y(2) [unfolded this]
      show "bytes_at y (?e - 512) 92 = ?h2"
        by (rule apply_writes_back [OF _ l(2) y2]) (use ap l e in \<open>auto simp: misses_def\<close>)
    qed
    ultimately show ?thesis using ut by blast
  qed
  show ?thesis using mbr gpt unfolding fy Let_def by blast
qed

section \<open>A concrete disk image\<close>

definition whole_fiemap :: fiemap where
  "whole_fiemap x = [(0, word_of_nat (fsize x))]"

lemma whole_fiemap_ok: "fiemap_ok whole_fiemap"
  by (auto simp: fiemap_ok_def covers_def whole_fiemap_def to_extents_def wf_inode_def off_max_def unat_of_nat64 not_le)

definition demo_disk :: image where
  "demo_disk = (demo_image ''disk'' 0)\<lparr>im_partitions := [demo_part 1, demo_part 2]\<rparr>"

definition demo_children :: "image list" where
  "demo_children = [demo_image ''a'' 3]"

lemma demo_setup: "\<exists>h g' w1. hdimage_setup demo_children [] (demo_cfg ''mbr'') demo_disk demo_rng (demo_world ''a'') =
    (Inr (h, demo_disk\<lparr>im_size := 1536, im_partitions :=
       [(demo_part 1)\<lparr>p_offset := 512, p_size := 512, p_align := 512\<rparr>,
       (demo_part 2)\<lparr>p_offset := 1024, p_size := 512, p_align := 512\<rparr>, fake_partition 3 ''[MBR]'' 440 72]\<rparr>, g'), w1)
   \<and> hd_align h = 512 \<and> hd_table_type h = TYPE_MBR \<and> hd_extended_partition h = None \<and> hd_file_size h = 1027 \<and>
   hd_fill h = False \<and> hd_disksig h = 0"
  by (simp add: hdimage_setup_def eval_setup demo_disk_def demo_children_def cfg_getint_suffix_def lift_io_def
     is_block_device_def demo_world_def eval_io)


lemma demo_tail: "length es \<le> 4 \<Longrightarrow> mbr_tail_bytes h es \<noteq> [] \<and> take 4096 (mbr_tail_bytes h es) = mbr_tail_bytes h es \<and>
   drop 4096 (mbr_tail_bytes h es) = [] \<and> take 72 (mbr_tail_bytes h es) = mbr_tail_bytes h es \<and> drop 72 (mbr_tail_bytes h es) = []"
  using length_mbr_tail_bytes [of es h] by auto

lemma demo_generate:
  assumes "hd_align h = 512 \<and> hd_table_type h = TYPE_MBR \<and> hd_extended_partition h = None \<and> hd_file_size h = 1027 \<and>
   hd_fill h = False \<and> hd_disksig h = 0"
  shows "fst (hdimage_generate whole_fiemap demo_children h (demo_disk\<lparr>im_size := 1536, im_partitions :=
       [(demo_part 1)\<lparr>p_offset := 512, p_size := 512, p_align := 512\<rparr>,
       (demo_part 2)\<lparr>p_offset := 1024, p_size := 512, p_align := 512\<rparr>, fake_partition 3 ''[MBR]'' 440 72]\<rparr>) (demo_world ''a'')) = Inr ()"
proof -
  have l: "length (mbr_entries h [(demo_part 1)\<lparr>p_offset := 512, p_size := 512, p_align := 512\<rparr>,
       (demo_part 2)\<lparr>p_offset := 1024, p_size := 512, p_align := 512\<rparr>, fake_partition 3 ''[MBR]'' 440 72]) \<le> 4"
    using assms by (simp add: mbr_entries_def in_mbr_def demo_part_def zero_partition_def fake_partition_def)
  show ?thesis
  using assms demo_tail [OF l] length_mbr_tail_bytes [OF l] l
  by (simp add: hdimage_generate_def prepare_image_def generate_part_def insert_child_def insert_tables_def
    check_file_size_def reload_partitions_def hdimage_insert_mbr_def insert_image_def insert_data_def insert_data_loop.simps
    open_file_def is_block_device_def map_file_extents_def demo_world_def eval_io demo_src_def clip_last_def to_extents_def
    copy_step_def write_bytes_def write_bytes_st_def copy_extent.simps write_loop.simps min_ull_def whole_fiemap_def
    demo_disk_def demo_children_def demo_image_def demo_part_def zero_partition_def fake_partition_def resize_def write_at_def)
qed


definition demo_laid_out :: image where
  "demo_laid_out = demo_disk\<lparr>im_size := 1536, im_partitions :=
     [(demo_part 1)\<lparr>p_offset := 512, p_size := 512, p_align := 512\<rparr>,
      (demo_part 2)\<lparr>p_offset := 1024, p_size := 512, p_align := 512\<rparr>, fake_partition 3 ''[MBR]'' 440 72]\<rparr>"

lemma demo_hd_run: "\<exists>h g' w1 w2.
    hdimage_setup demo_children [] (demo_cfg ''mbr'') demo_disk demo_rng (demo_world ''a'') = (Inr (h, demo_laid_out, g'), w1) \<and>
    hdimage_generate whole_fiemap demo_children h demo_laid_out (demo_world ''a'') = (Inr (), w2) \<and>
    hd_table_type h = TYPE_MBR \<and> hd_extended_partition h = None \<and> hd_file_size h = 1027 \<and>
    small_layout h (im_size demo_laid_out) (im_partitions demo_laid_out) \<and>
    in_range h (im_size demo_laid_out) (im_partitions demo_laid_out)"
proof -
  obtain h g' w1 where s: "hdimage_setup demo_children [] (demo_cfg ''mbr'') demo_disk demo_rng (demo_world ''a'') =
      (Inr (h, demo_laid_out, g'), w1)"
    and h: "hd_align h = 512 \<and> hd_table_type h = TYPE_MBR \<and> hd_extended_partition h = None \<and> hd_file_size h = 1027 \<and>
      hd_fill h = False \<and> hd_disksig h = 0" using demo_setup unfolding demo_laid_out_def by blast
  note g = demo_generate [OF h, folded demo_laid_out_def]
  have r: "small_layout h (im_size demo_laid_out) (im_partitions demo_laid_out) \<and>
      in_range h (im_size demo_laid_out) (im_partitions demo_laid_out)"
    using h by (simp add: demo_laid_out_def small_layout_def small_def in_range_def demo_part_def zero_partition_def
      fake_partition_def)
  obtain w2 where "hdimage_generate whole_fiemap demo_children h demo_laid_out (demo_world ''a'') = (Inr (), w2)"
    using g by (metis prod.collapse)
  then show ?thesis using s h r by blast
qed

lemma demo_clean: "clean_run whole_fiemap demo_children (im_outfile demo_laid_out) (im_partitions demo_laid_out) (demo_world ''a'')"
  unfolding clean_run_def
  by (intro conjI whole_fiemap_ok wf_demo_world)
    (simp_all add: no_short_def demo_world_def file_at_def empty_file_def other_files_def demo_laid_out_def demo_disk_def
      demo_children_def demo_image_def demo_part_def zero_partition_def fake_partition_def)

lemma demo_addr: "distinct (map p_addr (im_partitions demo_disk))"
  by (simp add: demo_disk_def demo_part_def zero_partition_def)

section \<open>The properties\<close>

text \<open>
  C3: the generation of a disk image in a regular file does what the abstract specification \<open>hd_writes\<close>
  says and nothing else: when it succeeds, only the output has changed, its bytes are those of an empty file
  after the listed writes (the boot record and the image of every partition in order, then the tables),
  and its size is the one that the setup computed.
\<close>

theorem hdimage_generate_refines:
  assumes "hdimage_generate fm images h im w = (Inr u, w')"
    and "clean_run fm images (im_outfile im) (im_partitions im) w"
    and "hd_file_size h \<noteq> 0" and "in_range h (im_size im) (im_partitions im)"
  shows "\<exists>y. fs w' = (fs w)(im_outfile im \<mapsto> y) \<and> fkind y = Regular \<and> fsize y = unat (hd_file_size h) \<and>
    fdata y = fdata (apply_writes (hd_writes w images h (im_size im) (im_partitions im)) empty_file)"
  using assms unfolding clean_run_def by (elim conjE) (rule hdimage_generate_ok)

lemma hdimage_generate_refines_witness:
  "\<exists>h w'. hdimage_generate whole_fiemap demo_children h demo_laid_out (demo_world ''a'') = (Inr (), w') \<and>
    fsize (file_at w' ''disk'') = 1027"
proof -
  obtain h g' w1 w2 where
    "hdimage_setup demo_children [] (demo_cfg ''mbr'') demo_disk demo_rng (demo_world ''a'') = (Inr (h, demo_laid_out, g'), w1)"
    and g: "hdimage_generate whole_fiemap demo_children h demo_laid_out (demo_world ''a'') = (Inr (), w2)"
    and h: "hd_file_size h = 1027" "in_range h (im_size demo_laid_out) (im_partitions demo_laid_out)"
    using demo_hd_run by blast
  have "im_outfile demo_laid_out = ''disk''" by (simp add: demo_laid_out_def demo_disk_def demo_image_def)
  then obtain y where "fs w2 = (fs (demo_world ''a''))(''disk'' \<mapsto> y)" "fsize y = unat (hd_file_size h)"
    using hdimage_generate_refines [OF g demo_clean _ h(2)] h(1) by auto
  then have "fsize (file_at w2 ''disk'') = 1027" using h(1) by (simp add: file_at_upd)
  then show ?thesis using g by blast
qed

text \<open>
  C1: a disk image that was set up and generated with success holds its images: every byte of the image of a
  partition, from the image offset on, is found in the output file at its place in the partition, whatever
  else was written, tables and boot records included. Only bytes in a hole that the image itself declares
  are excepted. The images may have changed between the setup and the generation. The sizes are at most
  2^62, system calls may fail but transfer what they can, and the kernel's extent map covers the data.
\<close>

theorem hdimage_holds_images:
  assumes "hdimage_setup images0 shortcuts cfg im g w0 = (Inr (h, im', g'), w0')"
    and "hdimage_generate fm images h im' w = (Inr u, w')"
    and "distinct (map p_addr (im_partitions im))" and "small_layout h (im_size im') (im_partitions im')"
    and "clean_run fm images (im_outfile im') (im_partitions im') w"
    and "p \<in> set (im_partitions im')" and "p_image p = Some f" "image_get images f = Some child" "im_size child \<noteq> 0"
    and "n < unat (im_size child - p_imageoffset p)"
    and "\<And>c x. image_get images0 f = Some c \<Longrightarrow> x \<in> set (im_holes c) \<Longrightarrow>
      \<not> (unat (ext_start x) \<le> n \<and> n < unat (ext_end x))"
  shows "fdata (file_at w' (im_outfile im')) (unat (p_offset p) + n) =
    fdata (file_at w (im_outfile child)) (unat (p_imageoffset p) + n)"
  by (rule hdimage_image_bytes [OF assms])

lemma hdimage_holds_images_witness:
  "\<exists>h g' w1 w2.
    hdimage_setup demo_children [] (demo_cfg ''mbr'') demo_disk demo_rng (demo_world ''a'') = (Inr (h, demo_laid_out, g'), w1) \<and>
    hdimage_generate whole_fiemap demo_children h demo_laid_out (demo_world ''a'') = (Inr (), w2) \<and>
    fdata (file_at w2 ''disk'') 1025 = 34"
proof -
  let ?p = "(demo_part 2)\<lparr>p_offset := 1024, p_size := 512, p_align := 512\<rparr>"
  obtain h g' w1 w2 where
    s: "hdimage_setup demo_children [] (demo_cfg ''mbr'') demo_disk demo_rng (demo_world ''a'') = (Inr (h, demo_laid_out, g'), w1)"
    and g: "hdimage_generate whole_fiemap demo_children h demo_laid_out (demo_world ''a'') = (Inr (), w2)"
    and sm: "small_layout h (im_size demo_laid_out) (im_partitions demo_laid_out)"
    using demo_hd_run by blast
  have "fdata (file_at w2 (im_outfile demo_laid_out)) (unat (p_offset ?p) + 1) =
    fdata (file_at (demo_world ''a'') (im_outfile (demo_image ''a'' 3))) (unat (p_imageoffset ?p) + 1)"
    by (rule hdimage_holds_images [OF s g demo_addr sm demo_clean])
      (auto simp: demo_laid_out_def demo_part_def zero_partition_def demo_children_def demo_image_def)
  then have "fdata (file_at w2 ''disk'') 1025 = 34"
    by (simp add: demo_laid_out_def demo_disk_def demo_image_def demo_part_def zero_partition_def demo_world_def
      demo_src_def file_at_def)
  then show ?thesis using s g by blast
qed

text \<open>
  C2: a disk image that was set up and generated with success holds its tables, undestroyed: the 72 bytes of
  the MBR (protective with a pure GPT) are at 440, the header of the GPT is at 512, its array at the GPT
  location, and the backup of both in the last 33 sectors, unless it is switched off. With the round trips
  of the MBR entries and the GPT header this says what a reader of the disk finds.
\<close>

theorem hdimage_holds_tables:
  assumes "hdimage_setup images0 shortcuts cfg im g w0 = (Inr (h, im', g'), w0')"
    and "hdimage_generate fm images h im' w = (Inr u, w')"
    and "distinct (map p_addr (im_partitions im))" and "small_layout h (im_size im') (im_partitions im')"
    and "clean_run fm images (im_outfile im') (im_partitions im') w"
  shows "(hd_table_type h \<noteq> TYPE_NONE \<longrightarrow> bytes_at (file_at w' (im_outfile im')) 440 72 =
      mbr_tail_bytes h (mbr_entries h (if hd_table_type h = TYPE_GPT then [protective_partition (im_size im')] else im_partitions im'))) \<and>
    (has_gpt (hd_table_type h) \<longrightarrow> (\<exists>uuid table. uuid_parse (hd_disk_uuid h) = Inr uuid \<and>
      gpt_table (im_partitions im') = Inr table \<and>
      (let g = fill_gpt_header h (im_size im') (im_partitions im') uuid table; end = unat (im_size im');
           x = file_at w' (im_outfile im') in
        bytes_at x 512 92 = gpt_header_bytes (seal g) \<and> bytes_at x (unat (hd_gpt_location h)) (128 * 128) = table \<and>
        (\<not> hd_gpt_no_backup h \<longrightarrow> bytes_at x (end - 33 * 512) (128 * 128) = table \<and>
          bytes_at x (end - 512) 92 = gpt_header_bytes (seal (gpt_backup_header (im_size im') g))))))"
  by (rule hdimage_table_bytes [OF assms])

lemma hdimage_holds_tables_witness:
  "\<exists>h g' w1 w2.
    hdimage_setup demo_children [] (demo_cfg ''mbr'') demo_disk demo_rng (demo_world ''a'') = (Inr (h, demo_laid_out, g'), w1) \<and>
    hdimage_generate whole_fiemap demo_children h demo_laid_out (demo_world ''a'') = (Inr (), w2) \<and>
    bytes_at (file_at w2 ''disk'') 440 72 = mbr_tail_bytes h (mbr_entries h (im_partitions demo_laid_out))"
proof -
  obtain h g' w1 w2 where
    s: "hdimage_setup demo_children [] (demo_cfg ''mbr'') demo_disk demo_rng (demo_world ''a'') = (Inr (h, demo_laid_out, g'), w1)"
    and g: "hdimage_generate whole_fiemap demo_children h demo_laid_out (demo_world ''a'') = (Inr (), w2)"
    and t: "hd_table_type h = TYPE_MBR" and sm: "small_layout h (im_size demo_laid_out) (im_partitions demo_laid_out)"
    using demo_hd_run by blast
  have "im_outfile demo_laid_out = ''disk''" by (simp add: demo_laid_out_def demo_disk_def demo_image_def)
  then show ?thesis using hdimage_holds_tables [OF s g demo_addr sm demo_clean] s g t by auto
qed


end
