(* ===== verification/MdraidProps.thy ===== *)
theory MdraidProps
  imports Mdraid HdImages
begin

text \<open>
  A generated RAID member holds its superblock, the superblock of its bitmap and its data, each at its place and
  undestroyed by the others.
\<close>

section \<open>The superblock\<close>

text \<open>What holds of the superblock of an array: the lengths of its arrays, the bitmap, and a 16-bit number of devices.\<close>

definition sb_ok :: "mdp_sb \<Rightarrow> bool" where
  "sb_ok s \<longleftrightarrow> length (sb_set_uuid s) = 16 \<and> length (sb_set_name s) = 32 \<and>
     sb_feature_map s = MD_FEATURE_BITMAP_OFFSET \<and> unat (sb_raid_disks s) < 2 ^ 16"

lemma length_label_bytes: "length (label_bytes s) = 32"
  by (simp add: label_bytes_def zeros_def str_bytes_def)

lemma array_sb_ok: "length uuid = 16 \<Longrightarrow> sb_ok (array_sb t c uuid isize n)"
  using unsigned_less [where ?'a = nat, of n]
  by (simp add: sb_ok_def array_sb_def length_label_bytes Let_def unsigned_ucast_eq take_bit_eq_mod)

text \<open>\<open>calc_sb_1_csum\<close> leaves the field out that it is for.\<close>

lemma csum_idem: "calc_sb_1_csum (s\<lparr>sb_csum := x\<rparr>) = calc_sb_1_csum s"
  by (simp add: calc_sb_1_csum_def)

lemma member_sb_facts:
  assumes "sb_ok s" and "length uuid = 16"
  shows "sb_ok (member_sb s uuid role n)" "sb_csum (member_sb s uuid role n) = calc_sb_1_csum (member_sb s uuid role n)"
    "sb_super_offset (member_sb s uuid role n) = 8" "sb_bitmap_offset (member_sb s uuid role n) = 8"
    "length (mdp_sb_bytes (member_sb s uuid role n)) = 256 + 2 * unat n"
    "length (sb_set_uuid (member_sb s uuid role n)) = 16"
  using assms by (simp_all add: sb_ok_def member_sb_def Let_def csum_idem mdp_sb_bytes_def zeros_def comp_def
    sum_list_triv length_concat)

lemma length_bitmap_super_bytes: "length (bsb_uuid b) = 16 \<Longrightarrow> length (bitmap_super_bytes b) = 256"
  by (simp add: bitmap_super_bytes_def zeros_def)

lemma make_bitmap_uuid: "make_bitmap s = Inr b \<Longrightarrow> bsb_uuid b = sb_set_uuid s"
  by (auto simp: make_bitmap_def io_ok)

section \<open>The writes\<close>

definition md_writes :: "world \<Rightarrow> image option \<Rightarrow> mdp_sb \<Rightarrow> bitmap_super \<Rightarrow> (nat \<times> bytes) list" where
  "md_writes w data s b = [(4096, mdp_sb_bytes s), (8192, bitmap_super_bytes b)] @
     (case data of None \<Rightarrow> []
      | Some d \<Rightarrow> [(2 ^ 20, map (fdata (file_at w (im_outfile d))) [0..<unat (im_size d)])])"

lemma mdraid_write_does:
  assumes ok: "mdraid_write fm im data s b w = (Inr u, w')" and w: "wf_fs w" "no_short w"
    and reg: "fkind (file_at w (im_outfile im)) = Regular" and sz: "im_size im \<noteq> 0" and fm: "fiemap_ok fm"
    and d: "\<And>d. data = Some d \<Longrightarrow> im_outfile d \<noteq> im_outfile im \<and> unat (im_size d) \<le> 2 ^ 62"
    and s: "sb_ok s" "sb_super_offset s = 8" "sb_bitmap_offset s = 8" "length (mdp_sb_bytes s) \<le> 4096"
    and b: "length (bitmap_super_bytes b) = 256"
  shows "between (im_outfile im) w w' \<and>
    fdata (file_at w' (im_outfile im)) = fdata (apply_writes (md_writes w data s b) empty_file)"
proof -
  let ?out = "im_outfile im"
  have o: "sb_super_offset s * 512 = 4096" "(sb_super_offset s + ucast (sb_bitmap_offset s)) * 512 = 8192"
    using s(2,3) by simp_all
  have f: "sb_feature_map s AND MD_FEATURE_BITMAP_OFFSET \<noteq> 0" using s(1) by (simp add: sb_ok_def MD_FEATURE_BITMAP_OFFSET_def)
  obtain w1 where p: "prepare_image fm ?out (im_size im) w = (Inr (), w1)"
    and r: "bind_io (insert_data ?out (mdp_sb_bytes s) 4096) (\<lambda>_. bind_io (insert_data ?out (bitmap_super_bytes b) 8192) (\<lambda>_.
      case data of None \<Rightarrow> ret ()
      | Some d \<Rightarrow> insert_image fm ?out (Some (im_outfile d)) (im_size d) DATA_OFFSET_BYTES 0 0 True)) w1 = (Inr u, w')"
    using ok f unfolding mdraid_write_def Let_def bind_io_ok o by auto
  note b1 = between_prepared [OF w reg p sz]
  have off: "unat DATA_OFFSET_BYTES = 2 ^ 20" by (simp add: DATA_OFFSET_BYTES_def DATA_OFFSET_SECTORS_def)
  have i: "does ?out w (case data of None \<Rightarrow> []
      | Some d \<Rightarrow> [(2 ^ 20, map (fdata (file_at w (im_outfile d))) [0..<unat (im_size d)])])
    (case data of None \<Rightarrow> ret ()
      | Some d \<Rightarrow> insert_image fm ?out (Some (im_outfile d)) (im_size d) DATA_OFFSET_BYTES 0 0 True)"
  proof (cases data)
    case (Some x)
    have "unat (im_size x) \<le> 2 ^ 62" "im_outfile x \<noteq> ?out" using d Some by blast+
    then show ?thesis using does_insert_image [OF fm, of "im_outfile x" ?out DATA_OFFSET_BYTES "im_size x" 0 w True] Some off by simp
  qed (simp add: does_ret)
  have dd: "does ?out w [(unat (4096 :: u64), mdp_sb_bytes s)] (insert_data ?out (mdp_sb_bytes s) 4096)"
    "does ?out w [(unat (8192 :: u64), bitmap_super_bytes b)] (insert_data ?out (bitmap_super_bytes b) 8192)"
    by (rule does_insert_data; use s(4) b in \<open>simp add: off_max_def\<close>)+
  have "patched ?out (md_writes w data s b) w1 w' \<and> between ?out w w'"
    using does_bind [OF dd(1) does_bind [OF dd(2) i]] b1(1) r unfolding does_def md_writes_def by fastforce
  then show ?thesis
    using fdata_apply_writes_cong [of "file_at w1 ?out" empty_file "md_writes w data s b"] b1(2)
    by (auto simp: patched_def empty_file_def)
qed

lemma world_uuid_fs:
  "world_uuid g w = (Inr u, w') \<Longrightarrow> fs w' = fs w \<and> script w' = script w"
  by (auto simp: world_uuid_def split: option.splits prod.splits)

text \<open>The parts of a generation that succeeds.\<close>

lemma mdraid_generate_parts:
  assumes "mdraid_generate fm t ims im c md mdp w = (Inr (md', mdp'), w')"
  obtains n role last s0 uuid s b w1 where "n = mdraid_devices c (Option.bind mdp md_sb)"
    "mdraid_role c (map_option md_last_role mdp) = (role, last)" "check_role role n = Inr ()"
    "(case Option.bind mdp md_sb of Some sp \<Rightarrow> s0 = sp
       | None \<Rightarrow> \<exists>u au. uuid_parse u = Inr au \<and> s0 = array_sb t c au (im_size im) n)"
    "length uuid = 16" "s = member_sb s0 uuid role n" "make_bitmap s = Inr b"
    "mdraid_write fm im (Option.bind (md_data md) (image_get ims)) s b w1 = (Inr (), w')"
    "fs w1 = fs w" "script w1 = script w" "md_sb md' = Some s"
proof -
  let ?n = "mdraid_devices c (Option.bind mdp md_sb)"
  obtain role l where r: "mdraid_role c (map_option md_last_role mdp) = (role, l)" by fastforce
  obtain s0 w1 u2 w2 uuid b where k: "check_role role ?n = Inr ()"
    and a: "(case Option.bind mdp md_sb of Some s \<Rightarrow> ret s
          | None \<Rightarrow> bind_io (world_uuid (cfg_getstr c ''raid-uuid'')) (\<lambda>u.
              bind_io (lift_io (uuid_parse u)) (\<lambda>uuid. ret (array_sb t c uuid (im_size im) ?n)))) w = (Inr s0, w1)"
    and d: "world_uuid (cfg_getstr c ''disk-uuid'') w1 = (Inr u2, w2)" and p: "uuid_parse u2 = Inr uuid"
    and b: "make_bitmap (member_sb s0 uuid role ?n) = Inr b"
    and wr: "mdraid_write fm im (Option.bind (md_data md) (image_get ims)) (member_sb s0 uuid role ?n) b w2 = (Inr (), w')"
    and m: "md' = md\<lparr>md_sb := Some (member_sb s0 uuid role ?n)\<rparr>"
    using assms r by (auto simp: mdraid_generate_def Let_def bind_io_ok lift_io_ok ret_ok throw_ok split: if_splits)
  have a': "(case Option.bind mdp md_sb of Some sp \<Rightarrow> s0 = sp
       | None \<Rightarrow> \<exists>u au. uuid_parse u = Inr au \<and> s0 = array_sb t c au (im_size im) ?n) \<and> fs w1 = fs w \<and> script w1 = script w"
    using a world_uuid_fs by (auto simp: io_ok split: option.splits)
  show thesis
    by (rule that [OF refl r k conjunct1 [OF a'] uuid_parse_length [OF p] refl b wr]; simp add: a' world_uuid_fs [OF d] m)
qed

lemma member_sb_fields:
  "sb_set_uuid (member_sb s u r n) = sb_set_uuid s" "sb_raid_disks (member_sb s u r n) = sb_raid_disks s"
  "sb_dev_number (member_sb s u r n) = ucast r" "sb_data_offset (member_sb s u r n) = 2048"
  "sb_size (member_sb s u r n) = sb_size s"
  by (simp_all add: member_sb_def Let_def DATA_OFFSET_SECTORS_def)

lemma check_role_less: "check_role r n = Inr () \<Longrightarrow> unat r < unat n"
  by (auto simp: check_role_def word_le_nat_alt split: if_splits)


section \<open>A concrete member\<close>

definition demo_member :: image where
  "demo_member = demo_image ''out'' 1052672"

definition demo_member_cfg :: cfg where
  "demo_member_cfg = Cfg [] [''raid-uuid'' \<mapsto> ''12345678-1234-1234-1234-123456789abc'',
     ''disk-uuid'' \<mapsto> ''87654321-1234-1234-1234-cba987654321''] (\<lambda>k. if k = ''devices'' then 2 else 0)
     (\<lambda>_. False) (\<lambda>_. False) (\<lambda>_. []) (\<lambda>_. [])"

definition demo_md :: mdraid_img where
  "demo_md = \<lparr>md_data = Some ''in'', md_parent = None, md_sb = None, md_last_role = 0\<rparr>"

lemma demo_md_write:
  assumes "length (mdp_sb_bytes s) = 260" "length (bitmap_super_bytes b) = 256" "sb_feature_map s = 1"
    "sb_super_offset s = 8" "sb_bitmap_offset s = 8"
  shows "fst (mdraid_write whole_fiemap demo_member (Some (demo_image ''in'' 3)) s b (demo_world ''in'')) = Inr ()"
proof -
  have ne: "mdp_sb_bytes s \<noteq> []" "bitmap_super_bytes b \<noteq> []" using assms(1,2) by auto
  show ?thesis
    using assms ne
    by (simp add: mdraid_write_def prepare_image_def insert_data_def insert_data_loop.simps insert_image_def
      open_file_def is_block_device_def map_file_extents_def demo_world_def eval_io demo_src_def clip_last_def to_extents_def
      copy_step_def write_bytes_def write_bytes_st_def copy_extent.simps write_loop.simps min_ull_def whole_fiemap_def
      demo_member_def demo_image_def resize_def write_at_def MD_FEATURE_BITMAP_OFFSET_def DATA_OFFSET_BYTES_def
      DATA_OFFSET_SECTORS_def)
qed

lemma demo_uuid_parse: "\<exists>x. uuid_parse ''12345678-1234-1234-1234-123456789abc'' = Inr x"
  "\<exists>x. uuid_parse ''87654321-1234-1234-1234-cba987654321'' = Inr x"
  by (simp_all add: uuid_parse_def)

lemma demo_member_run:
  "\<exists>md' w'. mdraid_generate whole_fiemap 0 [demo_image ''in'' 3] demo_member demo_member_cfg demo_md None (demo_world ''in'') =
     (Inr (md', None), w')"
proof -
  obtain au du where u: "uuid_parse ''12345678-1234-1234-1234-123456789abc'' = Inr au"
    "uuid_parse ''87654321-1234-1234-1234-cba987654321'' = Inr du" using demo_uuid_parse by blast
  let ?arr = "array_sb 0 demo_member_cfg au 1052672 2"
  let ?s = "member_sb ?arr du 0 2"
  have ok: "sb_ok ?arr" by (rule array_sb_ok [OF uuid_parse_length [OF u(1)]])
  note m = member_sb_facts [OF ok uuid_parse_length [OF u(2)], of 0 2]
  have "sb_data_size ?s = 8" by (simp add: member_sb_def array_sb_def Let_def DATA_OFFSET_BYTES_def DATA_OFFSET_SECTORS_def)
  moreover have "bitmap_chunk 8 (64 * 1024 * 1024) = Inr (64 * 1024 * 1024, bitmap_sectors 8 (64 * 1024 * 1024))"
  proof -
    have "bitmap_sectors 8 (64 * 1024 * 1024) = 0" by (simp add: bitmap_sectors_def roundup_def)
    then show ?thesis by (simp add: bitmap_chunk.simps)
  qed
  ultimately obtain b where b: "make_bitmap ?s = Inr b" by (auto simp: make_bitmap_def)
  have bl: "length (bitmap_super_bytes b) = 256" using make_bitmap_uuid [OF b] m(6) by (intro length_bitmap_super_bytes) simp
  have "fst (mdraid_write whole_fiemap demo_member (Some (demo_image ''in'' 3)) ?s b (demo_world ''in'')) = Inr ()"
    by (rule demo_md_write) (use m bl in \<open>simp_all add: sb_ok_def MD_FEATURE_BITMAP_OFFSET_def\<close>)
  then obtain w' where w': "mdraid_write whole_fiemap demo_member (Some (demo_image ''in'' 3)) ?s b (demo_world ''in'') = (Inr (), w')"
    by (metis prod.collapse)
  have "check_role 0 2 = Inr ()" by (simp add: check_role_def MD_DISK_ROLE_MAX_def)
  then have "mdraid_generate whole_fiemap 0 [demo_image ''in'' 3] demo_member demo_member_cfg demo_md None (demo_world ''in'') =
      (Inr (demo_md\<lparr>md_sb := Some ?s\<rparr>, None), w')"
    using u b w'
    by (simp add: mdraid_generate_def mdraid_devices_def mdraid_role_def demo_member_cfg_def world_uuid_def bind_io_def
      lift_io_def ret_def demo_md_def demo_image_def demo_member_def Let_def [of "member_sb s u r n" for s u r n])
  then show ?thesis by blast
qed


end
