(* ===== verification/SparseFormat.thy ===== *)
theory SparseFormat
  imports AndroidSparse FileRuns
begin

text \<open>
  The format of Android sparse images, as a reader of them that the program does not have: \<open>unsparse\<close> gives the
  data of an image, and refuses one whose header or chunks are not consistent. Then the chunks as data, with the
  lemma that what they are written as is read back, and what \<open>align_extents\<close> of \<^verbatim>\<open>image-android-sparse.c\<close>
  makes of the extents of a file.
\<close>

section \<open>A reader of sparse images\<close>

text \<open>
  The chunk at the front of \<open>xs\<close>, for the block size \<open>bs\<close> and the data \<open>out\<close> so far: the data with that of
  the chunk, and what follows the chunk. A hole is read as zeros; a checksum has to be that of the data.
\<close>

definition unchunk :: "nat \<Rightarrow> bytes \<Rightarrow> bytes \<Rightarrow> (bytes \<times> bytes) option" where
  "unchunk bs out xs =
     (let ty = unle (field 0 2 xs); n = unle (field 4 4 xs); sz = unle (field 8 4 xs);
          body = take (sz - 12) (drop 12 xs); rest = drop sz xs in
      if sz < 12 \<or> length xs < sz then None
      else if ty = 0xCAC1 \<and> length body = n * bs then Some (out @ body, rest)
      else if ty = 0xCAC2 \<and> length body = 4 then Some (out @ concat (replicate (n * (bs div 4)) body), rest)
      else if ty = 0xCAC3 \<and> body = [] then Some (out @ zeros (n * bs), rest)
      else if ty = 0xCAC4 \<and> body = le32 (crc32 out) then Some (out, rest)
      else None)"

primrec unchunks :: "nat \<Rightarrow> nat \<Rightarrow> bytes \<Rightarrow> bytes \<Rightarrow> bytes option" where
  "unchunks bs 0 out xs = (if xs = [] then Some out else None)"
| "unchunks bs (Suc k) out xs =
     (case unchunk bs out xs of None \<Rightarrow> None | Some (out', rest) \<Rightarrow> unchunks bs k out' rest)"

definition unsparse :: "bytes \<Rightarrow> bytes option" where
  "unsparse xs =
     (let bs = unle (field 12 4 xs); total = unle (field 16 4 xs); n = unle (field 20 4 xs) in
      if length xs < 28 \<or> unle (field 0 4 xs) \<noteq> 0xed26ff3a \<or> unle (field 4 2 xs) \<noteq> 1 \<or>
         unle (field 8 2 xs) \<noteq> 28 \<or> unle (field 10 2 xs) \<noteq> 12 then None
      else case unchunks bs n [] (drop 28 xs) of None \<Rightarrow> None
        | Some out \<Rightarrow> if length out = total * bs then Some out else None)"

section \<open>Chunks\<close>

datatype chunk = Raw bytes | Fill nat bytes | Skip nat | Crc u32

fun chunk_head :: "nat \<Rightarrow> chunk \<Rightarrow> sparse_chunk_header" where
  "chunk_head bs (Raw d) = \<lparr>ck_type = SPARSE_RAW, ck_blocks = word_of_nat (length d div bs), ck_size = word_of_nat (12 + length d)\<rparr>"
| "chunk_head bs (Fill n v) = \<lparr>ck_type = SPARSE_FILL, ck_blocks = word_of_nat n, ck_size = 16\<rparr>"
| "chunk_head bs (Skip n) = \<lparr>ck_type = SPARSE_DONT_CARE, ck_blocks = word_of_nat n, ck_size = 12\<rparr>"
| "chunk_head bs (Crc c) = \<lparr>ck_type = SPARSE_CRC32, ck_blocks = 0, ck_size = 16\<rparr>"

fun chunk_body :: "chunk \<Rightarrow> bytes" where
  "chunk_body (Raw d) = d"
| "chunk_body (Fill n v) = v"
| "chunk_body (Skip n) = []"
| "chunk_body (Crc c) = le32 c"

definition chunk_bytes :: "nat \<Rightarrow> chunk \<Rightarrow> bytes" where
  "chunk_bytes bs c = chunk_header_bytes (chunk_head bs c) @ chunk_body c"

fun chunk_data :: "nat \<Rightarrow> chunk \<Rightarrow> bytes" where
  "chunk_data bs (Raw d) = d"
| "chunk_data bs (Fill n v) = concat (replicate (n * (bs div 4)) v)"
| "chunk_data bs (Skip n) = zeros (n * bs)"
| "chunk_data bs (Crc c) = []"

definition chunks_data :: "nat \<Rightarrow> chunk list \<Rightarrow> bytes" where
  "chunks_data bs cs = concat (map (chunk_data bs) cs)"

definition chunks_bytes :: "nat \<Rightarrow> chunk list \<Rightarrow> bytes" where
  "chunks_bytes bs cs = concat (map (chunk_bytes bs) cs)"

text \<open>The chunks that the format can hold; \<open>out\<close> is the data before them.\<close>

fun chunk_ok :: "nat \<Rightarrow> bytes \<Rightarrow> chunk \<Rightarrow> bool" where
  "chunk_ok bs out (Raw d) \<longleftrightarrow> bs dvd length d \<and> 12 + length d < 2 ^ 32"
| "chunk_ok bs out (Fill n v) \<longleftrightarrow> length v = 4 \<and> n < 2 ^ 32"
| "chunk_ok bs out (Skip n) \<longleftrightarrow> n < 2 ^ 32"
| "chunk_ok bs out (Crc c) \<longleftrightarrow> c = crc32 out"

primrec chunks_ok :: "nat \<Rightarrow> bytes \<Rightarrow> chunk list \<Rightarrow> bool" where
  "chunks_ok bs out [] \<longleftrightarrow> True"
| "chunks_ok bs out (c # cs) \<longleftrightarrow> chunk_ok bs out c \<and> chunks_ok bs (out @ chunk_data bs c) cs"

lemma length_chunk_header_bytes [simp]: "length (chunk_header_bytes h) = 12"
  by (simp add: chunk_header_bytes_def)

lemma unat_word32: "n < 2 ^ 32 \<Longrightarrow> unat (word_of_nat n :: u32) = n"
  by (simp add: unat_of_nat take_bit_eq_mod)

lemma chunk_header_fields:
  "field 0 2 (chunk_header_bytes h @ xs) = le16 (ck_type h)" "field 4 4 (chunk_header_bytes h @ xs) = le32 (ck_blocks h)"
  "field 8 4 (chunk_header_bytes h @ xs) = le32 (ck_size h)"
  by (simp_all add: chunk_header_bytes_def field_append_right field_append_left)

lemma chunk_size: "chunk_ok bs out c \<Longrightarrow> unat (ck_size (chunk_head bs c)) = 12 + length (chunk_body c)"
  using unat_word32 [of "12 + length (chunk_body c)"] by (cases c) simp_all

text \<open>A chunk is read back, whatever follows it.\<close>

lemma unchunk_bytes:
  assumes ok: "chunk_ok bs out c" and bs: "0 < bs"
  shows "unchunk bs out (chunk_bytes bs c @ rest) = Some (out @ chunk_data bs c, rest)"
proof -
  let ?xs = "chunk_bytes bs c @ rest"
  note sz = chunk_size [OF ok]
  have b: "take (unat (ck_size (chunk_head bs c)) - 12) (drop 12 ?xs) = chunk_body c"
    and r: "drop (unat (ck_size (chunk_head bs c))) ?xs = rest"
    and l: "\<not> (unat (ck_size (chunk_head bs c)) < 12 \<or> length ?xs < unat (ck_size (chunk_head bs c)))"
    by (simp_all add: sz chunk_bytes_def)
  have f: "unle (field 0 2 ?xs) = unat (ck_type (chunk_head bs c))" "unle (field 4 4 ?xs) = unat (ck_blocks (chunk_head bs c))"
    "unle (field 8 4 ?xs) = unat (ck_size (chunk_head bs c))"
    by (simp_all add: chunk_bytes_def chunk_header_fields)
  have "length d div bs < 2 ^ 32" if "12 + length d < 2 ^ 32" for d :: bytes
    using that div_le_dividend [of "length d" bs] by linarith
  then show ?thesis
    unfolding unchunk_def Let_def f b r if_not_P [OF l] using ok bs
    by (cases c) (simp_all add: SPARSE_RAW_def SPARSE_FILL_def SPARSE_DONT_CARE_def SPARSE_CRC32_def unat_word32 dvd_div_mult_self)
qed

lemma unchunks_bytes:
  "chunks_ok bs out cs \<Longrightarrow> 0 < bs \<Longrightarrow> unchunks bs (length cs) out (chunks_bytes bs cs) = Some (out @ chunks_data bs cs)"
proof (induction cs arbitrary: out)
  case (Cons c cs)
  then show ?case using unchunk_bytes [of bs out c "chunks_bytes bs cs"]
    by (simp add: chunks_bytes_def chunks_data_def)
qed (simp add: chunks_bytes_def chunks_data_def)

lemma unsparse_bytes:
  assumes "chunks_ok (unat bs) [] cs" and "0 < bs" and "length (chunks_data (unat bs) cs) = unat tot * unat bs"
    and "unat n = length cs"
  shows "unsparse (sparse_header_bytes bs tot n @ chunks_bytes (unat bs) cs) = Some (chunks_data (unat bs) cs)"
proof -
  have "0 < unat bs" using assms(2) by (simp add: word_less_nat_alt)
  from unchunks_bytes [OF assms(1) this] show ?thesis
    using assms(3,4) by (simp add: unsparse_def sparse_header_bytes_def field_append_right field_append_left)
qed

section \<open>Aligned extents\<close>

text \<open>What the code relies on in the kernel's answer: the extents are in order, do not overlap and lie in the file.\<close>

definition extents_ok :: "nat \<Rightarrow> extent list \<Rightarrow> inode \<Rightarrow> bool" where
  "extents_ok sz es x \<longleftrightarrow> sorted_wrt (\<lambda>a b. unat (ext_end a) \<le> unat (ext_start b)) es \<and>
     (\<forall>e \<in> set es. unat (ext_start e) \<le> unat (ext_end e) \<and> unat (ext_end e) \<le> sz) \<and>
     (\<forall>i < sz. fdata x i \<noteq> 0 \<longrightarrow> (\<exists>e \<in> set es. unat (ext_start e) \<le> i \<and> i < unat (ext_end e)))"

definition holds_byte :: "extent \<Rightarrow> nat \<Rightarrow> bool" where
  "holds_byte e i \<longleftrightarrow> unat (ext_start e) \<le> i \<and> i < unat (ext_end e)"

text \<open>The aligned extents: whole blocks, except where the file ends, in order; a removed one ends at 0.\<close>

definition aligned :: "nat \<Rightarrow> nat \<Rightarrow> extent \<Rightarrow> bool" where
  "aligned bs sz e \<longleftrightarrow> bs dvd unat (ext_start e) \<and> unat (ext_start e) \<le> unat (ext_end e) \<and> unat (ext_end e) \<le> sz \<and>
     (bs dvd unat (ext_end e) \<or> unat (ext_end e) = sz)"

definition in_order :: "extent \<Rightarrow> extent \<Rightarrow> bool" where
  "in_order a b \<longleftrightarrow> ext_end b = 0 \<or> unat (ext_end a) < unat (ext_start b)"

definition tiled :: "nat \<Rightarrow> nat \<Rightarrow> extent list \<Rightarrow> bool" where
  "tiled bs sz es \<longleftrightarrow> (\<forall>e \<in> set es. aligned bs sz e) \<and> sorted_wrt in_order es"

text \<open>\<open>x\<close> rounded up to a multiple of \<open>bs\<close>.\<close>

definition up :: "nat \<Rightarrow> nat \<Rightarrow> nat" where
  "up bs x = (x + bs - 1) div bs * bs"

lemma up_bounds: "0 < bs \<Longrightarrow> x \<le> up bs x" "0 < bs \<Longrightarrow> up bs x < x + bs" "bs dvd up bs x"
proof -
  assume b: "0 < bs"
  have d: "(x + bs - 1) div bs * bs + (x + bs - 1) mod bs = x + bs - 1" by (rule div_mult_mod_eq)
  have "(x + bs - 1) mod bs < bs" using b by simp
  then show "x \<le> up bs x" "up bs x < x + bs" using d b unfolding up_def by linarith+
qed (simp add: up_def)

lemma up_mono: "x \<le> y \<Longrightarrow> up bs x \<le> up bs y"
  by (simp add: up_def div_le_mono)

lemma up_dvd: "0 < bs \<Longrightarrow> bs dvd x \<Longrightarrow> up bs x = x"
proof -
  assume b: "0 < bs" and d: "bs dvd x"
  note u = up_bounds(1,2) [OF b, of x] up_bounds(3) [of bs x]
  have "bs dvd up bs x - x" using d u(3) by simp
  moreover have "up bs x - x < bs" using u(1,2) by linarith
  ultimately have "up bs x - x = 0" using nat_dvd_not_less by blast
  then show ?thesis using u(1) by simp
qed

lemma unat_mult64: "unat x * unat y < 2 ^ 64 \<Longrightarrow> unat (x * y :: u64) = unat x * unat y"
  by (simp add: unat_word_ariths)

lemma unat_blocks_of:
  assumes "0 < bs" "unat x + unat bs \<le> 2 ^ 63"
  shows "unat (blocks_of bs x) = (unat x + unat bs - 1) div unat bs" "unat (blocks_of bs x * bs) = up (unat bs) (unat x)"
proof -
  have b: "0 < unat bs" using assms(1) by (simp add: word_less_nat_alt)
  have s: "x - 1 + bs = (x + bs) - 1" by simp
  have "unat (x + bs) = unat x + unat bs" using assms(2) by (intro unat_add64) simp
  then have e: "unat (x - 1 + bs) = unat x + unat bs - 1" unfolding s using b by (subst unat_sub64) simp_all
  show d: "unat (blocks_of bs x) = (unat x + unat bs - 1) div unat bs"
    unfolding blocks_of_def unat_div64 e ..
  have "up (unat bs) (unat x) < 2 ^ 64" using up_bounds(2) [OF b, of "unat x"] assms(2) by simp
  then show "unat (blocks_of bs x * bs) = up (unat bs) (unat x)"
    unfolding up_def d [symmetric] by (rule unat_mult64)
qed

lemma align_extent_ok:
  assumes bs: "0 < bs" "unat bs \<le> 2 ^ 32" and e: "unat (ext_start e) \<le> unat (ext_end e)" "unat (ext_end e) \<le> unat sz"
    and sz: "unat sz \<le> 2 ^ 63 - 2 ^ 32"
  shows "unat (ext_start (align_extent bs sz e)) = unat (ext_start e) div unat bs * unat bs"
    "unat (ext_end (align_extent bs sz e)) = min (up (unat bs) (unat (ext_end e))) (unat sz)"
    "aligned (unat bs) (unat sz) (align_extent bs sz e)"
proof -
  have b: "0 < unat bs" using bs(1) by (simp add: word_less_nat_alt)
  have "unat (ext_start e) div unat bs * unat bs < 2 ^ 64"
    using div_times_less_eq_dividend [of "unat (ext_start e)" "unat bs"] unat_lt64 [of "ext_start e"] by linarith
  then show s: "unat (ext_start (align_extent bs sz e)) = unat (ext_start e) div unat bs * unat bs"
    unfolding align_extent_def align_down_def extent.simps unat_div64 [symmetric] by (rule unat_mult64)
  show n: "unat (ext_end (align_extent bs sz e)) = min (up (unat bs) (unat (ext_end e))) (unat sz)"
    using unat_blocks_of(2) [OF bs(1), of "ext_end e"] e sz bs(2) by (simp add: align_extent_def)
  have "unat (ext_start e) div unat bs * unat bs \<le> min (up (unat bs) (unat (ext_end e))) (unat sz)"
    using div_times_less_eq_dividend [of "unat (ext_start e)" "unat bs"] up_bounds(1) [OF b, of "unat (ext_end e)"] e by linarith
  then show "aligned (unat bs) (unat sz) (align_extent bs sz e)"
    unfolding aligned_def s n using up_bounds(3) by (auto simp: min_def)
qed

lemma align_extent_holds:
  assumes bs: "0 < bs" "unat bs \<le> 2 ^ 32" and e: "unat (ext_end e) \<le> unat sz"
    and sz: "unat sz \<le> 2 ^ 63 - 2 ^ 32" and h: "holds_byte e i"
  shows "holds_byte (align_extent bs sz e) i"
proof -
  have b: "0 < unat bs" using bs(1) by (simp add: word_less_nat_alt)
  have i: "unat (ext_start e) \<le> i" "i < unat (ext_end e)" using h by (auto simp: holds_byte_def)
  then have "unat (ext_start e) \<le> unat (ext_end e)" by simp
  note a = align_extent_ok [OF bs this e sz]
  show ?thesis
    unfolding holds_byte_def a(1,2)
    using i e div_times_less_eq_dividend [of "unat (ext_start e)" "unat bs"] up_bounds(1) [OF b, of "unat (ext_end e)"]
    by linarith
qed

text \<open>The extent that a new one is merged with: every earlier one ends at or before its end.\<close>

lemma prev_extent_le: "prev_extent es k \<le> k"
  by (induction k) auto

lemma prev_extent_removed: "prev_extent es k < i \<Longrightarrow> i \<le> k \<Longrightarrow> ext_end (es ! i) = 0"
  by (induction k) (auto simp: le_Suc_eq split: if_splits)

lemma prev_extent_live: "prev_extent es k \<noteq> 0 \<Longrightarrow> ext_end (es ! prev_extent es k) \<noteq> 0"
  by (induction k) auto

lemma tiled_ends:
  assumes t: "tiled bs sz es" and es: "es \<noteq> []" and j: "j = prev_extent es (length es - 1)" and a: "a \<in> set es"
  shows "unat (ext_end a) \<le> unat (ext_end (es ! j))"
proof -
  obtain i where i: "i < length es" "a = es ! i" using a by (auto simp: in_set_conv_nth)
  have jl: "j < length es" using prev_extent_le [of es "length es - 1"] es j by (cases es) auto
  show ?thesis
  proof (cases "i < j")
    case True
    then have "in_order a (es ! j)" using t jl i(2) by (simp add: tiled_def sorted_wrt_nth_less)
    moreover have "ext_end (es ! j) \<noteq> 0" using prev_extent_live [of es "length es - 1"] True j by simp
    moreover have "unat (ext_start (es ! j)) \<le> unat (ext_end (es ! j))" using t jl by (simp add: tiled_def aligned_def)
    ultimately show ?thesis by (simp add: in_order_def)
  next
    case False
    then show ?thesis using prev_extent_removed [of es "length es - 1" i] i j by (cases "i = j") auto
  qed
qed

text \<open>One step of the loop. \<open>hi\<close> is the end of the extents so far, before the alignment.\<close>

definition merged :: "u64 \<Rightarrow> u64 \<Rightarrow> nat \<Rightarrow> extent list \<Rightarrow> bool" where
  "merged bs sz hi es \<longleftrightarrow> tiled (unat bs) (unat sz) es \<and>
     (\<forall>e \<in> set es. unat (ext_start e) \<le> hi div unat bs * unat bs \<and> unat (ext_end e) \<le> min (up (unat bs) hi) (unat sz))"

lemma tiled_append:
  assumes "tiled bs sz es" "aligned bs sz e" "\<And>a. a \<in> set es \<Longrightarrow> in_order a e"
  shows "tiled bs sz (es @ [e])"
  using assms by (auto simp: tiled_def sorted_wrt_append)

lemma tiled_extend:
  assumes t: "tiled bs sz es" and j: "j < length es" "\<And>i. j < i \<Longrightarrow> i < length es \<Longrightarrow> ext_end (es ! i) = 0"
    and e: "e = (es ! j)\<lparr>ext_end := n\<rparr>" "aligned bs sz e" and z: "unat (ext_end (es ! j)) \<le> unat n"
    and first: "j = 0 \<or> ext_end (es ! j) \<noteq> 0"
  shows "tiled bs sz (es[j := e])"
proof -
  have "aligned bs sz a" if "a \<in> set (es[j := e])" for a
    using t e(2) set_update_subset_insert [of es j e] that by (auto simp: tiled_def)
  moreover have "in_order (es[j := e] ! i) (es[j := e] ! k)" if ik: "i < k" "k < length es" for i k
  proof -
    have o: "in_order (es ! i) (es ! k)" using t ik by (simp add: tiled_def sorted_wrt_nth_less)
    consider "k = j" | "i = j" | "i \<noteq> j" "k \<noteq> j" by blast
    then show ?thesis
    proof cases
      case 1
      then have "in_order (es ! i) e" using o first ik e(1) by (auto simp: in_order_def)
      then show ?thesis using 1 ik by simp
    next
      case 2
      then show ?thesis using j(2) [of k] ik by (simp add: in_order_def)
    qed (use o in simp)
  qed
  ultimately show ?thesis by (simp add: tiled_def sorted_wrt_iff_nth_less)
qed

lemma merge_extent_ok:
  assumes m: "merged bs sz hi es" and bs: "0 < bs" "unat bs \<le> 2 ^ 32" and sz: "unat sz \<le> 2 ^ 63 - 2 ^ 32"
    and e: "unat (ext_start e) \<le> unat (ext_end e)" "unat (ext_end e) \<le> unat sz" "hi \<le> unat (ext_start e)"
  shows "merged bs sz (unat (ext_end e)) (merge_extent bs sz es e)"
    "\<And>i. holds_byte e i \<or> (\<exists>a \<in> set es. holds_byte a i) \<Longrightarrow> \<exists>a \<in> set (merge_extent bs sz es e). holds_byte a i"
proof -
  let ?e = "align_extent bs sz e" and ?b = "unat bs"
  have b: "0 < ?b" using bs(1) by (simp add: word_less_nat_alt)
  note ae = align_extent_ok [OF bs e(1,2) sz]
  have lo: "hi div ?b * ?b \<le> unat (ext_start ?e)" unfolding ae(1) using e(3) by (simp add: div_le_mono)
  have lo2: "hi div ?b * ?b \<le> unat (ext_end e) div ?b * ?b" "unat (ext_start ?e) \<le> unat (ext_end e) div ?b * ?b"
    unfolding ae(1) using e(1,3) by (simp_all add: div_le_mono)
  have up: "up ?b hi \<le> up ?b (unat (ext_end e))" using e by (intro up_mono) simp
  have t: "tiled ?b (unat sz) es" using m by (simp add: merged_def)
  have bnd: "unat (ext_start a) \<le> unat (ext_end e) div ?b * ?b \<and> unat (ext_end a) \<le> min (up ?b (unat (ext_end e))) (unat sz)"
    if "a \<in> set es" for a
  proof -
    have "unat (ext_start a) \<le> hi div ?b * ?b" "unat (ext_end a) \<le> min (up ?b hi) (unat sz)"
      using m that by (simp_all add: merged_def)
    then show ?thesis using lo2(1) up by linarith
  qed
  have new: "unat (ext_start ?e) \<le> unat (ext_end e) div ?b * ?b \<and> unat (ext_end ?e) \<le> min (up ?b (unat (ext_end e))) (unat sz)"
    using lo2(2) ae(2) by simp
  have hold: "holds_byte ?e i" if "holds_byte e i" for i by (rule align_extent_holds [OF bs e(2) sz that])
  have "merged bs sz (unat (ext_end e)) (merge_extent bs sz es e) \<and>
    (\<forall>i. holds_byte e i \<or> (\<exists>a \<in> set es. holds_byte a i) \<longrightarrow> (\<exists>a \<in> set (merge_extent bs sz es e). holds_byte a i))"
  proof (cases "es = []")
    case True
    then have "merge_extent bs sz es e = [?e]" by (simp add: merge_extent_def)
    then show ?thesis using ae(3) new hold True by (auto simp: merged_def tiled_def)
  next
    case False
    define j where "j = prev_extent es (length es - 1)"
    have j: "j < length es" using prev_extent_le [of es "length es - 1"] False by (cases es) (auto simp: j_def)
    note ends = tiled_ends [OF t False j_def]
    show ?thesis
    proof (cases "ext_start ?e \<le> ext_end (es ! j)")
      case no: False
      then have r: "merge_extent bs sz es e = es @ [?e]" using False by (simp add: merge_extent_def Let_def j_def)
      have "in_order a ?e" if "a \<in> set es" for a
        using ends [OF that] no by (auto simp: in_order_def word_le_nat_alt)
      then have "tiled ?b (unat sz) (es @ [?e])" by (rule tiled_append [OF t ae(3)])
      then show ?thesis unfolding r using bnd new hold by (auto simp: merged_def)
    next
      case le: True
      let ?m = "(es ! j)\<lparr>ext_end := ext_end ?e\<rparr>" and ?z = "\<lparr>ext_start = 0, ext_end = 0\<rparr> :: extent"
      have r: "merge_extent bs sz es e = es[j := ?m] @ [?z]" using False le by (simp add: merge_extent_def Let_def j_def)
      have mj: "unat (ext_start (es ! j)) \<le> hi div ?b * ?b" "unat (ext_end (es ! j)) \<le> min (up ?b hi) (unat sz)"
        using m j by (simp_all add: merged_def)
      have grow: "unat (ext_end (es ! j)) \<le> unat (ext_end ?e)" using mj(2) up unfolding ae(2) by linarith
      have ss: "unat (ext_start (es ! j)) \<le> unat (ext_start ?e)" using mj(1) lo by linarith
      have "aligned ?b (unat sz) (es ! j)" using t j by (simp add: tiled_def)
      then have am: "aligned ?b (unat sz) ?m" using ae(3) grow by (auto simp: aligned_def)
      have "tiled ?b (unat sz) (es[j := ?m])"
        using prev_extent_removed [of es "length es - 1"] prev_extent_live [of es "length es - 1"]
        by (intro tiled_extend [OF t j _ refl am grow]) (auto simp: j_def)
      then have "tiled ?b (unat sz) (es[j := ?m] @ [?z])" by (rule tiled_append) (simp_all add: aligned_def in_order_def)
      moreover have "unat (ext_start a) \<le> unat (ext_end e) div ?b * ?b \<and> unat (ext_end a) \<le> min (up ?b (unat (ext_end e))) (unat sz)"
        if "a \<in> set (es[j := ?m] @ [?z])" for a
      proof -
        have "a \<in> set (es[j := ?m]) \<or> a = ?z" using that by auto
        then consider "a \<in> set es" | "a = ?m" | "a = ?z" using set_update_subset_insert [of es j ?m] by blast
        then show ?thesis using bnd new bnd [OF nth_mem [OF j]] by cases simp_all
      qed
      moreover have "\<exists>a \<in> set (es[j := ?m] @ [?z]). holds_byte a i"
        if h: "holds_byte e i \<or> (\<exists>a \<in> set es. holds_byte a i)" for i
      proof -
        have mm: "?m \<in> set (es[j := ?m])" using j by (rule set_update_memI)
        have "holds_byte ?m i" if "holds_byte ?e i \<or> holds_byte (es ! j) i"
          using that ss grow le by (auto simp: holds_byte_def word_le_nat_alt)
        moreover have "a = es ! j \<or> a \<in> set (es[j := ?m])" if "a \<in> set es" for a
          using that by (metis in_set_conv_nth length_list_update nth_list_update_neq)
        ultimately show ?thesis using h hold mm by auto
      qed
      ultimately show ?thesis unfolding r merged_def by blast
    qed
  qed
  then show "merged bs sz (unat (ext_end e)) (merge_extent bs sz es e)"
    "\<And>i. holds_byte e i \<or> (\<exists>a \<in> set es. holds_byte a i) \<Longrightarrow> \<exists>a \<in> set (merge_extent bs sz es e). holds_byte a i"
    by blast+
qed

lemma align_extents_snoc: "align_extents bs sz (es @ [e]) = merge_extent bs sz (align_extents bs sz es) e"
  by (simp add: align_extents_def)

text \<open>The aligned extents are in order and hold every byte that is not zero.\<close>

lemma align_extents_ok:
  assumes ok: "extents_ok (unat sz) es x" and bs: "0 < bs" "unat bs \<le> 2 ^ 32" and sz: "unat sz \<le> 2 ^ 63 - 2 ^ 32"
  shows "tiled (unat bs) (unat sz) (align_extents bs sz es)"
    "\<And>i. i < unat sz \<Longrightarrow> fdata x i \<noteq> 0 \<Longrightarrow> \<exists>e \<in> set (align_extents bs sz es). holds_byte e i"
proof -
  have s: "sorted_wrt (\<lambda>a b. unat (ext_end a) \<le> unat (ext_start b)) es"
    and r: "\<forall>e \<in> set es. unat (ext_start e) \<le> unat (ext_end e) \<and> unat (ext_end e) \<le> unat sz"
    using ok by (simp_all add: extents_ok_def)
  have "merged bs sz (if es = [] then 0 else unat (ext_end (last es))) (align_extents bs sz es) \<and>
    (\<forall>i. (\<exists>e \<in> set es. holds_byte e i) \<longrightarrow> (\<exists>e \<in> set (align_extents bs sz es). holds_byte e i))"
    using s r
  proof (induction es rule: rev_induct)
    case Nil
    then show ?case by (simp add: align_extents_def merged_def tiled_def)
  next
    case (snoc e es)
    let ?hi = "if es = [] then 0 else unat (ext_end (last es))"
    have ih: "merged bs sz ?hi (align_extents bs sz es)"
      "\<forall>i. (\<exists>e \<in> set es. holds_byte e i) \<longrightarrow> (\<exists>e \<in> set (align_extents bs sz es). holds_byte e i)"
      using snoc by (auto simp: sorted_wrt_append)
    have e: "unat (ext_start e) \<le> unat (ext_end e)" "unat (ext_end e) \<le> unat sz" using snoc.prems(2) by auto
    have "?hi \<le> unat (ext_start e)" using snoc.prems(1) by (auto simp: sorted_wrt_append)
    note me = merge_extent_ok [OF ih(1) bs sz e this]
    have "\<exists>a \<in> set (align_extents bs sz (es @ [e])). holds_byte a i" if "\<exists>a \<in> set (es @ [e]). holds_byte a i" for i
      unfolding align_extents_snoc using that ih(2) by (intro me(2)) auto
    then show ?case using me(1) by (simp add: align_extents_snoc)
  qed
  then show "tiled (unat bs) (unat sz) (align_extents bs sz es)"
    "\<And>i. i < unat sz \<Longrightarrow> fdata x i \<noteq> 0 \<Longrightarrow> \<exists>e \<in> set (align_extents bs sz es). holds_byte e i"
    using ok by (auto simp: merged_def extents_ok_def holds_byte_def)
qed

end
