(* ===== verification/SparseWriter.thy ===== *)
theory SparseWriter
  imports SparseFormat
begin

text \<open>
  What the writer of \<^verbatim>\<open>image-android-sparse.c\<close> has put into its output file: complete chunks, and within an
  extent one chunk whose header is still a placeholder. Every step of it, a header, a block, an extent,
  keeps this, and the data of the chunks is that of the input so far.
\<close>

section \<open>The file that is written\<close>

definition contents :: "inode \<Rightarrow> bytes" where
  "contents x = map (fdata x) [0..<fsize x]"

lemma length_contents [simp]: "length (contents x) = fsize x"
  by (simp add: contents_def)

lemma contents_append: "contents (write_at (fsize x) bs x) = contents x @ bs"
proof (cases "bs = []")
  case False
  then have "fsize (write_at (fsize x) bs x) = fsize x + length bs" by (simp add: fsize_write_at)
  then show ?thesis by (intro nth_equalityI) (auto simp: contents_def nth_append fdata_write_at)
qed simp

lemma contents_overwrite:
  assumes "contents x = a @ b @ c" "length bs = length b"
  shows "contents (write_at (length a) bs x) = a @ bs @ c"
proof -
  have l: "fsize x = length a + length b + length c" using arg_cong [OF assms(1), of length] by simp
  then have s: "fsize (write_at (length a) bs x) = fsize x" using assms(2) by (simp add: fsize_write_at)
  have "fdata x i = (a @ b @ c) ! i" if "i < fsize x" for i
    using that arg_cong [OF assms(1), of "\<lambda>l. l ! i"] by (simp add: contents_def)
  then show ?thesis
    using l assms(2) by (intro nth_equalityI) (auto simp: contents_def s nth_append fdata_write_at)
qed

text \<open>
  \<open>file_is out bs w\<close>: the file at \<open>out\<close> is regular and has the bytes \<open>bs\<close>. A write at the end appends;
  a write of a header over its placeholder replaces it.
\<close>

definition file_is :: "string \<Rightarrow> bytes \<Rightarrow> world \<Rightarrow> bool" where
  "file_is out bs w \<longleftrightarrow> (\<exists>x. fs w out = Some x \<and> fkind x = Regular \<and> contents x = bs) \<and> length bs \<le> off_max"

definition same_but :: "string \<Rightarrow> world \<Rightarrow> world \<Rightarrow> bool" where
  "same_but out w w' \<longleftrightarrow> (\<forall>p. p \<noteq> out \<longrightarrow> fs w' p = fs w p)"

lemma same_but_refl: "fs w' = fs w \<Longrightarrow> same_but out w w'"
  by (simp add: same_but_def)

lemma same_but_trans: "same_but out a b \<Longrightarrow> same_but out b c \<Longrightarrow> same_but out a c"
  by (simp add: same_but_def)

lemma file_is_fs: "file_is out bs w \<Longrightarrow> fs w' = fs w \<Longrightarrow> file_is out bs w'"
  by (simp add: file_is_def)

lemma unat_pos: "n \<le> off_max \<Longrightarrow> unat (word_of_nat n :: u64) = n"
  by (intro unat_of_nat64) (simp add: off_max_def)

lemma write_data_file:
  assumes ok: "write_data out bs pos w = (Inr at, w')" and f: "file_is out c w"
  shows "same_but out w w' \<and> at = pos + word_of_nat (length bs) \<and>
    (unat pos = length c \<longrightarrow> file_is out (c @ bs) w') \<and>
    (\<forall>a b d. c = a @ b @ d \<and> length b = length bs \<and> unat pos = length a \<longrightarrow> file_is out (a @ bs @ d) w')"
proof -
  obtain n where p: "sys_pwrite out bs pos w = (Inr n, w')" and n: "n = length bs" "at = pos + word_of_nat n"
    using ok by (auto simp: write_data_def io_ok split: if_splits)
  obtain x where x: "fs w out = Some x" and l: "n = 0 \<or> unat pos + n \<le> limit x"
    and w': "fs w' = (fs w)(out \<mapsto> write_at (unat pos) (take n bs) x)" by (rule sys_pwrite_ok [OF p]) blast
  have k: "fkind x = Regular" "contents x = c" "length c \<le> off_max" using f x by (auto simp: file_is_def)
  have "limit x = off_max" using k(1) by (simp add: limit_def)
  then have l': "bs = [] \<or> unat pos + length bs \<le> off_max" using l n(1) by auto
  have w1: "fs w' out = Some (write_at (unat pos) bs x)" using w' n(1) by simp
  have "file_is out (c @ bs) w'" if "unat pos = length c"
    using w1 k l' that contents_append [of x bs] by (auto simp: file_is_def)
  moreover have "file_is out (a @ bs @ d) w'" if "c = a @ b @ d" "length b = length bs" "unat pos = length a" for a b d
    using w1 k contents_overwrite [of x a b d bs] that by (auto simp: file_is_def)
  ultimately show ?thesis using w' n by (auto simp: same_but_def)
qed

lemma write_data_end:
  assumes "write_data out bs (word_of_nat (length c)) w = (Inr at, w')" and f: "file_is out c w"
  shows "file_is out (c @ bs) w'" "at = word_of_nat (length (c @ bs))" "same_but out w w'"
proof -
  have "unat (word_of_nat (length c) :: u64) = length c" using f by (intro unat_pos) (simp add: file_is_def)
  then show "file_is out (c @ bs) w'" "at = word_of_nat (length (c @ bs))" "same_but out w w'"
    using write_data_file [OF assms] by simp_all
qed

lemma flush_header_end:
  assumes "flush_header out h None (word_of_nat (length c)) w = (Inr at, w')" and "ck_type h \<noteq> 0" and "file_is out c w"
  shows "file_is out (c @ chunk_header_bytes h) w'" "at = word_of_nat (length (c @ chunk_header_bytes h))" "same_but out w w'"
  using assms write_data_end [of out "chunk_header_bytes h" c w at w'] by (simp_all add: flush_header_def)

lemma flush_header_back:
  assumes ok: "flush_header out h (Some (word_of_nat (length a))) at w = (Inr at', w')" and h: "ck_type h \<noteq> 0"
    and f: "file_is out (a @ chunk_header_bytes h0 @ d) w"
  shows "file_is out (a @ chunk_header_bytes h @ d) w'" "at' = word_of_nat (length (a @ chunk_header_bytes h @ d))"
    "same_but out w w'"
proof -
  let ?p = "word_of_nat (length a) :: u64"
  have u: "unat ?p = length a" using f by (intro unat_pos) (simp add: file_is_def)
  obtain w1 n w2 where s: "sys_seek ?p w = (Inr (), w1)" and p: "write_data out (chunk_header_bytes h) ?p w1 = (Inr n, w2)"
    and e: "sys_seek_end out w2 = (Inr at', w')"
    using ok h by (auto simp: flush_header_def bind_io_ok)
  have f1: "fs w1 = fs w" by (rule sys_seek_ok [OF s])
  have "file_is out (a @ chunk_header_bytes h @ d) w2 \<and> same_but out w1 w2"
    using write_data_file [OF p file_is_fs [OF f f1]] u by force
  moreover have "fs w' = fs w2" "\<exists>x. fs w2 out = Some x \<and> at' = word_of_nat (fsize x)"
    using e by (auto simp: sys_seek_end_def io_ok)
  moreover have "x = y" if "fs w2 out = Some x" "fs w2 out = Some y" for x y using that by simp
  ultimately show "file_is out (a @ chunk_header_bytes h @ d) w'"
    "at' = word_of_nat (length (a @ chunk_header_bytes h @ d))" "same_but out w w'"
    using f1 by (auto simp: file_is_def same_but_def length_contents [symmetric] simp del: length_contents length_append)
qed

section \<open>Chunks that are written\<close>

lemma concat_replicate_nth: "length v = k \<Longrightarrow> 0 < k \<Longrightarrow> i < n * k \<Longrightarrow> concat (replicate n v) ! i = v ! (i mod k)"
proof (induction n arbitrary: i)
  case (Suc n)
  show ?case
  proof (cases "i < k")
    case False
    then have "concat (replicate n v) ! (i - k) = v ! ((i - k) mod k)" using Suc by (intro Suc.IH) auto
    then show ?thesis using False Suc.prems by (simp add: nth_append le_mod_geq)
  qed (use Suc.prems in \<open>simp add: nth_append\<close>)
qed simp

lemma is_fill_data:
  assumes f: "is_fill bs buf" and l: "length buf = bs" "4 dvd bs"
  shows "concat (replicate (bs div 4) (take 4 buf)) = buf"
proof (cases "bs = 0")
  case False
  have bs: "bs div 4 * 4 = bs" using l(2) by simp
  have v: "length (take 4 buf) = 4" using l False dvd_imp_le [of 4 bs] by simp
  show ?thesis
  proof (rule nth_equalityI)
    show "length (concat (replicate (bs div 4) (take 4 buf))) = length buf"
      using v bs l(1) by (simp add: length_concat sum_list_replicate)
    fix i assume "i < length (concat (replicate (bs div 4) (take 4 buf)))"
    then have i: "i < bs" using v bs by (simp add: length_concat sum_list_replicate)
    then have j: "i div 4 < bs div 4" using bs by (simp add: less_mult_imp_div_less)
    have "field (4 * (i div 4)) 4 buf = field 0 4 buf"
      using f j by (cases "i div 4 = 0") (auto simp: is_fill_def list_all_iff)
    then have "field (4 * (i div 4)) 4 buf ! (i mod 4) = take 4 buf ! (i mod 4)" by (simp add: field_def)
    moreover have "field (4 * (i div 4)) 4 buf ! (i mod 4) = buf ! i" using i l by (simp add: field_def)
    moreover have "concat (replicate (bs div 4) (take 4 buf)) ! i = take 4 buf ! (i mod 4)"
      using v bs i by (intro concat_replicate_nth) simp_all
    ultimately show "concat (replicate (bs div 4) (take 4 buf)) ! i = buf ! i" by simp
  qed
qed (use l in simp)

text \<open>Chunks with at least one block. Their number is bounded by the data, so no count wraps around.\<close>

fun blocky :: "nat \<Rightarrow> chunk \<Rightarrow> bool" where
  "blocky bs (Raw d) \<longleftrightarrow> d \<noteq> [] \<and> bs dvd length d \<and> 12 + length d < 2 ^ 32"
| "blocky bs (Fill n v) \<longleftrightarrow> 0 < n \<and> length v = 4"
| "blocky bs (Skip n) \<longleftrightarrow> 0 < n"
| "blocky bs (Crc c) \<longleftrightarrow> False"

lemma chunks_data_append [simp]: "chunks_data bs (xs @ ys) = chunks_data bs xs @ chunks_data bs ys"
  by (simp add: chunks_data_def)

lemma chunks_bytes_append [simp]: "chunks_bytes bs (xs @ ys) = chunks_bytes bs xs @ chunks_bytes bs ys"
  by (simp add: chunks_bytes_def)

lemma chunks_single [simp]: "chunks_data bs [c] = chunk_data bs c" "chunks_bytes bs [c] = chunk_bytes bs c"
  "chunks_data bs [] = []" "chunks_bytes bs [] = []"
  by (simp_all add: chunks_data_def chunks_bytes_def)

lemma blocky_length:
  assumes "blocky bs c" "4 dvd bs" "0 < bs"
  shows "bs \<le> length (chunk_data bs c)" "\<And>n v. c = Fill n v \<Longrightarrow> n * bs \<le> length (chunk_data bs c)"
    "\<And>n. c = Skip n \<Longrightarrow> n * bs \<le> length (chunk_data bs c)"
proof -
  have f: "length (chunk_data bs (Fill n v)) = n * bs" if "length v = 4" for n v
    using that assms(2) by (simp add: length_concat sum_list_replicate)
  show "bs \<le> length (chunk_data bs c)"
    using assms f by (cases c) (auto simp: zeros_def dvd_imp_le simp del: chunk_data.simps(2))
  show "\<And>n v. c = Fill n v \<Longrightarrow> n * bs \<le> length (chunk_data bs c)" using assms(1) f by auto
  show "\<And>n. c = Skip n \<Longrightarrow> n * bs \<le> length (chunk_data bs c)" by (simp add: zeros_def)
qed

lemma blocky_count:
  "\<forall>c \<in> set cs. blocky bs c \<Longrightarrow> 4 dvd bs \<Longrightarrow> 0 < bs \<Longrightarrow> length cs * bs \<le> length (chunks_data bs cs)"
proof (induction cs)
  case (Cons c cs)
  then show ?case using blocky_length(1) [of bs c] by (simp add: chunks_data_def)
qed simp

lemma blocky_ok:
  "\<forall>c \<in> set cs. blocky bs c \<Longrightarrow> 4 dvd bs \<Longrightarrow> 0 < bs \<Longrightarrow> length (chunks_data bs cs) < 2 ^ 32 * bs \<Longrightarrow> chunks_ok bs out cs"
proof (induction cs arbitrary: out)
  case (Cons c cs)
  have l: "length (chunk_data bs c) < 2 ^ 32 * bs" "length (chunks_data bs cs) < 2 ^ 32 * bs"
    using Cons.prems(4) by (simp_all add: chunks_data_def)
  have "n < 2 ^ 32" if "n * bs \<le> length (chunk_data bs c)" for n
  proof -
    have "n * bs < 2 ^ 32 * bs" using l(1) that by linarith
    then show ?thesis using Cons.prems(3) mult_less_cancel2 by blast
  qed
  then have "chunk_ok bs out c" using Cons.prems blocky_length [of bs c] by (cases c) auto
  then show ?case using Cons.IH [OF _ Cons.prems(2,3) l(2)] Cons.prems(1) by simp
qed simp

section \<open>The state of the writer\<close>

text \<open>
  Between two extents: the chunks \<open>cs\<close> are complete. Within one: the chunks \<open>cs\<close> are, and of \<open>cur\<close> the data
  is written, but its header is still the placeholder \<open>h0\<close>; the header in the state is the right one.
\<close>

definition counted :: "nat \<Rightarrow> chunk list \<Rightarrow> sparse_state \<Rightarrow> bool" where
  "counted bs cs st \<longleftrightarrow> st_chunks st = word_of_nat (length cs) \<and> (\<forall>c \<in> set cs. blocky bs c)"

definition written :: "string \<Rightarrow> nat \<Rightarrow> bytes \<Rightarrow> chunk list \<Rightarrow> sparse_state \<Rightarrow> world \<Rightarrow> bool" where
  "written out bs hdr cs st w \<longleftrightarrow> file_is out (hdr @ chunks_bytes bs cs) w \<and>
     st_at st = word_of_nat (length (hdr @ chunks_bytes bs cs)) \<and> counted bs cs st"

definition writing :: "string \<Rightarrow> nat \<Rightarrow> bytes \<Rightarrow> chunk list \<Rightarrow> chunk option \<Rightarrow> sparse_state \<Rightarrow> world \<Rightarrow> bool" where
  "writing out bs hdr cs cur st w \<longleftrightarrow>
     st_pos st = word_of_nat (length (hdr @ chunks_bytes bs cs)) \<and> counted bs (cs @ (case cur of None \<Rightarrow> [] | Some c \<Rightarrow> [c])) st \<and>
     (case cur of
        None \<Rightarrow> ck_type (st_chunk st) = 0 \<and> file_is out (hdr @ chunks_bytes bs cs) w \<and>
          st_at st = word_of_nat (length (hdr @ chunks_bytes bs cs))
      | Some c \<Rightarrow> st_chunk st = chunk_head bs c \<and> (\<forall>n v. c = Fill n v \<longrightarrow> st_fill st = v) \<and>
          (\<forall>n. c \<noteq> Skip n) \<and>
          (\<exists>h0. file_is out ((hdr @ chunks_bytes bs cs) @ chunk_header_bytes h0 @ chunk_body c) w) \<and>
          st_at st = word_of_nat (length ((hdr @ chunks_bytes bs cs) @ chunk_bytes bs c)))"

definition cur_list :: "chunk option \<Rightarrow> chunk list" where
  "cur_list cur = (case cur of None \<Rightarrow> [] | Some c \<Rightarrow> [c])"

lemma chunk_type_nonzero [simp]: "ck_type (chunk_head bs c) \<noteq> 0"
  by (cases c) (simp_all add: SPARSE_RAW_def SPARSE_FILL_def SPARSE_DONT_CARE_def SPARSE_CRC32_def)

lemma flush_current:
  assumes w: "writing out bs hdr cs cur st w"
    and ok: "flush_header out (st_chunk st) (Some (st_pos st)) (st_at st) w = (Inr at, w')"
  shows "file_is out (hdr @ chunks_bytes bs (cs @ cur_list cur)) w'"
    "at = word_of_nat (length (hdr @ chunks_bytes bs (cs @ cur_list cur)))" "same_but out w w'"
proof -
  have "file_is out (hdr @ chunks_bytes bs (cs @ cur_list cur)) w' \<and>
    at = word_of_nat (length (hdr @ chunks_bytes bs (cs @ cur_list cur))) \<and> same_but out w w'"
  proof (cases cur)
    case None
    then have "at = st_at st" "w' = w" using ok w by (simp_all add: flush_header_def writing_def ret_ok)
    then show ?thesis using w None by (simp add: writing_def cur_list_def same_but_refl)
  next
    case (Some c)
    obtain h0 where f: "file_is out ((hdr @ chunks_bytes bs cs) @ chunk_header_bytes h0 @ chunk_body c) w"
      using w Some by (auto simp: writing_def)
    have p: "st_pos st = word_of_nat (length (hdr @ chunks_bytes bs cs))" "st_chunk st = chunk_head bs c"
      using w Some by (simp_all add: writing_def)
    from flush_header_back [OF ok [unfolded p] _ f] show ?thesis
      by (simp add: Some cur_list_def chunk_bytes_def)
  qed
  then show "file_is out (hdr @ chunks_bytes bs (cs @ cur_list cur)) w'"
    "at = word_of_nat (length (hdr @ chunks_bytes bs (cs @ cur_list cur)))" "same_but out w w'" by blast+
qed

lemma begin_chunk_ok:
  assumes w: "writing out bs hdr cs cur st w" and t: "t \<noteq> 0"
    and ok: "begin_chunk out t sz st w = (Inr st', w')"
  shows "\<exists>at. st' = st\<lparr>st_chunks := word_of_nat (Suc (length (cs @ cur_list cur))),
      st_pos := word_of_nat (length (hdr @ chunks_bytes bs (cs @ cur_list cur))), st_at := at,
      st_chunk := \<lparr>ck_type = t, ck_blocks = 0, ck_size = sz\<rparr>\<rparr> \<and>
    at = word_of_nat (length (hdr @ chunks_bytes bs (cs @ cur_list cur)) + 12) \<and>
    file_is out ((hdr @ chunks_bytes bs (cs @ cur_list cur)) @ chunk_header_bytes \<lparr>ck_type = t, ck_blocks = 0, ck_size = sz\<rparr>) w' \<and>
    same_but out w w' \<and> (\<forall>c \<in> set (cs @ cur_list cur). blocky bs c)"
proof -
  let ?h = "\<lparr>ck_type = t, ck_blocks = 0, ck_size = sz\<rparr>"
  obtain pos w1 at where f: "flush_header out (st_chunk st) (Some (st_pos st)) (st_at st) w = (Inr pos, w1)"
    and g: "flush_header out ?h None pos w1 = (Inr at, w')"
    and st': "st' = st\<lparr>st_chunks := st_chunks st + 1, st_pos := pos, st_at := at, st_chunk := ?h\<rparr>"
    using ok unfolding begin_chunk_def Let_def bind_io_ok ret_ok by blast
  note fc = flush_current [OF w f]
  note fe = flush_header_end [OF g [unfolded fc(2)] _ fc(1)]
  have n: "st_chunks st = word_of_nat (length (cs @ cur_list cur))" "\<forall>c \<in> set (cs @ cur_list cur). blocky bs c"
    using w by (simp_all add: writing_def counted_def cur_list_def split: option.splits)
  show ?thesis
    using fe t fc(2,3) n same_but_trans unfolding st' by (auto simp: add.commute)
qed

text \<open>What one block adds.\<close>

definition block_added :: "string \<Rightarrow> nat \<Rightarrow> bytes \<Rightarrow> chunk list \<Rightarrow> bytes \<Rightarrow> sparse_state \<Rightarrow> world \<Rightarrow> sparse_state \<Rightarrow> world \<Rightarrow> bool" where
  "block_added out bs hdr cs buf st w st' w' \<longleftrightarrow> (\<exists>cs' cur'. writing out bs hdr cs' cur' st' w' \<and>
     chunks_data bs (cs' @ cur_list cur') = chunks_data bs cs @ buf) \<and> st_crc st' = st_crc st \<and>
     st_block st' = st_block st \<and> same_but out w w'"

lemma counted_snoc:
  "st_chunks st = word_of_nat (Suc (length cs)) \<Longrightarrow> \<forall>c \<in> set cs. blocky bs c \<Longrightarrow> blocky bs c \<Longrightarrow> counted bs (cs @ [c]) st"
  by (auto simp: counted_def)

lemma raw_new_ok:
  assumes w: "writing out bs hdr cs cur st w" and bs: "bs = unat bsw" "bs \<noteq> 0" "bs \<le> 2 ^ 32 - 512" and l: "length buf = bs"
    and b: "begin_chunk out SPARSE_RAW 12 st w = (Inr st1, w1)" and d: "write_data out buf (st_at st1) w1 = (Inr at, w')"
  shows "block_added out bs hdr (cs @ cur_list cur) buf st w ((count_block bsw st1)\<lparr>st_at := at\<rparr>) w'"
proof -
  let ?cs = "cs @ cur_list cur" and ?h = "\<lparr>ck_type = SPARSE_RAW, ck_blocks = 0, ck_size = 12\<rparr>"
  let ?c = "hdr @ chunks_bytes bs ?cs" and ?st = "(count_block bsw st1)\<lparr>st_at := at\<rparr>"
  obtain a1 where s: "st1 = st\<lparr>st_chunks := word_of_nat (Suc (length ?cs)), st_pos := word_of_nat (length ?c), st_at := a1, st_chunk := ?h\<rparr>"
    "a1 = word_of_nat (length (?c @ chunk_header_bytes ?h))" "file_is out (?c @ chunk_header_bytes ?h) w1" "same_but out w w1"
    "\<forall>c \<in> set ?cs. blocky bs c"
    using begin_chunk_ok [OF w _ b] by (auto simp: SPARSE_RAW_def)
  have at: "st_at st1 = word_of_nat (length (?c @ chunk_header_bytes ?h))" using s(1,2) by simp
  note e = write_data_end [OF d [unfolded at] s(3)]
  have "word_of_nat (12 + length buf) = (12 :: u32) + bsw" by (simp add: l bs(1))
  then have h: "st_chunk ?st = chunk_head bs (Raw buf)" using l bs(2) by (simp add: s(1) count_block_def)
  have bl: "blocky bs (Raw buf)" using l bs by auto
  have "writing out bs hdr ?cs (Some (Raw buf)) ?st w'"
    unfolding writing_def option.case
  proof (intro conjI)
    show "counted bs (?cs @ [Raw buf]) ?st" using s(5) bl by (intro counted_snoc) (simp_all add: s(1) count_block_def)
    show "st_chunk ?st = chunk_head bs (Raw buf)" by (rule h)
    show "\<exists>h0. file_is out (?c @ chunk_header_bytes h0 @ chunk_body (Raw buf)) w'" using e(1) by auto
    show "st_at ?st = word_of_nat (length (?c @ chunk_bytes bs (Raw buf)))" using e(2) by (simp add: chunk_bytes_def)
  qed (simp_all add: s(1) count_block_def)
  then show ?thesis
    unfolding block_added_def using same_but_trans [OF s(4) e(3)]
    by (intro conjI exI [of _ ?cs] exI [of _ "Some (Raw buf)"]) (simp_all add: s(1) count_block_def cur_list_def)
qed

lemma raw_more_ok:
  assumes w: "writing out bs hdr cs cur st w" and bs: "bs = unat bsw" "bs \<noteq> 0" and l: "length buf = bs"
    and t: "ck_type (st_chunk st) = SPARSE_RAW" "\<not> ck_blocks (st_chunk st) \<ge> (0xFFFFFFFF - 12) div bsw"
    and d: "write_data out buf (st_at st) w = (Inr at, w')"
  shows "block_added out bs hdr (cs @ cur_list cur) buf st w ((count_block bsw st)\<lparr>st_at := at\<rparr>) w'"
proof -
  let ?st = "(count_block bsw st)\<lparr>st_at := at\<rparr>"
  obtain c where c: "cur = Some c" "st_chunk st = chunk_head bs c"
    using w t(1) by (cases cur) (auto simp: writing_def SPARSE_RAW_def)
  then obtain r where r: "c = Raw r" using t(1)
    by (cases c) (auto simp: SPARSE_RAW_def SPARSE_FILL_def SPARSE_DONT_CARE_def SPARSE_CRC32_def)
  let ?c = "hdr @ chunks_bytes bs cs"
  obtain h0 where f: "file_is out (?c @ chunk_header_bytes h0 @ r) w"
    and cn: "counted bs (cs @ [Raw r]) st" and p: "st_pos st = word_of_nat (length ?c)"
    and a: "st_at st = word_of_nat (length (?c @ chunk_header_bytes h0 @ r))"
    using w c r by (auto simp: writing_def chunk_bytes_def)
  note e = write_data_end [OF d [unfolded a] f]
  have br: "bs dvd length r" "12 + length r < 2 ^ 32" "r \<noteq> []" using cn by (simp_all add: counted_def)
  let ?k = "length r div bs"
  have k: "?k * bs = length r" using br(1) by simp
  have "?k < 2 ^ 32" using br(2) div_le_dividend [of "length r" bs] by linarith
  then have "unat (ck_blocks (st_chunk st)) = ?k" using c r by (simp add: unat_word32)
  moreover have "unat ((0xFFFFFFFF - 12) div bsw :: u32) = (2 ^ 32 - 13) div bs" by (simp add: unat_div_distrib bs(1))
  ultimately have "?k < (2 ^ 32 - 13) div bs" using t(2) by (simp add: word_le_nat_alt)
  then have "(?k + 1) * bs \<le> (2 ^ 32 - 13) div bs * bs" by (intro mult_right_mono) simp_all
  moreover have "(?k + 1) * bs = length r + bs" using k by simp
  ultimately have "length r + bs \<le> (2 ^ 32 - 13) div bs * bs" by simp
  then have sz: "length r + bs \<le> 2 ^ 32 - 13" by (rule order_trans [OF _ div_times_less_eq_dividend])
  have "word_of_nat (12 + length (r @ buf)) = (word_of_nat (12 + length r) :: u32) + bsw" by (simp add: l bs(1))
  moreover have "length (r @ buf) div bs = ?k + 1" using div_add_self2 [OF bs(2), of "length r"] l by simp
  ultimately have h: "st_chunk ?st = chunk_head bs (Raw (r @ buf))" using c r by (simp add: count_block_def add.commute)
  have "writing out bs hdr cs (Some (Raw (r @ buf))) ?st w'"
    unfolding writing_def option.case
  proof (intro conjI)
    show "counted bs (cs @ [Raw (r @ buf)]) ?st" using cn l bs(2) sz by (auto simp: counted_def count_block_def)
    show "st_chunk ?st = chunk_head bs (Raw (r @ buf))" by (rule h)
    show "\<exists>h0. file_is out (?c @ chunk_header_bytes h0 @ chunk_body (Raw (r @ buf))) w'" using e(1) by auto
    show "st_at ?st = word_of_nat (length (?c @ chunk_bytes bs (Raw (r @ buf))))" using e(2) by (simp add: chunk_bytes_def)
  qed (simp_all add: p count_block_def)
  then show ?thesis
    unfolding block_added_def using e(3)
    by (intro conjI exI [of _ cs] exI [of _ "Some (Raw (r @ buf))"]) (simp_all add: c r count_block_def cur_list_def)
qed

lemma raw_block_ok:
  assumes w: "writing out bs hdr cs cur st w" and bs: "bs = unat bsw" "bs \<noteq> 0" "bs \<le> 2 ^ 32 - 512" and l: "length buf = bs"
    and ok: "raw_block out bsw buf st w = (Inr st', w')"
  shows "block_added out bs hdr (cs @ cur_list cur) buf st w st' w'"
proof (cases "ck_type (st_chunk st) \<noteq> SPARSE_RAW \<or> ck_blocks (st_chunk st) \<ge> (0xFFFFFFFF - 12) div bsw")
  case True
  then obtain st1 w1 at where "begin_chunk out SPARSE_RAW 12 st w = (Inr st1, w1)" "write_data out buf (st_at st1) w1 = (Inr at, w')"
    "st' = (count_block bsw st1)\<lparr>st_at := at\<rparr>"
    using ok unfolding raw_block_def bind_io_ok ret_ok by auto
  then show ?thesis using raw_new_ok [OF w bs l] by blast
next
  case False
  then obtain at where "write_data out buf (st_at st) w = (Inr at, w')" "st' = (count_block bsw st)\<lparr>st_at := at\<rparr>"
    using ok unfolding raw_block_def bind_io_ok ret_ok by (auto simp: ret_ok)
  then show ?thesis using raw_more_ok [OF w bs(1,2) l] False by blast
qed

lemma fill_new_ok:
  assumes w: "writing out bs hdr cs cur st w" and l: "length v = 4"
    and b: "begin_chunk out SPARSE_FILL 16 st w = (Inr st1, w1)" and d: "write_data out v (st_at st1) w1 = (Inr at, w')"
  shows "block_added out bs hdr (cs @ cur_list cur) (concat (replicate (bs div 4) v)) st w
    (count_block 0 (st1\<lparr>st_at := at, st_fill := v\<rparr>)) w'"
proof -
  let ?cs = "cs @ cur_list cur" and ?h = "\<lparr>ck_type = SPARSE_FILL, ck_blocks = 0, ck_size = 16\<rparr>"
  let ?c = "hdr @ chunks_bytes bs ?cs" and ?st = "count_block 0 (st1\<lparr>st_at := at, st_fill := v\<rparr>)"
  obtain a1 where s: "st1 = st\<lparr>st_chunks := word_of_nat (Suc (length ?cs)), st_pos := word_of_nat (length ?c), st_at := a1, st_chunk := ?h\<rparr>"
    "a1 = word_of_nat (length (?c @ chunk_header_bytes ?h))" "file_is out (?c @ chunk_header_bytes ?h) w1" "same_but out w w1"
    "\<forall>c \<in> set ?cs. blocky bs c"
    using begin_chunk_ok [OF w _ b] by (auto simp: SPARSE_FILL_def)
  have at: "st_at st1 = word_of_nat (length (?c @ chunk_header_bytes ?h))" using s(1,2) by simp
  note e = write_data_end [OF d [unfolded at] s(3)]
  have "writing out bs hdr ?cs (Some (Fill 1 v)) ?st w'"
    unfolding writing_def option.case
  proof (intro conjI)
    show "counted bs (?cs @ [Fill 1 v]) ?st" using s(5) l by (intro counted_snoc) (simp_all add: s(1) count_block_def)
    show "st_chunk ?st = chunk_head bs (Fill 1 v)" by (simp add: s(1) count_block_def)
    show "\<exists>h0. file_is out (?c @ chunk_header_bytes h0 @ chunk_body (Fill 1 v)) w'" using e(1) by auto
    show "st_at ?st = word_of_nat (length (?c @ chunk_bytes bs (Fill 1 v)))"
      using e(2) by (simp add: chunk_bytes_def s(1) count_block_def)
  qed (simp_all add: s(1) count_block_def)
  then show ?thesis
    unfolding block_added_def using same_but_trans [OF s(4) e(3)]
    by (intro conjI exI [of _ ?cs] exI [of _ "Some (Fill 1 v)"]) (simp_all add: s(1) count_block_def cur_list_def)
qed

lemma fill_more_ok:
  assumes w: "writing out bs hdr cs cur st w"
    and t: "ck_type (st_chunk st) = SPARSE_FILL" "st_fill st = v"
  shows "block_added out bs hdr (cs @ cur_list cur) (concat (replicate (bs div 4) v)) st w (count_block 0 st) w"
proof -
  obtain c where c: "cur = Some c" "st_chunk st = chunk_head bs c"
    using w t(1) by (cases cur) (auto simp: writing_def SPARSE_FILL_def)
  then obtain n u where r: "c = Fill n u" using t(1)
    by (cases c) (auto simp: SPARSE_RAW_def SPARSE_FILL_def SPARSE_DONT_CARE_def SPARSE_CRC32_def)
  then have u: "u = v" using w c(1) t(2) by (auto simp: writing_def)
  have "concat (replicate (Suc n * (bs div 4)) v) = concat (replicate (n * (bs div 4)) v) @ concat (replicate (bs div 4) v)"
  proof -
    have "Suc n * (bs div 4) = n * (bs div 4) + bs div 4" by simp
    then show ?thesis by (simp only: replicate_add concat_append)
  qed
  moreover have "writing out bs hdr cs (Some (Fill (Suc n) v)) (count_block 0 st) w"
    using w c r u by (auto simp: writing_def counted_def count_block_def chunk_bytes_def)
  ultimately show ?thesis
    unfolding block_added_def
    by (intro conjI exI [of _ cs] exI [of _ "Some (Fill (Suc n) v)"])
      (simp_all add: c r u count_block_def cur_list_def same_but_refl del: replicate_Suc mult_Suc)
qed

lemma fill_block_ok:
  assumes w: "writing out bs hdr cs cur st w" and f: "is_fill bs buf" and l: "length buf = bs" "4 dvd bs" "bs \<noteq> 0"
    and ok: "fill_block out buf st w = (Inr st', w')"
  shows "block_added out bs hdr (cs @ cur_list cur) buf st w st' w'"
proof -
  note data = is_fill_data [OF f l(1,2)]
  have v: "length (take 4 buf) = 4" using l dvd_imp_le [of 4 bs] by simp
  show ?thesis
  proof (cases "ck_type (st_chunk st) \<noteq> SPARSE_FILL \<or> st_fill st \<noteq> take 4 buf")
    case True
    then obtain st1 w1 at where "begin_chunk out SPARSE_FILL 16 st w = (Inr st1, w1)"
      "write_data out (take 4 buf) (st_at st1) w1 = (Inr at, w')"
      "st' = count_block 0 (st1\<lparr>st_at := at, st_fill := take 4 buf\<rparr>)"
      using ok unfolding fill_block_def bind_io_ok by (auto simp: io_ok)
    then show ?thesis using fill_new_ok [OF w v] data by metis
  next
    case False
    then have "st' = count_block 0 st" "w' = w" using ok by (auto simp: fill_block_def io_ok)
    then show ?thesis using fill_more_ok [OF w] False data by metis
  qed
qed

section \<open>Blocks and extents\<close>

lemma crc32_append: "crc32 (xs @ ys) = crc32_next ys (crc32 xs)"
  by (simp add: crc32_def crc32_next_append)

text \<open>Within an extent: the chunks stand for the first \<open>n\<close> bytes of the input.\<close>

definition in_extent :: "string \<Rightarrow> nat \<Rightarrow> bytes \<Rightarrow> inode \<Rightarrow> nat \<Rightarrow> sparse_state \<Rightarrow> world \<Rightarrow> bool" where
  "in_extent out bs hdr src n st w \<longleftrightarrow> (\<exists>cs cur. writing out bs hdr cs cur st w \<and>
     chunks_data bs (cs @ cur_list cur) = map (fdata src) [0..<n]) \<and> st_crc st = crc32 (map (fdata src) [0..<n])"

lemma writing_fs: "writing out bs hdr cs cur st w \<Longrightarrow> fs w' = fs w \<Longrightarrow> writing out bs hdr cs cur st w'"
  unfolding writing_def file_is_def by (cases cur) simp_all

lemma in_extent_fs: "in_extent out bs hdr src n st w \<Longrightarrow> fs w' = fs w \<Longrightarrow> in_extent out bs hdr src n st w'"
  unfolding in_extent_def using writing_fs by blast

definition block_size_ok :: "u32 \<Rightarrow> bool" where
  "block_size_ok bs \<longleftrightarrow> bs \<noteq> 0 \<and> bs mod 512 = 0"

lemma block_size_bounds:
  assumes "block_size_ok bs" shows "unat bs \<noteq> 0" "512 dvd unat bs" "4 dvd unat bs" "unat bs \<le> 2 ^ 32 - 512"
proof -
  show nz: "unat bs \<noteq> 0" using assms by (simp add: block_size_ok_def unat_eq0)
  have "unat bs mod 512 = 0" using assms unat_mod_distrib [of bs 512] by (simp add: block_size_ok_def del: mod_0_imp_dvd)
  then show d: "512 dvd unat bs" by (rule mod_0_imp_dvd)
  show "4 dvd unat bs" by (rule dvd_trans [OF _ d]) simp
  obtain k where k: "unat bs = 512 * k" using d by blast
  have "unat bs < 2 ^ 32" using unsigned_less [where ?'a = nat, of bs] by simp
  then show "unat bs \<le> 2 ^ 32 - 512" using k by simp
qed

lemma sparse_block_ok:
  assumes i: "in_extent out bs hdr src n st w" and bs: "bs = unat bsw" "block_size_ok bsw"
    and r: "r @ zeros (bs - length r) = map (fdata src) [n..<n + bs]"
    and ok: "sparse_block out bsw r st w = (Inr st', w')"
  shows "in_extent out bs hdr src (n + bs) st' w' \<and> st_block st' = st_block st \<and> same_but out w w'"
proof -
  let ?buf = "map (fdata src) [n..<n + bs]" and ?st = "st\<lparr>st_crc := crc32_next (map (fdata src) [n..<n + bs]) (st_crc st)\<rparr>"
  note b = block_size_bounds [OF bs(2), folded bs(1)]
  obtain cs cur where w: "writing out bs hdr cs cur st w" and d: "chunks_data bs (cs @ cur_list cur) = map (fdata src) [0..<n]"
    and c: "st_crc st = crc32 (map (fdata src) [0..<n])" using i by (auto simp: in_extent_def)
  have w1: "writing out bs hdr cs cur ?st w" using w by (simp add: writing_def counted_def split: option.splits)
  have "(if is_fill bs ?buf then fill_block out ?buf ?st else raw_block out bsw ?buf ?st) w = (Inr st', w')"
    using ok unfolding sparse_block_def Let_def bs(1) [symmetric] r by (cases "is_fill bs ?buf") simp_all
  then have "block_added out bs hdr (cs @ cur_list cur) ?buf ?st w st' w'"
    using fill_block_ok [OF w1, of ?buf st' w'] raw_block_ok [OF w1 bs(1) b(1,4), of ?buf st' w'] b
    by (cases "is_fill bs ?buf") simp_all
  then obtain cs' cur' where w': "writing out bs hdr cs' cur' st' w'"
    and d': "chunks_data bs (cs' @ cur_list cur') = chunks_data bs (cs @ cur_list cur) @ ?buf"
    and r': "st_crc st' = st_crc ?st" "st_block st' = st_block ?st" "same_but out w w'"
    unfolding block_added_def by blast
  have e: "map (fdata src) [0..<n] @ ?buf = map (fdata src) [0..<n + bs]"
    by (simp add: upt_add_eq_append [of 0 n bs, simplified])
  have "st_crc st' = crc32 (map (fdata src) [0..<n + bs])" using r'(1) c unfolding e [symmetric] crc32_append by simp
  then show ?thesis using w' d' r'(2,3) unfolding in_extent_def d e by auto
qed

lemma up_block: "0 < bs \<Longrightarrow> bs dvd n \<Longrightarrow> 0 < k \<Longrightarrow> k \<le> bs \<Longrightarrow> up bs (n + k) = n + bs"
proof -
  assume a: "0 < bs" "bs dvd n" "0 < k" "k \<le> bs"
  obtain m where m: "n = bs * m" using a(2) by blast
  have "n + k + bs - 1 = (k - 1) + bs * (m + 1)" using a(3) by (simp add: m)
  moreover have "((k - 1) + bs * (m + 1)) div bs = m + 1" using a by (subst div_mult_self2) auto
  ultimately show ?thesis by (simp add: up_def m)
qed

lemma sparse_data_ok:
  "sparse_data out infile bsw sz pos st w = (Inr st', w') \<Longrightarrow> bs = unat bsw \<Longrightarrow> block_size_ok bsw \<Longrightarrow>
   in_extent out bs hdr src (unat pos) st w \<Longrightarrow> bs dvd unat pos \<Longrightarrow> fs w infile = Some src \<Longrightarrow> infile \<noteq> out \<Longrightarrow>
   wf_inode src \<Longrightarrow> unat pos + unat sz \<le> fsize src \<Longrightarrow> bs dvd unat pos + unat sz \<or> unat pos + unat sz = fsize src \<Longrightarrow>
   in_extent out bs hdr src (up bs (unat pos + unat sz)) st' w' \<and> st_block st' = st_block st \<and> same_but out w w'"
proof (induction out infile bsw sz pos st w arbitrary: st' w' rule: sparse_data.induct)
  case (1 out infile bsw sz pos st w)
  note ok = "1.prems"(1) [unfolded sparse_data.simps [of out infile bsw sz pos st w]]
  have b: "0 < bs" "bsw \<noteq> 0" using block_size_bounds(1) "1.prems"(2,3) by (auto simp: block_size_ok_def)
  show ?case
  proof (cases "sz = 0")
    case True
    then show ?thesis using ok "1.prems"(4,5) up_dvd [OF b(1)] by (simp add: same_but_refl)
  next
    case nz: False
    let ?now = "min_ull sz (ucast bsw)"
    have now: "unat ?now = min (unat sz) bs" by (simp add: unat_ucast32 "1.prems"(2))
    obtain r w1 where p: "sys_pread infile (unat ?now) pos w = (Inr r, w1)" and lr: "length r = unat ?now"
      and ok2: "(case sparse_block out bsw r st w1 of (Inl e, w2) \<Rightarrow> (Inl e, w2)
         | (Inr st', w2) \<Rightarrow> sparse_data out infile bsw (sz - ?now) (pos + ?now) st' w2) = (Inr st', w')"
      using ok nz b(2) by (auto simp: Let_def split: prod.splits sum.splits if_splits)
    obtain st1 w2 where blk: "sparse_block out bsw r st w1 = (Inr st1, w2)"
      and rec: "sparse_data out infile bsw (sz - ?now) (pos + ?now) st1 w2 = (Inr st', w')"
      using ok2 by (auto split: prod.splits sum.splits)
    have rd: "fs w1 = fs w \<and> r = map (fdata src) [unat pos..<unat pos + length r]"
      using sys_pread_ok [OF p] "1.prems"(6) by auto
    have i1: "in_extent out bs hdr src (unat pos) st w1"
      using in_extent_fs [OF "1.prems"(4)] rd by blast
    have z: "fdata src i = 0" if "fsize src \<le> i" for i using "1.prems"(8) that by (simp add: wf_inode_def)
    have short: "unat pos + unat sz = fsize src" if "unat sz < bs"
    proof -
      have "0 < unat sz" using nz unat_eq0 [of sz] by simp
      then have "\<not> bs dvd unat sz" using that by (rule nat_dvd_not_less)
      then show ?thesis using "1.prems"(5,10) by (simp add: dvd_add_right_iff)
    qed
    have buf: "r @ zeros (bs - length r) = map (fdata src) [unat pos..<unat pos + bs]"
    proof (cases "unat sz < bs")
      case True
      have "map (fdata src) [unat pos..<unat pos + bs] =
          map (fdata src) [unat pos..<unat pos + length r] @ map (fdata src) [unat pos + length r..<unat pos + bs]"
        using upt_add_eq_append [of "unat pos" "unat pos + length r" "bs - length r"] True lr now by simp
      moreover have "map (fdata src) [unat pos + length r..<unat pos + bs] = zeros (bs - length r)"
        using z short [OF True] True lr now by (intro nth_equalityI) (auto simp: zeros_def)
      ultimately show ?thesis using rd by simp
    qed (use rd lr now in \<open>simp add: zeros_def\<close>)
    note s1 = sparse_block_ok [OF i1 "1.prems"(2,3) buf blk]
    show ?thesis
    proof (cases "unat sz \<le> bs")
      case True
      then have "sz - ?now = 0" using now by (simp add: word_unat_eq_iff unat_sub64)
      then have "st' = st1" "w' = w2" using rec by (simp_all add: sparse_data.simps)
      moreover have "up bs (unat pos + unat sz) = unat pos + bs"
        using up_block [OF b(1) "1.prems"(5) _ True] nz unat_eq0 [of sz] by simp
      ultimately show ?thesis using s1 rd same_but_trans [OF same_but_refl] by auto
    next
      case False
      have n: "unat ?now = bs" using False now by simp
      have sz': "unat (sz - ?now) = unat sz - bs" using False n by (simp add: unat_sub64)
      have "unat pos + bs < 2 ^ 64" using False "1.prems"(8,9) by (simp add: wf_inode_def off_max_def)
      then have pos': "unat (pos + ?now) = unat pos + bs" using n by (simp add: unat_add64)
      have sum: "unat (pos + ?now) + unat (sz - ?now) = unat pos + unat sz" using sz' pos' False by simp
      have "in_extent out bs hdr src (up bs (unat pos + unat sz)) st' w' \<and> st_block st' = st_block st1 \<and> same_but out w2 w'"
        unfolding sum [symmetric]
      proof (rule "1.IH" [OF nz b(2) refl p [symmetric] refl _ blk [symmetric] refl rec "1.prems"(2,3)])
        show "\<not> length r \<noteq> unat ?now" using lr by simp
        show "in_extent out bs hdr src (unat (pos + ?now)) st1 w2" using s1 pos' by simp
        show "bs dvd unat (pos + ?now)" using pos' "1.prems"(5) by simp
        show "fs w2 infile = Some src" using s1 rd "1.prems"(6,7) by (simp add: same_but_def)
      qed (use sum "1.prems"(7-10) in simp_all)
      then show ?thesis using s1 rd by (auto simp: same_but_def)
    qed
  qed
qed

section \<open>The whole image\<close>

definition complete :: "string \<Rightarrow> nat \<Rightarrow> bytes \<Rightarrow> inode \<Rightarrow> nat \<Rightarrow> sparse_state \<Rightarrow> world \<Rightarrow> bool" where
  "complete out bs hdr src n st w \<longleftrightarrow> (\<exists>cs. written out bs hdr cs st w \<and>
     chunks_data bs cs = map (fdata src) [0..<n]) \<and> st_crc st = crc32 (map (fdata src) [0..<n])"

lemma complete_fs: "complete out bs hdr src n st w \<Longrightarrow> fs w' = fs w \<Longrightarrow> complete out bs hdr src n st w'"
  by (auto simp: complete_def written_def file_is_def)

lemma zeros_append: "zeros a @ zeros b = zeros (a + b)"
  by (simp add: zeros_def replicate_add)

lemma crc32_zeros: "((\<lambda>c. crc32_next (zeros bs) c) ^^ k) (crc32 d) = crc32 (d @ zeros (k * bs))"
proof (induction k)
  case (Suc k)
  have "zeros (Suc k * bs) = zeros (k * bs) @ zeros bs" by (simp add: zeros_append add.commute)
  then show ?case using Suc crc32_append [of "d @ zeros (k * bs)" "zeros bs"] by simp
qed (simp add: zeros_def)

lemma data_zeros:
  assumes "\<And>i. n \<le> i \<Longrightarrow> i < n + k \<Longrightarrow> fdata src i = 0"
  shows "map (fdata src) [0..<n] @ zeros k = map (fdata src) [0..<n + k]"
proof -
  have "map (fdata src) [n..<n + k] = zeros k" using assms by (intro nth_equalityI) (simp_all add: zeros_def)
  then show ?thesis by (simp add: upt_add_eq_append [of 0 n k, simplified])
qed

lemma skip_chunk_ok:
  assumes c: "complete out bs hdr src n st w" and bs: "bs = unat bsw" and k: "k \<noteq> 0"
    and z: "\<And>i. n \<le> i \<Longrightarrow> i < n + unat k * bs \<Longrightarrow> fdata src i = 0"
    and ok: "skip_chunk out bsw k st w = (Inr st', w')"
  shows "complete out bs hdr src (n + unat k * bs) st' w' \<and> st_block st' = st_block st \<and> same_but out w w'"
proof -
  obtain cs where w: "written out bs hdr cs st w" and d: "chunks_data bs cs = map (fdata src) [0..<n]"
    and r: "st_crc st = crc32 (map (fdata src) [0..<n])" using c by (auto simp: complete_def)
  let ?h = "\<lparr>ck_type = SPARSE_DONT_CARE, ck_blocks = k, ck_size = 12\<rparr>"
  have f: "file_is out (hdr @ chunks_bytes bs cs) w" and a: "st_at st = word_of_nat (length (hdr @ chunks_bytes bs cs))"
    and n: "counted bs cs st" using w by (simp_all add: written_def)
  obtain at where g: "flush_header out ?h None (st_at st) w = (Inr at, w')"
    and st': "st' = st\<lparr>st_chunks := st_chunks st + 1, st_at := at, st_chunk := ?h,
      st_crc := ((\<lambda>c. crc32_next (zeros (unat bsw)) c) ^^ unat k) (st_crc st)\<rparr>"
    using ok unfolding skip_chunk_def Let_def bind_io_ok ret_ok by blast
  have t: "ck_type ?h \<noteq> 0" by (simp add: SPARSE_DONT_CARE_def)
  have k0: "0 < unat k" using k unat_eq0 [of k] by simp
  note e = flush_header_end [OF g [unfolded a] t f]
  have b: "chunk_bytes bs (Skip (unat k)) = chunk_header_bytes ?h" by (simp add: chunk_bytes_def)
  have "written out bs hdr (cs @ [Skip (unat k)]) st' w'"
    using e(1,2) n k0 by (auto simp: written_def b st' counted_def add.commute)
  moreover have "chunks_data bs (cs @ [Skip (unat k)]) = map (fdata src) [0..<n + unat k * bs]"
    using data_zeros [OF z] d by simp
  moreover have "st_crc st' = crc32 (map (fdata src) [0..<n + unat k * bs])"
    using crc32_zeros [where bs = bs and k = "unat k" and d = "map (fdata src) [0..<n]"]
      data_zeros [of n "unat k * bs" src, OF z] r by (simp add: st' bs)
  ultimately show ?thesis using e(3) unfolding complete_def by (auto simp: st')
qed

lemma unat_ucast_64_32: "unat (x :: u64) < 2 ^ 32 \<Longrightarrow> unat (ucast x :: u32) = unat x"
  by (simp add: unsigned_ucast_eq take_bit_eq_mod)

lemma sparse_extent_ok:
  assumes c: "complete out bs hdr src n st w" and bs: "bs = unat bsw" "block_size_ok bsw"
    and n: "n = unat (st_block st) * bs" and e: "aligned bs (fsize src) e" "unat (ext_start e) < unat (ext_end e)" "n \<le> unat (ext_start e)"
    and z: "\<And>i. n \<le> i \<Longrightarrow> i < unat (ext_start e) \<Longrightarrow> fdata src i = 0"
    and src: "fs w infile = Some src" "infile \<noteq> out" "wf_inode src" and sz: "fsize src < 2 ^ 31 * bs"
    and ok: "sparse_extent out infile bsw e st w = (Inr st', w')"
  shows "complete out bs hdr src (up bs (unat (ext_end e))) st' w' \<and>
    unat (st_block st') * bs = up bs (unat (ext_end e)) \<and> same_but out w w'"
proof -
  note b = block_size_bounds [OF bs(2), folded bs(1)]
  have al: "bs dvd unat (ext_start e)" "unat (ext_end e) \<le> fsize src" "bs dvd unat (ext_end e) \<or> unat (ext_end e) = fsize src"
    using e(1) by (simp_all add: aligned_def)
  let ?sb = "ucast (ext_start e div ucast bsw) :: u32" and ?sz = "ext_end e - ext_start e"
  have s: "unat (ext_start e) div bs * bs = unat (ext_start e)" using al(1) by simp
  have "unat (ext_start e) div bs < 2 ^ 31"
    using al(2) e(2) sz by (intro less_mult_imp_div_less) simp
  then have sb: "unat ?sb = unat (ext_start e) div bs" "unat (ucast ?sb :: u64) = unat (ext_start e) div bs"
    using unat_ucast_64_32 [of "ext_start e div ucast bsw"] by (simp_all add: unat_div64 unat_ucast32 bs(1))
  have usz: "unat ?sz = unat (ext_end e) - unat (ext_start e)" using e(2) by (intro unat_sub64) simp
  then have nz: "?sz \<noteq> 0" using e(2) by auto
  let ?go = "\<lambda>st1. bind_io (sys_seek (ext_start e)) (\<lambda>_.
        bind_io (sparse_data out infile bsw ?sz (ext_start e)
          (st1\<lparr>st_chunk := (st_chunk st1)\<lparr>ck_type := 0, ck_blocks := 0\<rparr>, st_pos := st_at st1, st_fill := zeros 4\<rparr>)) (\<lambda>st2.
        bind_io (flush_header out (st_chunk st2) (Some (st_pos st2)) (st_at st2)) (\<lambda>at.
          ret (st2\<lparr>st_at := at, st_block := blocks_of (ucast bsw) (ext_end e)\<rparr>))))"
  obtain st1 w1 where first: "(if st_block st < ucast ?sb then
             bind_io (skip_chunk out bsw (ucast (ucast ?sb - st_block st)) st) (\<lambda>st1. ret (st1\<lparr>st_block := ucast ?sb\<rparr>))
           else ret st) w = (Inr st1, w1)" and go: "?go st1 w1 = (Inr st', w')"
    using ok nz unfolding sparse_extent_def Let_def by (auto simp: bind_io_ok)
  have c1: "complete out bs hdr src (unat (ext_start e)) st1 w1 \<and> same_but out w w1"
  proof (cases "st_block st < ucast ?sb")
    case True
    let ?k = "ucast (ucast ?sb - st_block st) :: u32"
    obtain st0 where sk: "skip_chunk out bsw ?k st w = (Inr st0, w1)" and st1: "st1 = st0\<lparr>st_block := ucast ?sb\<rparr>"
      using first True by (auto simp: io_ok)
    have lt: "unat (st_block st) < unat (ext_start e) div bs" using True sb(2) by (simp add: word_less_nat_alt)
    have "unat (ucast ?sb - st_block st) = unat (ext_start e) div bs - unat (st_block st)"
      using lt sb(2) by (subst unat_sub64) auto
    then have uk: "unat ?k = unat (ext_start e) div bs - unat (st_block st)"
      using \<open>unat (ext_start e) div bs < 2 ^ 31\<close> by (subst unat_ucast_64_32) simp_all
    then have k0: "?k \<noteq> 0" using lt by auto
    have "n \<le> unat (ext_start e)" using mult_le_mono1 [of "unat (st_block st)" _ bs] lt s n by (metis less_imp_le)
    then have nk: "n + unat ?k * bs = unat (ext_start e)" using uk n s by (simp add: diff_mult_distrib)
    have "complete out bs hdr src (n + unat ?k * bs) st0 w1 \<and> st_block st0 = st_block st \<and> same_but out w w1"
      by (rule skip_chunk_ok [OF c bs(1) k0 _ sk]) (use z nk in auto)
    then show ?thesis unfolding nk st1 by (auto simp: complete_def written_def counted_def)
  next
    case False
    then have st1: "st1 = st" "w1 = w" using first by (simp_all add: ret_ok)
    have "unat (ext_start e) div bs \<le> unat (st_block st)" using False sb(2) by (simp add: word_less_nat_alt)
    then have "unat (ext_start e) \<le> n" using n s by (metis mult_le_mono1)
    then show ?thesis using c e(3) st1 by (simp add: same_but_refl)
  qed
  obtain cs where w1: "written out bs hdr cs st1 w1" and d1: "chunks_data bs cs = map (fdata src) [0..<unat (ext_start e)]"
    and r1: "st_crc st1 = crc32 (map (fdata src) [0..<unat (ext_start e)])" using c1 by (auto simp: complete_def)
  let ?st2 = "st1\<lparr>st_chunk := (st_chunk st1)\<lparr>ck_type := 0, ck_blocks := 0\<rparr>, st_pos := st_at st1, st_fill := zeros 4\<rparr>"
  obtain w2 st3 w3 at where sk: "sys_seek (ext_start e) w1 = (Inr (), w2)"
    and da: "sparse_data out infile bsw ?sz (ext_start e) ?st2 w2 = (Inr st3, w3)"
    and fl: "flush_header out (st_chunk st3) (Some (st_pos st3)) (st_at st3) w3 = (Inr at, w')"
    and st': "st' = st3\<lparr>st_at := at, st_block := blocks_of (ucast bsw) (ext_end e)\<rparr>"
    using go unfolding bind_io_ok ret_ok by auto
  have f2: "fs w2 = fs w1" by (rule sys_seek_ok [OF sk])
  have "writing out bs hdr cs None ?st2 w2"
    using w1 f2 by (simp add: writing_def written_def counted_def file_is_def)
  then have i2: "in_extent out bs hdr src (unat (ext_start e)) ?st2 w2"
    unfolding in_extent_def using d1 r1 by (intro conjI exI [of _ cs] exI [of _ None]) (simp_all add: cur_list_def)
  have sum: "unat (ext_start e) + unat ?sz = unat (ext_end e)" using usz e(2) by simp
  have "fs w2 infile = Some src" using src(1,2) c1 f2 by (simp add: same_but_def)
  then have i3: "in_extent out bs hdr src (up bs (unat (ext_end e))) st3 w3 \<and> st_block st3 = st_block ?st2 \<and> same_but out w2 w3"
    using sparse_data_ok [OF da bs i2 al(1) _ src(2,3), unfolded sum] al(2,3) by blast
  then obtain cs3 cur where w3: "writing out bs hdr cs3 cur st3 w3"
    and d3: "chunks_data bs (cs3 @ cur_list cur) = map (fdata src) [0..<up bs (unat (ext_end e))]"
    and r3: "st_crc st3 = crc32 (map (fdata src) [0..<up bs (unat (ext_end e))])" by (auto simp: in_extent_def)
  note fc = flush_current [OF w3 fl]
  have "written out bs hdr (cs3 @ cur_list cur) st' w'"
    using fc(1,2) w3 by (simp add: written_def st' writing_def counted_def cur_list_def split: option.splits)
  then have "complete out bs hdr src (up bs (unat (ext_end e))) st' w'"
    unfolding complete_def using d3 r3 by (auto simp: st')
  moreover have "unat (st_block st') * bs = up bs (unat (ext_end e))"
  proof -
    have "unat (ext_end e) \<le> off_max" using al(2) src(3) by (simp add: wf_inode_def)
    have "unat (ext_end e) + bs \<le> 2 ^ 63"
      using al(2) sz b(4) mult_le_mono2 [of bs "2 ^ 32 - 512" "2 ^ 31 :: nat"] by simp
    then have "unat (blocks_of (ucast bsw) (ext_end e)) = (unat (ext_end e) + bs - 1) div bs"
      using unat_blocks_of(1) [of "ucast bsw" "ext_end e"] b(1) by (simp add: unat_ucast32 bs(1) word_less_nat_alt)
    then show ?thesis by (simp add: st' up_def)
  qed
  ultimately show ?thesis using c1 f2 i3 fc(3) by (auto simp: same_but_def)
qed

end
