(* ===== verification/SparseProps.thy ===== *)
theory SparseProps
  imports SparseWriter HdImages
begin

text \<open>
  The whole of an Android sparse image: the loop over the extents, the rest after it, the checksum and the
  second header, and the handler, whose output is read back as its input.
\<close>

section \<open>The loop over the extents\<close>

lemma sparse_extents_ok:
  assumes bs: "bs = unat bsw" "block_size_ok bsw"
    and src: "infile \<noteq> out" "wf_inode src" and sz: "fsize src < 2 ^ 31 * bs"
  shows "sparse_extents out infile bsw es st w = (Inr st', w') \<Longrightarrow>
    complete out bs hdr src n st w \<Longrightarrow> n = unat (st_block st) * bs \<Longrightarrow> n \<le> up bs (fsize src) \<Longrightarrow> tiled bs (fsize src) es \<Longrightarrow>
    (\<forall>e \<in> set es. ext_end e \<noteq> 0 \<longrightarrow> n \<le> unat (ext_start e) \<or> ext_start e = ext_end e) \<Longrightarrow>
    (\<forall>i \<ge> n. fdata src i \<noteq> 0 \<longrightarrow> (\<exists>e \<in> set es. holds_byte e i)) \<Longrightarrow> fs w infile = Some src \<Longrightarrow>
    \<exists>n'. complete out bs hdr src n' st' w' \<and> n' = unat (st_block st') * bs \<and> n' \<le> up bs (fsize src) \<and>
      (\<forall>i \<ge> n'. fdata src i = 0) \<and> same_but out w w'"
proof (induction es arbitrary: n st w)
  case Nil
  then have "st' = st" "w' = w" by (simp_all add: ret_ok)
  then show ?case using Nil by (auto simp: same_but_refl)
next
  case (Cons e es)
  note b = block_size_bounds [OF bs(2), folded bs(1)]
  have b0: "0 < bs" using b(1) by simp
  obtain st1 w1 where o1: "sparse_extent out infile bsw e st w = (Inr st1, w1)"
    and o2: "sparse_extents out infile bsw es st1 w1 = (Inr st', w')"
    using Cons.prems(1) by (auto simp: bind_io_ok)
  have al: "aligned bs (fsize src) e" and t: "tiled bs (fsize src) es" and so: "\<forall>a \<in> set es. in_order e a"
    using Cons.prems(5) by (auto simp: tiled_def)
  show ?case
  proof (cases "ext_start e = ext_end e")
    case True
    then have "st1 = st" "w1 = w" using o1 by (simp_all add: sparse_extent_def ret_ok)
    then have o: "sparse_extents out infile bsw es st w = (Inr st', w')" using o2 by simp
    have "\<not> holds_byte e i" for i using True by (auto simp: holds_byte_def)
    then have z: "\<forall>i \<ge> n. fdata src i \<noteq> 0 \<longrightarrow> (\<exists>e \<in> set es. holds_byte e i)" using Cons.prems(7) by auto
    have m: "\<forall>e \<in> set es. ext_end e \<noteq> 0 \<longrightarrow> n \<le> unat (ext_start e) \<or> ext_start e = ext_end e" using Cons.prems(6) by simp
    show ?thesis by (rule Cons.IH [OF o Cons.prems(2-4) t m z Cons.prems(8)])
  next
    case False
    have le: "unat (ext_start e) < unat (ext_end e)" using False al by (simp add: aligned_def le_less word_unat_eq_iff)
    then have n: "n \<le> unat (ext_start e)" using Cons.prems(6) False by auto
    let ?n = "up bs (unat (ext_end e))"
    have z: "fdata src i = 0" if "n \<le> i" "i < unat (ext_start e)" for i
    proof (rule ccontr)
      assume "fdata src i \<noteq> 0"
      then obtain a where a: "a \<in> set (e # es)" "holds_byte a i" using Cons.prems(7) \<open>n \<le> i\<close> by blast
      then have "a \<in> set es" "in_order e a" using so that by (auto simp: holds_byte_def)
      then show False using a(2) that le by (auto simp: holds_byte_def in_order_def)
    qed
    have s: "complete out bs hdr src ?n st1 w1 \<and> unat (st_block st1) * bs = ?n \<and> same_but out w w1"
      by (rule sparse_extent_ok [OF Cons.prems(2) bs Cons.prems(3) al le n z Cons.prems(8) src sz o1])
    have end_le: "unat (ext_end e) \<le> fsize src" using al by (simp add: aligned_def)
    have later: "?n \<le> unat (ext_start a) \<or> ext_start a = ext_end a" if a: "a \<in> set es" "ext_end a \<noteq> 0" for a
    proof -
      have lt: "unat (ext_end e) < unat (ext_start a)" using so a by (auto simp: in_order_def)
      have aa: "aligned bs (fsize src) a" using t a(1) by (simp add: tiled_def)
      have "unat (ext_start a) \<le> fsize src" using aa by (simp add: aligned_def)
      then have "bs dvd unat (ext_end e)" using al lt by (auto simp: aligned_def)
      then show ?thesis using lt up_dvd [OF b0] by simp
    qed
    have rest: "\<forall>i \<ge> ?n. fdata src i \<noteq> 0 \<longrightarrow> (\<exists>e \<in> set es. holds_byte e i)"
    proof (intro allI impI)
      fix i assume i: "?n \<le> i" "fdata src i \<noteq> 0"
      have "unat (ext_end e) \<le> i" using up_bounds(1) [OF b0, of "unat (ext_end e)"] i(1) by simp
      then have "n \<le> i" "\<not> holds_byte e i" using n le by (auto simp: holds_byte_def)
      then show "\<exists>e \<in> set es. holds_byte e i" using Cons.prems(7) i(2) by auto
    qed
    have s1: "fs w1 infile = Some src" using s Cons.prems(8) src(1) by (simp add: same_but_def)
    have ih: "\<exists>n'. complete out bs hdr src n' st' w' \<and> n' = unat (st_block st') * bs \<and> n' \<le> up bs (fsize src) \<and>
        (\<forall>i \<ge> n'. fdata src i = 0) \<and> same_but out w1 w'"
    proof (rule Cons.IH [OF o2 _ _ _ t _ rest s1])
      show "\<forall>e \<in> set es. ext_end e \<noteq> 0 \<longrightarrow> ?n \<le> unat (ext_start e) \<or> ext_start e = ext_end e" using later by blast
    qed (use s up_mono [OF end_le, of bs] in simp_all)
    then obtain n' where "complete out bs hdr src n' st' w'" "n' = unat (st_block st') * bs" "n' \<le> up bs (fsize src)"
      "\<forall>i \<ge> n'. fdata src i = 0" "same_but out w1 w'" by (elim exE conjE)
    moreover have "same_but out w w'" using s \<open>same_but out w1 w'\<close> same_but_trans by blast
    ultimately show ?thesis by (intro exI conjI)
  qed
qed

lemma blocky_small:
  assumes "\<forall>c \<in> set cs. blocky bs c" "4 dvd bs" "0 < bs" "length (chunks_data bs cs) < 2 ^ 32 * bs"
  shows "length cs < 2 ^ 32"
proof -
  have "length cs * bs < 2 ^ 32 * bs" using blocky_count [OF assms(1-3)] assms(4) by linarith
  then show ?thesis using assms(3) mult_less_cancel2 by blast
qed

lemma chunks_ok_append: "chunks_ok bs out (xs @ ys) \<longleftrightarrow> chunks_ok bs out xs \<and> chunks_ok bs (out @ chunks_data bs xs) ys"
  by (induction xs arbitrary: out) (auto simp: chunks_data_def)

lemma length_sparse_header [simp]: "length (sparse_header_bytes b t n) = 28"
  by (simp add: sparse_header_bytes_def)

text \<open>After the extents.\<close>

lemma sparse_tail_ok:
  assumes c: "complete out bs hdr src n st w" and bs: "bs = unat bsw" "block_size_ok bsw"
    and n: "n = unat (st_block st) * bs" "n \<le> up bs N" and z: "\<And>i. n \<le> i \<Longrightarrow> fdata src i = 0"
    and sz: "N < 2 ^ 31 * bs" and tot: "unat tot * bs = up bs N"
    and ok: "sparse_tail out bsw tot st w = (Inr st', w')"
  shows "complete out bs hdr src (up bs N) st' w' \<and> same_but out w w'"
proof -
  note b = block_size_bounds [OF bs(2), folded bs(1)]
  have b0: "0 < bs" using b(1) by simp
  show ?thesis
  proof (cases "st_block st < tot")
    case True
    have "unat tot * bs < 2 ^ 32 * bs" using up_bounds(2) [OF b0, of N] sz unfolding tot by simp
    then have "unat tot < 2 ^ 32" using b0 mult_less_cancel2 by blast
    moreover have sub: "unat (tot - st_block st) = unat tot - unat (st_block st)"
      using True by (intro unat_sub64) (simp add: word_less_nat_alt)
    ultimately have k: "unat (ucast (tot - st_block st) :: u32) = unat tot - unat (st_block st)"
      by (subst unat_ucast_64_32) simp_all
    have lt: "unat (st_block st) < unat tot" using True by (simp add: word_less_nat_alt)
    then have k0: "(ucast (tot - st_block st) :: u32) \<noteq> 0" using k by auto
    have e: "n + unat (ucast (tot - st_block st) :: u32) * bs = up bs N"
      using n k tot by (simp add: diff_mult_distrib)
    have "skip_chunk out bsw (ucast (tot - st_block st)) st w = (Inr st', w')" using ok True by (simp add: sparse_tail_def)
    from skip_chunk_ok [OF c bs(1) k0 z this] e show ?thesis by simp
  next
    case False
    then have "st' = st" "w' = w" using ok by (simp_all add: sparse_tail_def ret_ok)
    moreover have "unat tot * bs \<le> unat (st_block st) * bs" using False by (intro mult_le_mono1) (simp add: word_less_nat_alt)
    then have "n = up bs N" using n tot by simp
    ultimately show ?thesis using c by (simp add: same_but_refl)
  qed
qed

text \<open>What is in the file before the header is written again.\<close>

definition all_chunks :: "string \<Rightarrow> nat \<Rightarrow> bytes \<Rightarrow> bytes \<Rightarrow> u32 \<Rightarrow> world \<Rightarrow> bool" where
  "all_chunks out bs hdr d n w \<longleftrightarrow> (\<exists>cs. file_is out (hdr @ chunks_bytes bs cs) w \<and> chunks_ok bs [] cs \<and>
     chunks_data bs cs = d \<and> unat n = length cs)"

lemma complete_all:
  assumes c: "complete out bs hdr src n st w" and bs: "4 dvd bs" "0 < bs" and n: "n < 2 ^ 32 * bs"
  shows "all_chunks out bs hdr (map (fdata src) [0..<n]) (st_chunks st) w"
proof -
  obtain cs where w: "written out bs hdr cs st w" and d: "chunks_data bs cs = map (fdata src) [0..<n]"
    using c by (auto simp: complete_def)
  have bl: "\<forall>c \<in> set cs. blocky bs c" "st_chunks st = word_of_nat (length cs)" using w by (simp_all add: written_def counted_def)
  have l: "length (chunks_data bs cs) < 2 ^ 32 * bs" using n d by simp
  have "unat (st_chunks st) = length cs" using bl(2) unat_word32 [OF blocky_small [OF bl(1) bs l]] by simp
  then show ?thesis using w blocky_ok [OF bl(1) bs l] d by (auto simp: all_chunks_def written_def)
qed

lemma sparse_crc_ok:
  assumes c: "complete out bs hdr src n st w" and bs: "4 dvd bs" "0 < bs" and n: "n < (2 ^ 32 - 1) * bs"
    and ok: "sparse_crc out st w = (Inr st', w')"
  shows "all_chunks out bs hdr (map (fdata src) [0..<n]) (st_chunks st') w' \<and> same_but out w w'"
proof -
  let ?h = "\<lparr>ck_type = SPARSE_CRC32, ck_blocks = 0, ck_size = 16\<rparr>"
  obtain cs where w: "written out bs hdr cs st w" and d: "chunks_data bs cs = map (fdata src) [0..<n]"
    and r: "st_crc st = crc32 (map (fdata src) [0..<n])" using c by (auto simp: complete_def)
  let ?c = "hdr @ chunks_bytes bs cs"
  have f: "file_is out ?c w" and a: "st_at st = word_of_nat (length ?c)" and bl: "\<forall>c \<in> set cs. blocky bs c"
    and k: "st_chunks st = word_of_nat (length cs)" using w by (simp_all add: written_def counted_def)
  obtain at1 w1 at2 where g: "flush_header out ?h None (st_at st) w = (Inr at1, w1)"
    and v: "write_data out (le32 (st_crc st)) at1 w1 = (Inr at2, w')"
    and st': "st' = st\<lparr>st_chunks := st_chunks st + 1, st_at := at2, st_chunk := ?h\<rparr>"
    using ok unfolding sparse_crc_def Let_def bind_io_ok ret_ok by blast
  have t: "ck_type ?h \<noteq> 0" by (simp add: SPARSE_CRC32_def)
  note e = flush_header_end [OF g [unfolded a] t f]
  note e2 = write_data_end [OF v [unfolded e(2)] e(1)]
  have fi: "file_is out (hdr @ chunks_bytes bs (cs @ [Crc (st_crc st)])) w'"
    using e2(1) by (simp add: chunk_bytes_def)
  have l: "length (chunks_data bs cs) < 2 ^ 32 * bs" using n d bs(2) by (simp add: algebra_simps)
  have "length cs * bs < (2 ^ 32 - 1) * bs" using blocky_count [OF bl bs] n d by (metis diff_zero le_less_trans length_map length_upt)
  then have "length cs < 2 ^ 32 - 1" using bs(2) mult_less_cancel2 by blast
  then have "Suc (length cs) < 2 ^ 32" by simp
  then have "unat (st_chunks st') = length (cs @ [Crc (st_crc st)])"
    using unat_word32 [of "Suc (length cs)"] k by (simp add: st' add.commute)
  moreover have "chunks_ok bs [] (cs @ [Crc (st_crc st)])"
    using blocky_ok [OF bl bs l] r d by (simp add: chunks_ok_append)
  ultimately show ?thesis
    using fi d same_but_trans [OF e(3) e2(3)] unfolding all_chunks_def
    by (intro conjI exI [of _ "cs @ [Crc (st_crc st)]"]) simp_all
qed

text \<open>The file of the finished image.\<close>

definition sparse_of :: "string \<Rightarrow> bytes \<Rightarrow> world \<Rightarrow> bool" where
  "sparse_of out d w \<longleftrightarrow> (\<exists>y. fs w out = Some y \<and> fkind y = Regular \<and> unsparse (contents y) = Some d)"

lemma crc32_Nil: "crc32 [] = 0"
  by (simp add: crc32_def crc32_next_def)

lemma complete_first:
  "file_is out hdr w \<Longrightarrow> at = word_of_nat (length hdr) \<Longrightarrow> complete out bs hdr src 0 (first_state at) w"
  by (auto simp: complete_def written_def counted_def first_state_def crc32_Nil intro: exI [of _ "[]"])

lemma sparse_write_ok:
  assumes p: "bsw = sp_block_size p" "bs = unat bsw" "block_size_ok bsw" and f: "file_is out [] w"
    and src: "fs w infile = Some src" "infile \<noteq> out" "wf_inode src" and sz: "fsize src < 2 ^ 31 * bs"
    and tot: "unat tot * bs = up bs (fsize src)" and t: "tiled bs (fsize src) es"
    and z: "\<forall>i. fdata src i \<noteq> 0 \<longrightarrow> (\<exists>e \<in> set es. holds_byte e i)"
    and ok: "sparse_write p out infile tot es w = (Inr u, w')"
  shows "sparse_of out (map (fdata src) [0..<up bs (fsize src)]) w' \<and> same_but out w w'"
proof -
  let ?N = "up bs (fsize src)" and ?tot = "ucast tot :: u32"
  let ?hdr = "sparse_header_bytes bsw ?tot 0"
  note b = block_size_bounds [OF p(3), folded p(2)]
  have b0: "0 < bs" using b(1) by simp
  obtain at w1 st1 w2 st2 w3 st3 w4 w5 at' where h: "write_data out ?hdr 0 w = (Inr at, w1)"
    and x: "sparse_extents out infile bsw es (first_state at) w1 = (Inr st1, w2)"
    and l: "sparse_tail out bsw tot st1 w2 = (Inr st2, w3)"
    and c: "(if sp_add_crc p then sparse_crc out st2 else ret st2) w3 = (Inr st3, w4)"
    and s: "sys_seek 0 w4 = (Inr (), w5)"
    and r: "write_data out (sparse_header_bytes bsw ?tot (st_chunks st3)) 0 w5 = (Inr at', w')"
    using ok unfolding sparse_write_def Let_def bind_io_ok p(1) [symmetric] by (auto simp: ret_ok)
  have wh: "file_is out ?hdr w1 \<and> at = word_of_nat (length ?hdr) \<and> same_but out w w1"
    using write_data_file [OF h f] by simp
  have src1: "fs w1 infile = Some src" using wh src(1,2) by (simp add: same_but_def)
  have cf: "complete out bs ?hdr src 0 (first_state at) w1" using wh by (intro complete_first) auto
  obtain n where n: "complete out bs ?hdr src n st1 w2" "n = unat (st_block st1) * bs" "n \<le> ?N"
    and zn: "\<forall>i \<ge> n. fdata src i = 0" and s2: "same_but out w1 w2"
    using sparse_extents_ok [OF p(2,3) src(2,3) sz x cf _ _ t _ _ src1] z by (auto simp: first_state_def)
  note tl = sparse_tail_ok [OF n(1) p(2,3) n(2,3) _ sz tot l]
  have c3: "complete out bs ?hdr src ?N st2 w3" and s3: "same_but out w2 w3" using tl zn by blast+
  have N: "?N < (2 ^ 31 + 1) * bs" using up_bounds(2) [OF b0, of "fsize src"] sz by simp
  have N1: "?N < (2 ^ 32 - 1) * bs" using N b0 by simp
  have N2: "?N < 2 ^ 32 * bs" using N b0 by simp
  have all: "all_chunks out bs ?hdr (map (fdata src) [0..<?N]) (st_chunks st3) w4 \<and> same_but out w3 w4"
  proof (cases "sp_add_crc p")
    case True
    then show ?thesis using sparse_crc_ok [OF c3 b(3) b0 N1] c by simp
  next
    case False
    then show ?thesis using complete_all [OF c3 b(3) b0 N2] c by (simp add: ret_ok same_but_refl)
  qed
  then obtain cs where cs: "file_is out (?hdr @ chunks_bytes bs cs) w4" "chunks_ok bs [] cs"
    "chunks_data bs cs = map (fdata src) [0..<?N]" "unat (st_chunks st3) = length cs" by (auto simp: all_chunks_def)
  have f5: "fs w5 = fs w4" by (rule sys_seek_ok [OF s])
  let ?final = "sparse_header_bytes bsw ?tot (st_chunks st3) @ chunks_bytes bs cs"
  have bk: "\<forall>a b d. ?hdr @ chunks_bytes bs cs = a @ b @ d \<and> length b = length (sparse_header_bytes bsw ?tot (st_chunks st3)) \<and>
      unat (0 :: u64) = length a \<longrightarrow> file_is out (a @ sparse_header_bytes bsw ?tot (st_chunks st3) @ d) w'"
    and s6: "same_but out w5 w'"
    using write_data_file [OF r file_is_fs [OF cs(1) f5]] by blast+
  have fin: "file_is out ?final w'" using bk [rule_format, of "[]" ?hdr "chunks_bytes bs cs"] by simp
  have "unat tot * bs < 2 ^ 32 * bs" using N2 tot by simp
  then have "unat tot < 2 ^ 32" using b0 mult_less_cancel2 by blast
  then have ut: "unat ?tot = unat tot" by (rule unat_ucast_64_32)
  have "unsparse ?final = Some (map (fdata src) [0..<?N])"
    using unsparse_bytes [of bsw cs ?tot "st_chunks st3"] cs(2-4) ut tot b0 by (simp add: p(2) word_less_nat_alt)
  then show ?thesis
    using fin wh s2 s3 all f5 s6 by (auto simp: sparse_of_def file_is_def same_but_def)
qed

section \<open>The answer of the kernel\<close>

text \<open>
  What \<open>FS_IOC_FIEMAP\<close> promises: the extents are in order, do not overlap, begin within the file, and the
  bytes outside of them are zero. The last may end beyond the file.
\<close>

definition fiemap_exact :: "fiemap \<Rightarrow> inode \<Rightarrow> bool" where
  "fiemap_exact fm x \<longleftrightarrow> sorted_wrt (\<lambda>(a, n) (b, m). unat a + unat n \<le> unat b) (fm x) \<and>
     (\<forall>(a, n) \<in> set (fm x). unat a < fsize x \<and> unat a + unat n < 2 ^ 64) \<and>
     (\<forall>i < fsize x. fdata x i \<noteq> 0 \<longrightarrow> (\<exists>(a, n) \<in> set (fm x). unat a \<le> i \<and> i < unat a + unat n))"

lemma fiemap_extents:
  assumes "fiemap_exact fm x" and "unat sz = fsize x"
  shows "extents_ok (fsize x) (clip_last sz (to_extents (fm x))) x"
proof -
  let ?es = "to_extents (fm x)"
  have e: "unat (a + n) = unat a + unat n" if "(a, n) \<in> set (fm x)" for a n
    using assms(1) that by (intro unat_add64) (auto simp: fiemap_exact_def)
  have so: "sorted_wrt (\<lambda>a b. unat (ext_end a) \<le> unat (ext_start b)) ?es"
    unfolding to_extents_def sorted_wrt_map
    by (rule sorted_wrt_mono_rel [where P = "\<lambda>(a, n) (b, m). unat a + unat n \<le> unat b"])
      (use assms(1) e in \<open>auto simp: fiemap_exact_def\<close>)
  have r: "unat (ext_start a) \<le> unat (ext_end a) \<and> unat (ext_start a) < fsize x" if "a \<in> set ?es" for a
    using that assms(1) e by (auto simp: to_extents_def fiemap_exact_def)
  have c: "\<exists>a \<in> set ?es. unat (ext_start a) \<le> i \<and> i < unat (ext_end a)" if "i < fsize x" "fdata x i \<noteq> 0" for i
  proof -
    have "\<exists>(a, n) \<in> set (fm x). unat a \<le> i \<and> i < unat a + unat n"
      using that assms(1) by (simp add: fiemap_exact_def)
    then obtain a n where "(a, n) \<in> set (fm x)" "unat a \<le> i" "i < unat a + unat n" by blast
    then show ?thesis using e unfolding to_extents_def by (intro bexI [of _ "\<lparr>ext_start = a, ext_end = a + n\<rparr>"]) force+
  qed
  show ?thesis
  proof (cases "?es = []")
    case True
    then show ?thesis using c by (auto simp: extents_ok_def clip_last_def)
  next
    case False
    then obtain l a where es: "?es = l @ [a]" by (metis append_butlast_last_id)
    have le: "unat (ext_end b) \<le> fsize x" if "b \<in> set l" for b
      using so r [of a] that unfolding es by (force simp: sorted_wrt_append)
    show ?thesis
    proof (cases "ext_end a > sz")
      case True
      have "\<exists>b \<in> set (l @ [a\<lparr>ext_end := sz\<rparr>]). unat (ext_start b) \<le> i \<and> i < unat (ext_end b)"
        if "i < fsize x" "fdata x i \<noteq> 0" for i
        using c [OF that] that(1) assms(2) unfolding es by auto
      moreover have "unat (ext_start a) \<le> fsize x" using r [of a] unfolding es by simp
      ultimately show ?thesis using so r le assms(2) True unfolding es extents_ok_def clip_last_def
        by (auto simp: sorted_wrt_append)
    next
      case no: False
      then have "unat (ext_end a) \<le> fsize x" using assms(2) by (simp add: word_less_nat_alt)
      then show ?thesis using so r le c no unfolding es extents_ok_def clip_last_def by auto
    qed
  qed
qed

section \<open>The handler\<close>

lemma map_file_extents_fiemap:
  assumes "map_file_extents fm path sz w = (Inr es, w')" and "fs w path = Some x"
    and "fiemap_exact fm x" and "unat sz = fsize x"
  shows "extents_ok (fsize x) es x \<and> fs w' = fs w"
proof -
  have whole: "extents_ok (fsize x) (whole_file_exent sz) x" using assms(4) by (auto simp: extents_ok_def whole_file_exent_def)
  show ?thesis
    using assms(1,2) fiemap_extents [OF assms(3,4)] whole
    unfolding map_file_extents_def try_io_def bind_io_def syscall_def with_file_def fail_def
    by (auto simp: io_ok ret_def throw_def tick_def split: fault.splits option.splits sum.splits if_splits)
qed

lemma setup_block_size:
  "android_sparse_setup sec = Inr p \<Longrightarrow> sp_block_size p \<noteq> 0 \<Longrightarrow> block_size_ok (sp_block_size p)"
  by (auto simp: android_sparse_setup_def block_size_ok_def Let_def rbind_def
      del: mod_0_imp_dvd split: sum.splits if_splits)

text \<open>
  C4: an Android sparse image that was generated with success is read back by a reader of the format as the
  input file, filled up with zeros to a whole number of blocks: the header and every chunk, whose counts and
  sizes are written after the data, are right, holes and repeated values are restored, and the checksum
  chunk, where there is one, is that of the data. Nothing else is changed. The input has less than 2^31
  blocks, and the kernel's map of its extents is right where it is used.
\<close>

lemma android_sparse_roundtrip:
  assumes ok: "android_sparse_generate fm p e w = (Inr e', w')" and su: "android_sparse_setup sec = Inr p"
    and parts: "im_partitions (g_image e) = part # parts" "get_child (g_images e) part w = (Inr inimage, w)"
    and wf: "wf_fs w" and src: "fs w (im_outfile inimage) = Some src" "im_outfile inimage \<noteq> im_outfile (g_image e)"
    and out: "fkind (file_at w (im_outfile (g_image e))) = Regular"
    and sz: "fsize src < 2 ^ 31 * unat (sp_block_size p)" and fm: "fiemap_exact fm src"
  shows "\<exists>y. fs w' (im_outfile (g_image e)) = Some y \<and>
      unsparse (contents y) = Some (map (fdata src) [0..<up (unat (sp_block_size p)) (fsize src)]) \<and>
    (\<forall>q. q \<noteq> im_outfile (g_image e) \<longrightarrow> fs w' q = fs w q)"
proof -
  let ?out = "im_outfile (g_image e)" and ?in = "im_outfile inimage" and ?bs = "sp_block_size p"
  let ?sz = "word_of_nat (fsize src) :: u64" and ?b = "ucast (sp_block_size p) :: u64"
  have nz: "?bs \<noteq> 0" using ok by (auto simp: android_sparse_generate_def Let_def throw_def)
  note bok = setup_block_size [OF su nz]
  note b = block_size_bounds [OF bok]
  have wfi: "wf_inode src" using wf src(1) by (simp add: wf_fs_def)
  have usz: "unat ?sz = fsize src" using wfi by (intro unat_of_nat64) (simp add: wf_inode_def off_max_def)
  obtain w1 s w2 es w3 w4 where o: "sys_open_r ?in w = (Inr (), w1)" and s: "sys_stat ?in w1 = (Inr s, w2)"
    and m: "(if sp_fill_holes p then ret (whole_file_exent (word_of_nat (fsize s)))
       else map_file_extents fm ?in (word_of_nat (fsize s))) w2 = (Inr es, w3)"
    and tr: "open_file ?out True w3 = (Inr (), w4)"
    and wr: "sparse_write p ?out ?in (blocks_of ?b (word_of_nat (fsize s))) (align_extents ?b (word_of_nat (fsize s)) es) w4 = (Inr (), w')"
    using ok nz parts unfolding android_sparse_generate_def Let_def by (auto simp: bind_io_ok ret_ok)
  have f1: "fs w1 = fs w" using sys_open_r_ok [OF o] by simp
  have s2: "s = src" "fs w2 = fs w" using sys_stat_ok [OF s] f1 src(1) by simp_all
  have ex: "extents_ok (fsize src) es src \<and> fs w3 = fs w"
  proof (cases "sp_fill_holes p")
    case True
    then show ?thesis using m s2 usz by (auto simp: ret_ok extents_ok_def whole_file_exent_def)
  next
    case False
    then show ?thesis using map_file_extents_fiemap [of fm ?in ?sz w2 es w3 src] m s2 usz src(1) fm by simp
  qed
  have f4: "fs w4 = (fs w)(?out \<mapsto> resize 0 (file_at w ?out))"
    using open_file_trunc [OF tr] ex out by (simp add: file_at_def)
  have ub: "unat ?b = unat ?bs" by (simp add: unat_ucast32)
  have b1: "0 < ?b" "unat ?b \<le> 2 ^ 32" using b(1,4) ub by (simp_all add: word_less_nat_alt)
  have big: "fsize src + unat ?bs \<le> 2 ^ 63" "unat ?sz \<le> 2 ^ 63 - 2 ^ 32"
    using sz b(4) usz mult_le_mono2 [of "unat ?bs" "2 ^ 32 - 512" "2 ^ 31 :: nat"] by simp_all
  note al = align_extents_ok [of ?sz es src ?b, unfolded usz ub, OF conjunct1 [OF ex] b1(1) _ big(2) [unfolded usz]]
  have t: "tiled (unat ?bs) (fsize src) (align_extents ?b ?sz es)"
    and h: "\<And>i. i < fsize src \<Longrightarrow> fdata src i \<noteq> 0 \<Longrightarrow> \<exists>e \<in> set (align_extents ?b ?sz es). holds_byte e i"
    using al b1(2) ub by simp_all
  have z: "\<forall>i. fdata src i \<noteq> 0 \<longrightarrow> (\<exists>e \<in> set (align_extents ?b ?sz es). holds_byte e i)"
    using h wfi unfolding wf_inode_def by (meson not_le)
  have tot: "unat (blocks_of ?b ?sz) * unat ?bs = up (unat ?bs) (fsize src)"
    using unat_blocks_of(1) [OF b1(1), of ?sz] big(1) usz ub by (simp add: up_def)
  have "contents (resize 0 (file_at w ?out)) = []" by (simp add: contents_def resize_def)
  then have fi: "file_is ?out [] w4" using f4 out by (simp add: file_is_def resize_def)
  have "sparse_of ?out (map (fdata src) [0..<up (unat ?bs) (fsize src)]) w' \<and> same_but ?out w4 w'"
    by (rule sparse_write_ok [OF refl refl bok fi _ src(2) wfi sz tot t z])
      (use f4 src wr s2(1) in simp_all)
  then show ?thesis using f4 by (auto simp: sparse_of_def same_but_def)
qed

section \<open>A concrete image\<close>

lemma length_zeros [simp]: "length (zeros n) = n"
  by (simp add: zeros_def)

definition demo_sparse_cfg :: cfg where
  "demo_sparse_cfg = Cfg [] (\<lambda>k. if k = ''block-size'' then Some ''512'' else None) (\<lambda>_. 0)
     (\<lambda>k. k = ''add-crc'') (\<lambda>_. False) (\<lambda>_. []) (\<lambda>_. [])"

definition demo_sparse_env :: "unit genv" where
  "demo_sparse_env = \<lparr>g_images = [demo_image ''in'' 3],
     g_image = (demo_image ''out'' 0)\<lparr>im_partitions := [(zero_partition 1)\<lparr>p_image := Some ''in''\<rparr>]\<rparr>,
     g_sec = Some demo_sparse_cfg, g_priv = None, g_mountpath = Inl EINVAL, g_tmp = []\<rparr>"

definition demo_sparse :: sparse where
  "demo_sparse = \<lparr>sp_block_size = 512, sp_fill_holes = False, sp_add_crc = True\<rparr>"

lemma demo_512: "strtoul_suffix False ''512'' = Inr (512, False, [])"
  by code_simp

lemma demo_sparse_setup: "android_sparse_setup (Some demo_sparse_cfg) = Inr demo_sparse"
  by (simp add: android_sparse_setup_def demo_sparse_cfg_def demo_sparse_def sec_str_def sec_bool_def cfg_getint_suffix_def demo_512)

lemma demo_align: "align_extents 512 3 (clip_last 3 (to_extents [(0, 3)])) = [\<lparr>ext_start = 0, ext_end = 3\<rparr>]"
  by (simp add: align_extents_def merge_extent_def align_extent_def align_down_def blocks_of_def clip_last_def to_extents_def min_ull_def)

lemma demo_no_fill: "\<not> is_fill 512 ([17, 34, 0] @ zeros 509)"
proof -
  have z: "zeros 509 = 0 # 0 # 0 # 0 # 0 # zeros 504" by (simp add: zeros_def replicate_def numeral_eq_Suc)
  have "1 \<in> set [1..<512 div 4]" by simp
  moreover have "field (4 * 1) 4 ([17, 34, 0] @ zeros 509) \<noteq> field 0 4 ([17, 34, 0] @ zeros 509 :: bytes)"
    by (simp add: z field_def)
  ultimately show ?thesis unfolding is_fill_def list_all_iff by blast
qed

text \<open>In a world where every call succeeds: from a file of \<open>k\<close> bytes \<open>m\<close> returns \<open>a\<close>, and leaves one of \<open>k'\<close>.\<close>

definition at_size :: "nat \<Rightarrow> world \<Rightarrow> bool" where
  "at_size k w \<longleftrightarrow> script w = (\<lambda>_. Pass) \<and> fs w ''in'' = Some demo_src \<and>
     (\<exists>x. fs w ''out'' = Some x \<and> fkind x = Regular \<and> fsize x = k)"

definition run_to :: "nat \<Rightarrow> 'a io \<Rightarrow> 'a \<Rightarrow> nat \<Rightarrow> bool" where
  "run_to k m a k' \<longleftrightarrow> (\<forall>w. at_size k w \<longrightarrow> (\<exists>w'. m w = (Inr a, w') \<and> at_size k' w'))"

lemma run_to_ret: "run_to k (ret a) a k"
  by (simp add: run_to_def ret_def)

lemma bind_io_ret: "bind_io (ret x) f = f x"
  by (rule ext) (simp add: bind_io_def ret_def)

lemma run_to_bind: "run_to k m a k1 \<Longrightarrow> run_to k1 (f a) b k2 \<Longrightarrow> run_to k (bind_io m f) b k2"
  by (fastforce simp: run_to_def bind_io_def)

lemma run_to_write: "unat pos \<le> k \<Longrightarrow> bs \<noteq> [] \<Longrightarrow> k + length bs \<le> 10000 \<Longrightarrow>
  run_to k (write_data ''out'' bs pos) (pos + word_of_nat (length bs)) (max k (unat pos + length bs))"
  by (auto simp: run_to_def at_size_def write_data_def eval_io fsize_write_at)

lemma run_to_seek: "unat pos \<le> 10000 \<Longrightarrow> run_to k (sys_seek pos) () k"
  by (auto simp: run_to_def at_size_def eval_io)

lemma chunk_header_nonempty [simp]: "chunk_header_bytes h \<noteq> []"
  using length_chunk_header_bytes [of h] by (metis list.size(3) zero_neq_numeral)

lemma run_to_header: "ck_type h \<noteq> 0 \<Longrightarrow> unat pos = k \<Longrightarrow> k \<le> 9000 \<Longrightarrow>
  run_to k (flush_header ''out'' h None pos) (pos + 12) (k + 12)"
  using run_to_write [of pos k "chunk_header_bytes h"] by (simp add: flush_header_def max_def)

lemma run_to_end: "run_to k (sys_seek_end ''out'') (word_of_nat k) k"
  unfolding run_to_def at_size_def sys_seek_end_def by (auto simp: eval_io)

lemma run_to_back:
  assumes "ck_type h \<noteq> 0" "unat off + 12 \<le> k" "k \<le> 9000"
  shows "run_to k (flush_header ''out'' h (Some off) pos) (word_of_nat k) k"
proof -
  have m: "max k (unat off + length (chunk_header_bytes h)) = k" using assms(2) by simp
  have w: "run_to k (write_data ''out'' (chunk_header_bytes h) off) (off + word_of_nat (length (chunk_header_bytes h))) k"
    using run_to_write [of off k "chunk_header_bytes h", unfolded m] assms(2,3) by simp
  have "run_to k (bind_io (sys_seek off) (\<lambda>_. bind_io (write_data ''out'' (chunk_header_bytes h) off)
      (\<lambda>_. sys_seek_end ''out''))) (word_of_nat k) k"
  proof (rule run_to_bind)
    show "run_to k (sys_seek off) () k" using assms(2,3) by (intro run_to_seek) simp
    show "run_to k (bind_io (write_data ''out'' (chunk_header_bytes h) off) (\<lambda>_. sys_seek_end ''out'')) (word_of_nat k) k"
      by (rule run_to_bind [OF w]) (rule run_to_end)
  qed
  then show ?thesis using assms(1) by (simp add: flush_header_def)
qed

text \<open>The one block of the input, in the chunk that begins at 28.\<close>

definition demo_buf :: bytes where "demo_buf = [17, 34, 0] @ zeros 509"

definition demo_state :: "sparse_chunk_header \<Rightarrow> u32 \<Rightarrow> u64 \<Rightarrow> sparse_state" where
  "demo_state h n at = \<lparr>st_at = at, st_chunks = n, st_block = 0, st_crc = crc32_next demo_buf 0, st_chunk = h, st_pos = 28,
     st_fill = zeros 4\<rparr>"

lemma demo_raw:
  "run_to 28 (raw_block ''out'' 512 demo_buf (demo_state \<lparr>ck_type = 0, ck_blocks = 0, ck_size = 0\<rparr> 0 28))
     (demo_state \<lparr>ck_type = SPARSE_RAW, ck_blocks = 1, ck_size = 524\<rparr> 1 552) 552"
proof -
  let ?h = "\<lparr>ck_type = SPARSE_RAW, ck_blocks = 0, ck_size = 12\<rparr>"
  have h: "run_to 28 (flush_header ''out'' ?h None 28) 40 40"
    using run_to_header [of ?h 28 28] by (simp add: SPARSE_RAW_def)
  have b: "run_to 28 (begin_chunk ''out'' SPARSE_RAW 12 (demo_state \<lparr>ck_type = 0, ck_blocks = 0, ck_size = 0\<rparr> 0 28))
      (demo_state ?h 1 40) 40"
    unfolding begin_chunk_def Let_def
    by (intro run_to_bind [where a = 28 and ?k1.0 = 28] run_to_bind [where a = 40 and ?k1.0 = 40])
      (use h run_to_ret in \<open>simp_all add: flush_header_def demo_state_def run_to_def ret_def\<close>)
  have w: "run_to 40 (write_data ''out'' demo_buf 40) 552 552"
    using run_to_write [of 40 40 demo_buf] by (simp add: demo_buf_def max_def)
  have c: "(count_block 512 (demo_state ?h 1 40))\<lparr>st_at := 552\<rparr> =
      demo_state \<lparr>ck_type = SPARSE_RAW, ck_blocks = 1, ck_size = 524\<rparr> 1 552"
    by (simp add: count_block_def demo_state_def)
  show ?thesis
    unfolding raw_block_def c [symmetric]
    by (rule run_to_bind [OF _ run_to_bind [OF _ run_to_ret]])
      (use b w in \<open>simp_all add: demo_state_def SPARSE_RAW_def\<close>)
qed

lemma demo_data:
  "run_to 28 (sparse_data ''out'' ''in'' 512 3 0 (first_state 28 \<lparr>st_pos := 28\<rparr>))
     (demo_state \<lparr>ck_type = SPARSE_RAW, ck_blocks = 1, ck_size = 524\<rparr> 1 552) 552"
proof -
  have rd: "run_to 28 (sys_pread ''in'' 3 0) [17, 34, 0] 28"
    by (auto simp: run_to_def at_size_def eval_io demo_src_def upt_conv_Cons)
  have "sparse_block ''out'' 512 [17, 34, 0] (first_state 28 \<lparr>st_pos := 28\<rparr>) =
      raw_block ''out'' 512 demo_buf (demo_state \<lparr>ck_type = 0, ck_blocks = 0, ck_size = 0\<rparr> 0 28)"
    using demo_no_fill by (simp add: sparse_block_def Let_def demo_buf_def demo_state_def first_state_def)
  then have blk: "run_to 28 (sparse_block ''out'' 512 [17, 34, 0] (first_state 28 \<lparr>st_pos := 28\<rparr>))
      (demo_state \<lparr>ck_type = SPARSE_RAW, ck_blocks = 1, ck_size = 524\<rparr> 1 552) 552" using demo_raw by simp
  show ?thesis
    unfolding run_to_def
  proof (intro allI impI)
    fix w assume "at_size 28 w"
    then obtain w1 where p: "sys_pread ''in'' 3 0 w = (Inr [17, 34, 0], w1)" and "at_size 28 w1" using rd by (auto simp: run_to_def)
    then obtain w2 where "sparse_block ''out'' 512 [17, 34, 0] (first_state 28 \<lparr>st_pos := 28\<rparr>) w1 =
        (Inr (demo_state \<lparr>ck_type = SPARSE_RAW, ck_blocks = 1, ck_size = 524\<rparr> 1 552), w2)" "at_size 552 w2"
      using blk by (auto simp: run_to_def)
    then show "\<exists>w'. sparse_data ''out'' ''in'' 512 3 0 (first_state 28 \<lparr>st_pos := 28\<rparr>) w =
        (Inr (demo_state \<lparr>ck_type = SPARSE_RAW, ck_blocks = 1, ck_size = 524\<rparr> 1 552), w') \<and> at_size 552 w'"
      using p by (simp add: sparse_data.simps Let_def min_ull_def)
  qed
qed

lemma demo_extent:
  "run_to 28 (sparse_extents ''out'' ''in'' 512 [\<lparr>ext_start = 0, ext_end = 3\<rparr>] (first_state 28))
     ((demo_state \<lparr>ck_type = SPARSE_RAW, ck_blocks = 1, ck_size = 524\<rparr> 1 552)\<lparr>st_block := 1\<rparr>) 552"
proof -
  let ?h = "\<lparr>ck_type = SPARSE_RAW, ck_blocks = 1, ck_size = 524\<rparr>"
  have f: "run_to 552 (flush_header ''out'' ?h (Some 28) 552) 552 552"
    using run_to_back [of ?h 28 552 552] by (simp add: SPARSE_RAW_def)
  have s: "run_to 28 (sys_seek 0) () 28" by (rule run_to_seek) simp
  have e: "(first_state 28)\<lparr>st_chunk := (st_chunk (first_state 28))\<lparr>ck_type := 0, ck_blocks := 0\<rparr>,
      st_pos := st_at (first_state 28), st_fill := zeros 4\<rparr> = first_state 28 \<lparr>st_pos := 28\<rparr>" by (simp add: first_state_def)
  have r: "run_to 552 (ret ((demo_state ?h 1 552)\<lparr>st_at := 552, st_block := blocks_of (ucast (512 :: u32)) 3\<rparr>))
      ((demo_state ?h 1 552)\<lparr>st_block := 1\<rparr>) 552"
    using run_to_ret by (simp add: demo_state_def blocks_of_def)
  have x: "run_to 28 (sparse_extent ''out'' ''in'' 512 \<lparr>ext_start = 0, ext_end = 3\<rparr> (first_state 28))
      ((demo_state ?h 1 552)\<lparr>st_block := 1\<rparr>) 552"
  proof -
    have "sparse_extent ''out'' ''in'' 512 \<lparr>ext_start = 0, ext_end = 3\<rparr> (first_state 28) =
        bind_io (ret (first_state 28)) (\<lambda>st1. bind_io (sys_seek 0) (\<lambda>_.
        bind_io (sparse_data ''out'' ''in'' 512 3 0
          (st1\<lparr>st_chunk := (st_chunk st1)\<lparr>ck_type := 0, ck_blocks := 0\<rparr>, st_pos := st_at st1, st_fill := zeros 4\<rparr>)) (\<lambda>st2.
        bind_io (flush_header ''out'' (st_chunk st2) (Some (st_pos st2)) (st_at st2)) (\<lambda>at.
          ret (st2\<lparr>st_at := at, st_block := blocks_of (ucast (512 :: u32)) 3\<rparr>)))))"
      by (simp add: sparse_extent_def)
    moreover
    have "run_to 552 (bind_io (flush_header ''out'' (st_chunk (demo_state ?h 1 552)) (Some (st_pos (demo_state ?h 1 552)))
        (st_at (demo_state ?h 1 552))) (\<lambda>at. ret ((demo_state ?h 1 552)\<lparr>st_at := at, st_block := blocks_of (ucast (512 :: u32)) 3\<rparr>)))
        ((demo_state ?h 1 552)\<lparr>st_block := 1\<rparr>) 552"
    proof (rule run_to_bind)
      show "run_to 552 (flush_header ''out'' (st_chunk (demo_state ?h 1 552)) (Some (st_pos (demo_state ?h 1 552)))
        (st_at (demo_state ?h 1 552))) 552 552" using f by (simp add: demo_state_def)
    qed (rule r)
    then have "run_to 28 (bind_io (sparse_data ''out'' ''in'' 512 3 0 (first_state 28 \<lparr>st_pos := 28\<rparr>)) (\<lambda>st2.
        bind_io (flush_header ''out'' (st_chunk st2) (Some (st_pos st2)) (st_at st2)) (\<lambda>at.
          ret (st2\<lparr>st_at := at, st_block := blocks_of (ucast (512 :: u32)) 3\<rparr>))))
        ((demo_state ?h 1 552)\<lparr>st_block := 1\<rparr>) 552" by (rule run_to_bind [OF demo_data])
    then have "run_to 28 (bind_io (sys_seek 0) (\<lambda>_. bind_io (sparse_data ''out'' ''in'' 512 3 0 (first_state 28 \<lparr>st_pos := 28\<rparr>)) (\<lambda>st2.
        bind_io (flush_header ''out'' (st_chunk st2) (Some (st_pos st2)) (st_at st2)) (\<lambda>at.
          ret (st2\<lparr>st_at := at, st_block := blocks_of (ucast (512 :: u32)) 3\<rparr>)))))
        ((demo_state ?h 1 552)\<lparr>st_block := 1\<rparr>) 552" by (rule run_to_bind [OF s])
    ultimately show ?thesis by (simp add: bind_io_ret first_state_def)
  qed
  show ?thesis unfolding sparse_extents.simps by (rule run_to_bind [OF x run_to_ret])
qed

lemma demo_sparse_run:
  "\<exists>e' w'. android_sparse_generate whole_fiemap demo_sparse demo_sparse_env (demo_world ''in'') = (Inr e', w')"
proof -
  let ?st = "(demo_state \<lparr>ck_type = SPARSE_RAW, ck_blocks = 1, ck_size = 524\<rparr> 1 552)\<lparr>st_block := 1\<rparr>"
  let ?h = "\<lparr>ck_type = SPARSE_CRC32, ck_blocks = 0, ck_size = 16\<rparr>"
  let ?s3 = "?st\<lparr>st_chunks := 2, st_at := 568, st_chunk := ?h\<rparr>"
  have hd: "run_to k (write_data ''out'' (sparse_header_bytes 512 1 n) 0) 28 (max k 28)" if "k \<le> 1000" for k n
    using run_to_write [of 0 k "sparse_header_bytes 512 1 n"] that length_sparse_header [of 512 1 n]
    by (cases "sparse_header_bytes 512 1 n = []") simp_all
  have c: "run_to 552 (sparse_crc ''out'' ?st) ?s3 568"
    unfolding sparse_crc_def Let_def
  proof (rule run_to_bind)
    show "run_to 552 (flush_header ''out'' ?h None (st_at ?st)) 564 564"
      using run_to_header [of ?h 552 552] by (simp add: SPARSE_CRC32_def demo_state_def)
    have le: "le32 (st_crc ?st) \<noteq> []" using length_le32 [of "st_crc ?st"] by (metis list.size(3) zero_neq_numeral)
    show "run_to 564 (bind_io (write_data ''out'' (le32 (st_crc ?st)) 564) (\<lambda>at2.
        ret (?st\<lparr>st_chunks := st_chunks ?st + 1, st_at := at2, st_chunk := ?h\<rparr>))) ?s3 568"
    proof (rule run_to_bind)
      show "run_to 564 (write_data ''out'' (le32 (st_crc ?st)) 564) 568 568"
        using run_to_write [of 564 564 "le32 (st_crc ?st)"] le by simp
      show "run_to 568 (ret (?st\<lparr>st_chunks := st_chunks ?st + 1, st_at := 568, st_chunk := ?h\<rparr>)) ?s3 568"
        using run_to_ret [of 568 ?s3] by (simp add: demo_state_def)
    qed
  qed
  have s: "sparse_write demo_sparse ''out'' ''in'' 1 [\<lparr>ext_start = 0, ext_end = 3\<rparr>] =
      bind_io (write_data ''out'' (sparse_header_bytes 512 1 0) 0) (\<lambda>at.
      bind_io (sparse_extents ''out'' ''in'' 512 [\<lparr>ext_start = 0, ext_end = 3\<rparr>] (first_state at)) (\<lambda>st1.
      bind_io (sparse_tail ''out'' 512 1 st1) (\<lambda>st2. bind_io (sparse_crc ''out'' st2) (\<lambda>st3. bind_io (sys_seek 0) (\<lambda>_.
      bind_io (write_data ''out'' (sparse_header_bytes 512 1 (st_chunks st3)) 0) (\<lambda>_. ret ()))))))"
    by (simp add: sparse_write_def demo_sparse_def)
  have f: "run_to 568 (bind_io (sys_seek 0) (\<lambda>_.
      bind_io (write_data ''out'' (sparse_header_bytes 512 1 (st_chunks ?s3)) 0) (\<lambda>_. ret ()))) () 568"
  proof (rule run_to_bind)
    show "run_to 568 (bind_io (write_data ''out'' (sparse_header_bytes 512 1 (st_chunks ?s3)) 0) (\<lambda>_. ret ())) () 568"
    proof (rule run_to_bind)
      show "run_to 568 (write_data ''out'' (sparse_header_bytes 512 1 (st_chunks ?s3)) 0) 28 568" using hd [of 568] by simp
    qed (rule run_to_ret)
  qed (rule run_to_seek, simp)
  have t: "run_to 552 (sparse_tail ''out'' 512 1 ?st) ?st 552" using run_to_ret by (simp add: sparse_tail_def)
  have "run_to 552 (bind_io (sparse_tail ''out'' 512 1 ?st) (\<lambda>st2. bind_io (sparse_crc ''out'' st2) (\<lambda>st3. bind_io (sys_seek 0) (\<lambda>_.
      bind_io (write_data ''out'' (sparse_header_bytes 512 1 (st_chunks st3)) 0) (\<lambda>_. ret ()))))) () 568"
    by (rule run_to_bind [OF t], rule run_to_bind [OF c], rule f)
  then have "run_to 28 (bind_io (sparse_extents ''out'' ''in'' 512 [\<lparr>ext_start = 0, ext_end = 3\<rparr>] (first_state 28)) (\<lambda>st1.
      bind_io (sparse_tail ''out'' 512 1 st1) (\<lambda>st2. bind_io (sparse_crc ''out'' st2) (\<lambda>st3. bind_io (sys_seek 0) (\<lambda>_.
      bind_io (write_data ''out'' (sparse_header_bytes 512 1 (st_chunks st3)) 0) (\<lambda>_. ret ())))))) () 568"
    by (rule run_to_bind [OF demo_extent])
  then have w: "run_to 0 (sparse_write demo_sparse ''out'' ''in'' 1 [\<lparr>ext_start = 0, ext_end = 3\<rparr>]) () 568"
    unfolding s using hd [of 0 0] by (intro run_to_bind [where a = 28 and ?k1.0 = 28]) simp_all
  let ?g = "\<lambda>w. android_sparse_generate whole_fiemap demo_sparse demo_sparse_env w"
  let ?w = "\<lparr>fs = [''in'' \<mapsto> demo_src, ''out'' \<mapsto> empty_file], errno = 2, clock = Suc (Suc (Suc (Suc (Suc (Suc 0))))), script = (\<lambda>_. Pass), cmds = [],
     rand = demo_rng\<rparr>"
  have "at_size 0 ?w" by (simp add: at_size_def empty_file_def)
  moreover have "?g (demo_world ''in'') =
      bind_io (sparse_write demo_sparse ''out'' ''in'' 1 [\<lparr>ext_start = 0, ext_end = 3\<rparr>]) (\<lambda>_. ret (g_image demo_sparse_env)) ?w"
    by (simp add: android_sparse_generate_def get_child_def demo_sparse_env_def demo_sparse_def demo_world_def eval_io demo_src_def
      map_file_extents_def open_file_def is_block_device_def demo_align whole_fiemap_def demo_image_def blocks_of_def
      resize_def)
  ultimately show ?thesis using w by (auto simp: run_to_def bind_io_def ret_def)
qed

lemma android_sparse_roundtrip_witness:
  "\<exists>e' w' y. android_sparse_generate whole_fiemap demo_sparse demo_sparse_env (demo_world ''in'') = (Inr e', w') \<and>
     fs w' ''out'' = Some y \<and> unsparse (contents y) = Some ([17, 34, 0] @ zeros 509)"
proof -
  obtain e' w' where g: "android_sparse_generate whole_fiemap demo_sparse demo_sparse_env (demo_world ''in'') = (Inr e', w')"
    using demo_sparse_run by blast
  have io: "im_outfile (g_image demo_sparse_env) = ''out''" "im_outfile (demo_image ''in'' 3) = ''in''"
    by (simp_all add: demo_sparse_env_def demo_image_def)
  have data: "map (fdata demo_src) [0..<up 512 3] = [17, 34, 0] @ zeros 509"
  proof -
    have u: "up 512 3 = 3 + 509" by (simp add: up_def)
    have b: "map (fdata demo_src) [0..<3] = [17, 34, 0]" by (simp add: demo_src_def upt_conv_Cons)
    have "map (fdata demo_src) [0..<3] @ zeros 509 = map (fdata demo_src) [0..<3 + 509]"
      by (rule data_zeros) (simp add: demo_src_def)
    then show ?thesis unfolding u b by (rule sym)
  qed
  have p: "im_partitions (g_image demo_sparse_env) = (zero_partition 1)\<lparr>p_image := Some ''in''\<rparr> # []"
    and c: "get_child (g_images demo_sparse_env) ((zero_partition 1)\<lparr>p_image := Some ''in''\<rparr>) (demo_world ''in'') =
      (Inr (demo_image ''in'' 3), demo_world ''in'')"
    by (simp_all add: demo_sparse_env_def get_child_def demo_image_def ret_def)
  have src: "fs (demo_world ''in'') (im_outfile (demo_image ''in'' 3)) = Some demo_src"
    and ne: "im_outfile (demo_image ''in'' 3) \<noteq> im_outfile (g_image demo_sparse_env)"
    and out: "fkind (file_at (demo_world ''in'') (im_outfile (g_image demo_sparse_env))) = Regular"
    unfolding io by (simp_all add: demo_world_def file_at_def empty_file_def)
  have sz: "unat (sp_block_size demo_sparse) = 512" "fsize demo_src = 3" by (simp_all add: demo_sparse_def demo_src_def)
  then have lt: "fsize demo_src < 2 ^ 31 * unat (sp_block_size demo_sparse)" by simp
  have fm: "fiemap_exact whole_fiemap demo_src" by (simp add: fiemap_exact_def whole_fiemap_def demo_src_def)
  show ?thesis
    using android_sparse_roundtrip [OF g demo_sparse_setup p c wf_demo_world src ne out lt fm] g
    unfolding io sz data by blast
qed

end
