(* ===== verification/Limits.thy ===== *)
theory Limits
  imports Acyclic MdraidProps SparseProps
begin

text \<open>
  Configurations and sizes that the program accepts and does not handle. Nothing here is needed elsewhere.
\<close>

section \<open>Android sparse images\<close>

text \<open>A block size of 0 is accepted by the setup, and is divided by in the generation.\<close>

lemma sparse_block_size_zero:
  assumes "cfg_getint_suffix (sec_str sec ''block-size'') = Inr n" and "ucast n = (0 :: u32)"
  shows "\<exists>p. android_sparse_setup sec = Inr p \<and> (\<forall>fm (e :: hpriv genv) w. fst (android_sparse_generate fm p e w) = Inl Undefined)"
  using assms by (simp add: android_sparse_setup_def android_sparse_generate_def throw_def Let_def)

section \<open>RAID members\<close>

text \<open>\<open>check_role\<close> allows more than 1920 devices; then the table of the roles reaches the bitmap at 8192.\<close>

lemma mdraid_roles_reach_bitmap:
  assumes "sb_ok s" "length uuid = 16" "1920 < unat n"
  shows "4096 + length (mdp_sb_bytes (member_sb s uuid role n)) > 8192"
    and "check_role 0 2000 = Inr ()"
  using member_sb_facts(5) [OF assms(1,2), of role n] assms(3) by (simp_all add: check_role_def MD_DISK_ROLE_MAX_def)

text \<open>A member without data that is smaller than the offset of the data: the size of the device wraps around.\<close>

lemma mdraid_size_wraps:
  "mdraid_setup ims \<lparr>md_data = None, md_parent = None, md_sb = None, md_last_role = 0\<rparr> (demo_image ''m'' 4096) = Inr (demo_image ''m'' 4096)"
  "2 ^ 54 < sb_size (array_sb t c uuid 4096 n)"
  by (simp_all add: mdraid_setup_def demo_image_def MDRAID_ALIGN_BYTES_def roundup_def array_sb_def Let_def
    DATA_OFFSET_BYTES_def DATA_OFFSET_SECTORS_def)

section \<open>Disk images\<close>

text \<open>The protective MBR entry of a disk of 2 TiB and one sector covers nothing.\<close>

lemma protective_mbr_wraps: "me_total_sectors (mbr_entry (protective_partition (2 ^ 41 + 512))) = 0"
  by (simp add: mbr_entry_def protective_partition_def)

section \<open>main\<close>

text \<open>
  The images are visited once, in the order of the configuration: an image that comes before the one that gives it
  a flash type does not hand it on to its own images.
\<close>

lemma flash_type_depends_on_order:
  defines "part f \<equiv> (zero_partition 0)\<lparr>p_image := Some f\<rparr>"
  defines "inner \<equiv> (demo_image ''inner'' 0)\<lparr>im_partitions := [part ''leaf'']\<rparr>"
    and "outer \<equiv> (demo_image ''outer'' 0)\<lparr>im_partitions := [part ''inner''], im_flash_type := Some demo_flash\<rparr>"
  shows "map_sum id (map im_flash_type) (set_flash_type [inner, outer, demo_image ''leaf'' 0]) =
      Inr [Some demo_flash, Some demo_flash, None]"
    and "map_sum id (map im_flash_type) (set_flash_type [outer, inner, demo_image ''leaf'' 0]) =
      Inr [Some demo_flash, Some demo_flash, Some demo_flash]"
  by (simp_all add: set_flash_type_def assms demo_image_def upt_conv_Cons zero_partition_def give_flash_type_def Let_def)

text \<open>The result of \<open>parse_holes\<close> of an implicit image is not looked at: a malformed hole is no error.\<close>

lemma implicit_holes_ignored:
  defines "s \<equiv> (demo_sys [(demo_image ''d'' 0)\<lparr>im_partitions := [(zero_partition 1)\<lparr>p_image := Some ''f''\<rparr>]\<rparr>])
    \<lparr>s_parts := (\<lambda>_. [Cfg [] (\<lambda>_. None) (\<lambda>_. 0) (\<lambda>_. False) (\<lambda>_. False) (\<lambda>k. if k = ''holes'' then [''x''] else []) (\<lambda>_. [])])\<rparr>"
  shows "fst (parse_holes [] (part_holes s 0 0)) = Inl EINVAL" and "fst (check_partition (handlers u) 0 0 s) = Inr ()"
proof -
  have p: "part_holes s 0 0 = Some [''x'']" by (simp add: s_def part_holes_def)
  have "parse_hole ''x'' = Inl EINVAL" by (simp add: parse_hole_def scan_hole_def skip_ws_def expect_def isspace_def)
  then show "fst (parse_holes [] (part_holes s 0 0)) = Inl EINVAL" by (simp add: p parse_holes_def)
  have "Option.bind (handler_get (handlers u) ''file'') h_parse = Some (image_parse (\<lambda>im sec. Inr (file_parse im)))"
    by (simp add: handlers_def table_defs)
  then show "fst (check_partition (handlers u) 0 0 s) = Inr ()"
    by (simp add: s_def check_partition_def demo_sys_def demo_image_def Let_def call_parse_def append_image_def zero_image_def
      image_parse_def bind_io_def lift_io_def ret_def finish_call_def)
qed

end
