(* ===== verification/ListHead.thy ===== *)
theory ListHead
  imports Prelude
begin

text \<open>
  The circular doubly linked lists of \<^verbatim>\<open>list.h\<close>, in which the program keeps its images and partitions: the
  operations on an explicit store of pointers, the loops of the macros, and the lemma that they implement lists.
  With it the other theories take an image list as a HOL list. The hash lists at the end of the file are not
  used by the program and not modelled.
\<close>

section \<open>The store\<close>

text \<open>\<open>struct list_head\<close>: of every address, what its two pointers are.\<close>

type_synonym addr = u64

record list_store =
  nxt :: "addr \<Rightarrow> addr"
  prv :: "addr \<Rightarrow> addr"

definition set_next :: "addr \<Rightarrow> addr \<Rightarrow> list_store \<Rightarrow> list_store" where
  "set_next p q h = h\<lparr>nxt := (nxt h)(p := q)\<rparr>"

definition set_prev :: "addr \<Rightarrow> addr \<Rightarrow> list_store \<Rightarrow> list_store" where
  "set_prev p q h = h\<lparr>prv := (prv h)(p := q)\<rparr>"

lemma nxt_set [simp]: "nxt (set_next p q h) = (nxt h)(p := q)" "nxt (set_prev p q h) = nxt h"
  and prv_set [simp]: "prv (set_prev p q h) = (prv h)(p := q)" "prv (set_next p q h) = prv h"
  by (simp_all add: set_next_def set_prev_def)

section \<open>The operations\<close>

definition LIST_POISON1 :: addr where "LIST_POISON1 = 0x00100100"
definition LIST_POISON2 :: addr where "LIST_POISON2 = 0x00200200"

definition INIT_LIST_HEAD :: "addr \<Rightarrow> list_store \<Rightarrow> list_store" where
  "INIT_LIST_HEAD l h = set_prev l l (set_next l l h)"

definition list_add_between :: "addr \<Rightarrow> addr \<Rightarrow> addr \<Rightarrow> list_store \<Rightarrow> list_store" where
  "list_add_between new prev next h =
     (let h1 = set_prev next new h;
          h2 = set_next new next h1;
          h3 = set_prev new prev h2 in
      set_next prev new h3)"

definition list_add :: "addr \<Rightarrow> addr \<Rightarrow> list_store \<Rightarrow> list_store" where
  "list_add new head h = list_add_between new head (nxt h head) h"

definition list_add_tail :: "addr \<Rightarrow> addr \<Rightarrow> list_store \<Rightarrow> list_store" where
  "list_add_tail new head h = list_add_between new (prv h head) head h"

definition list_del_between :: "addr \<Rightarrow> addr \<Rightarrow> list_store \<Rightarrow> list_store" where
  "list_del_between prev next h = set_next prev next (set_prev next prev h)"

definition list_del :: "addr \<Rightarrow> list_store \<Rightarrow> list_store" where
  "list_del entry h =
     (let h1 = list_del_between (prv h entry) (nxt h entry) h in
      set_prev entry LIST_POISON2 (set_next entry LIST_POISON1 h1))"

definition list_replace :: "addr \<Rightarrow> addr \<Rightarrow> list_store \<Rightarrow> list_store" where
  "list_replace old new h =
     (let h1 = set_next new (nxt h old) h;
          h2 = set_prev (nxt h1 new) new h1;
          h3 = set_prev new (prv h2 old) h2 in
      set_next (prv h3 new) new h3)"

definition list_replace_init :: "addr \<Rightarrow> addr \<Rightarrow> list_store \<Rightarrow> list_store" where
  "list_replace_init old new h = INIT_LIST_HEAD old (list_replace old new h)"

definition list_del_init :: "addr \<Rightarrow> list_store \<Rightarrow> list_store" where
  "list_del_init entry h = INIT_LIST_HEAD entry (list_del_between (prv h entry) (nxt h entry) h)"

definition list_move :: "addr \<Rightarrow> addr \<Rightarrow> list_store \<Rightarrow> list_store" where
  "list_move entry head h = list_add entry head (list_del_between (prv h entry) (nxt h entry) h)"

definition list_move_tail :: "addr \<Rightarrow> addr \<Rightarrow> list_store \<Rightarrow> list_store" where
  "list_move_tail entry head h = list_add_tail entry head (list_del_between (prv h entry) (nxt h entry) h)"

definition list_is_last :: "addr \<Rightarrow> addr \<Rightarrow> list_store \<Rightarrow> bool" where
  "list_is_last entry head h \<longleftrightarrow> nxt h entry = head"

definition list_empty :: "addr \<Rightarrow> list_store \<Rightarrow> bool" where
  "list_empty head h \<longleftrightarrow> nxt h head = head"

definition list_empty_careful :: "addr \<Rightarrow> list_store \<Rightarrow> bool" where
  "list_empty_careful head h \<longleftrightarrow> nxt h head = head \<and> nxt h head = prv h head"

definition list_splice_all :: "addr \<Rightarrow> addr \<Rightarrow> list_store \<Rightarrow> list_store" where
  "list_splice_all l head h =
     (let first = nxt h l; end = prv h l; at = nxt h head in
      set_prev at end (set_next end at (set_next head first (set_prev first head h))))"

definition list_splice :: "addr \<Rightarrow> addr \<Rightarrow> list_store \<Rightarrow> list_store" where
  "list_splice l head h = (if \<not> list_empty l h then list_splice_all l head h else h)"

definition list_splice_init :: "addr \<Rightarrow> addr \<Rightarrow> list_store \<Rightarrow> list_store" where
  "list_splice_init l head h =
     (if \<not> list_empty l h then INIT_LIST_HEAD l (list_splice_all l head h) else h)"

section \<open>The loops\<close>

text \<open>\<open>list_entry\<close>: the address of the struct that holds the pointers at the offset \<open>off\<close>.\<close>

definition list_entry :: "u64 \<Rightarrow> addr \<Rightarrow> addr" where
  "list_entry off p = p - off"

text \<open>
  The loops of the macros, with fuel: \<open>dir\<close> is \<open>nxt\<close> or \<open>prv\<close>, \<open>pos\<close> the struct the loop is at, \<open>f\<close> the body,
  which may change the lists. In the safe ones the next position is read before the body.
\<close>

fun list_loop :: "nat \<Rightarrow> (list_store \<Rightarrow> addr \<Rightarrow> addr) \<Rightarrow> u64 \<Rightarrow> addr \<Rightarrow> (addr \<Rightarrow> list_store \<times> 's \<Rightarrow> list_store \<times> 's) \<Rightarrow>
    addr \<Rightarrow> list_store \<times> 's \<Rightarrow> (list_store \<times> 's) option" where
  "list_loop 0 dir off head f pos st = None"
| "list_loop (Suc n) dir off head f pos st =
     (if pos + off = head then Some st
      else let st' = f pos st in list_loop n dir off head f (list_entry off (dir (fst st') (pos + off))) st')"

fun list_loop_safe :: "nat \<Rightarrow> (list_store \<Rightarrow> addr \<Rightarrow> addr) \<Rightarrow> u64 \<Rightarrow> addr \<Rightarrow> (addr \<Rightarrow> list_store \<times> 's \<Rightarrow> list_store \<times> 's) \<Rightarrow>
    addr \<Rightarrow> addr \<Rightarrow> list_store \<times> 's \<Rightarrow> (list_store \<times> 's) option" where
  "list_loop_safe 0 dir off head f pos next st = None"
| "list_loop_safe (Suc n) dir off head f pos next st =
     (if pos + off = head then Some st
      else let st' = f pos st in
        list_loop_safe n dir off head f next (list_entry off (dir (fst st') (next + off))) st')"

definition list_for_each_entry where
  "list_for_each_entry n off head f st = list_loop n nxt off head f (list_entry off (nxt (fst st) head)) st"

definition list_for_each_entry_reverse where
  "list_for_each_entry_reverse n off head f st = list_loop n prv off head f (list_entry off (prv (fst st) head)) st"

definition list_for_each_entry_continue where
  "list_for_each_entry_continue n off pos head f st =
     list_loop n nxt off head f (list_entry off (nxt (fst st) (pos + off))) st"

definition list_for_each_entry_from where
  "list_for_each_entry_from n off pos head f st = list_loop n nxt off head f pos st"

definition list_for_each_entry_safe where
  "list_for_each_entry_safe n off head f st =
     (let pos = list_entry off (nxt (fst st) head) in
      list_loop_safe n nxt off head f pos (list_entry off (nxt (fst st) (pos + off))) st)"

definition list_first_entry :: "u64 \<Rightarrow> addr \<Rightarrow> list_store \<Rightarrow> addr" where
  "list_first_entry off head h = list_entry off (nxt h head)"

definition list_for_each_entry_safe_continue where
  "list_for_each_entry_safe_continue n off pos head f st =
     (let pos' = list_entry off (nxt (fst st) (pos + off)) in
      list_loop_safe n nxt off head f pos' (list_entry off (nxt (fst st) (pos' + off))) st)"

definition list_for_each_entry_safe_from where
  "list_for_each_entry_safe_from n off pos head f st =
     list_loop_safe n nxt off head f pos (list_entry off (nxt (fst st) (pos + off))) st"

definition list_for_each_entry_safe_reverse where
  "list_for_each_entry_safe_reverse n off head f st =
     (let pos = list_entry off (prv (fst st) head) in
      list_loop_safe n prv off head f pos (list_entry off (prv (fst st) (pos + off))) st)"

definition list_for_each where
  "list_for_each n head f st = list_loop n nxt 0 head f (nxt (fst st) head) st"

definition list_for_each_prev where
  "list_for_each_prev n head f st = list_loop n prv 0 head f (prv (fst st) head) st"

definition list_for_each_safe where
  "list_for_each_safe n head f st =
     (let pos = nxt (fst st) head in list_loop_safe n nxt 0 head f pos (nxt (fst st) pos) st)"

text \<open>\<open>list_add_sort\<close>: \<open>lt p q\<close> says that \<open>compare\<close> of both is negative.\<close>

fun find_insert :: "nat \<Rightarrow> (addr \<Rightarrow> addr \<Rightarrow> bool) \<Rightarrow> addr \<Rightarrow> addr \<Rightarrow> addr \<Rightarrow> list_store \<Rightarrow> addr option" where
  "find_insert 0 lt new head pos h = None"
| "find_insert (Suc n) lt new head pos h =
     (if pos = head then Some head
      else if lt pos new then find_insert n lt new head (nxt h pos) h
      else Some pos)"

definition list_add_sort :: "nat \<Rightarrow> (addr \<Rightarrow> addr \<Rightarrow> bool) \<Rightarrow> addr \<Rightarrow> addr \<Rightarrow> list_store \<Rightarrow> list_store option" where
  "list_add_sort n lt new head h =
     map_option (\<lambda>insert. list_add_tail new insert h) (find_insert n lt new head (nxt h head) h)"

section \<open>The list at a head\<close>

fun linked :: "list_store \<Rightarrow> addr list \<Rightarrow> bool" where
  "linked h (a # b # as) \<longleftrightarrow> nxt h a = b \<and> prv h b = a \<and> linked h (b # as)"
| "linked h _ \<longleftrightarrow> True"

definition is_list :: "list_store \<Rightarrow> addr \<Rightarrow> addr list \<Rightarrow> bool" where
  "is_list h head xs \<longleftrightarrow> distinct (head # xs) \<and> linked h (head # xs @ [head])"

lemma linked_append: "linked h (as @ m # bs) \<longleftrightarrow> linked h (as @ [m]) \<and> linked h (m # bs)"
  by (induction as rule: induct_list012) (cases bs; auto)+

lemma linked_cong:
  "(\<And>a. a \<in> set (butlast as) \<Longrightarrow> nxt h' a = nxt h a) \<Longrightarrow> (\<And>b. b \<in> set (tl as) \<Longrightarrow> prv h' b = prv h b) \<Longrightarrow>
   linked h' as = linked h as"
  by (induction as rule: induct_list012) auto

lemma linked_snoc: "linked h (as @ [b]) \<Longrightarrow> as \<noteq> [] \<Longrightarrow> prv h b = last as \<and> nxt h (last as) = b"
  by (induction as rule: induct_list012) auto

lemma linked_Cons: "linked h (a # bs) \<Longrightarrow> bs \<noteq> [] \<Longrightarrow> nxt h a = hd bs \<and> prv h (hd bs) = a"
  by (cases bs) auto

text \<open>
  The neighbours \<open>p\<close> and \<open>q\<close> in a ring that is cut open at its head: \<open>A @ [p]\<close> begins with the head and \<open>q # B\<close> ends
  with it.
\<close>

definition cut :: "addr list \<Rightarrow> addr \<Rightarrow> addr \<Rightarrow> addr list \<Rightarrow> bool" where
  "cut A p q B \<longleftrightarrow> distinct (A @ [p]) \<and> distinct (q # B) \<and> p \<notin> set (butlast (q # B)) \<and> q \<notin> set (tl (A @ [p]))"

lemma linked_insert:
  assumes c: "cut A p q B" and new: "new \<notin> set (A @ [p, q] @ B)" and k: "linked h (A @ p # q # B)"
  shows "linked (list_add_between new p q h) (A @ p # new # q # B)"
proof -
  let ?h = "list_add_between new p q h"
  have n: "nxt ?h = (nxt h)(new := q, p := new)" "prv ?h = (prv h)(q := new, new := p)"
    by (simp_all add: list_add_between_def Let_def)
  have k1: "linked h (A @ [p])" "linked h (p # q # B)" using linked_append [THEN iffD1, OF k] by simp_all
  have sub: "set (tl (A @ [p])) \<subseteq> set (A @ [p])" "set (butlast (q # B)) \<subseteq> set (q # B)"
    by (cases A; auto) (meson in_set_butlastD subsetI)
  have "linked ?h (A @ [p])"
    using k1(1) c new sub by (subst linked_cong [where h = h]) (auto simp: n cut_def)
  moreover have "linked ?h (q # B)"
    using k1(2) c new sub(2) by (subst linked_cong [where h = h]) (auto simp: n cut_def)
  moreover have "p \<noteq> new" "q \<noteq> new" using new by auto
  ultimately show ?thesis by (subst linked_append) (simp add: n)
qed

lemma linked_delete:
  assumes c: "cut A p q B" and x: "x \<notin> set (A @ [p, q] @ B)" and k: "linked h (A @ p # x # q # B)"
  shows "linked (list_del_between p q h) (A @ p # q # B)"
proof -
  let ?h = "list_del_between p q h"
  have n: "nxt ?h = (nxt h)(p := q)" "prv ?h = (prv h)(q := p)" by (simp_all add: list_del_between_def)
  have k1: "linked h (A @ [p])" "linked h (p # x # q # B)" using linked_append [THEN iffD1, OF k] by simp_all
  have "linked ?h (A @ [p])" using k1(1) c by (subst linked_cong [where h = h]) (auto simp: n cut_def)
  moreover have "linked ?h (q # B)" using k1(2) c by (subst linked_cong [where h = h]) (auto simp: n cut_def)
  ultimately show ?thesis by (subst linked_append) (simp add: n)
qed

text \<open>The pointers of an entry that is in no list do not matter.\<close>

lemma is_list_other: "x \<notin> set (head # xs) \<Longrightarrow> is_list (set_next x y h) head xs = is_list h head xs"
  "x \<notin> set (head # xs) \<Longrightarrow> is_list (set_prev x y h) head xs = is_list h head xs"
  unfolding is_list_def by (subst linked_cong [where h = h]; auto dest: in_set_butlastD)+

text \<open>Where the ring of a list is cut.\<close>

lemma ring_cut:
  assumes d: "distinct (head # xs @ ys)"
  obtains A p q B where "head # xs = A @ [p]" "ys @ [head] = q # B" "p = last (head # xs)" "q = hd (ys @ [head])" "cut A p q B"
proof -
  obtain A p where A: "head # xs = A @ [p]" by (metis append_butlast_last_id list.distinct(1))
  obtain q B where B: "ys @ [head] = q # B" by (cases "ys @ [head]") auto
  have "distinct (A @ [p])" "distinct (q # B)" using d unfolding A [symmetric] B [symmetric] by auto
  moreover have "butlast (q # B) = ys" "tl (A @ [p]) = xs" unfolding A [symmetric] B [symmetric] by simp_all
  moreover have "p \<in> set (head # xs)" "q \<in> set (ys @ [head])" unfolding A B by simp_all
  ultimately have "cut A p q B" using d unfolding cut_def by auto
  then show thesis using that A B by (metis last_snoc list.sel(1))
qed

lemma is_list_insert:
  assumes l: "is_list h head (xs @ ys)" and new: "new \<notin> set (head # xs @ ys)"
  shows "is_list (list_add_between new (last (head # xs)) (hd (ys @ [head])) h) head (xs @ new # ys)"
proof -
  have d: "distinct (head # xs @ ys)" and k: "linked h ((head # xs) @ (ys @ [head]))" using l by (simp_all add: is_list_def)
  obtain A p q B where r: "head # xs = A @ [p]" "ys @ [head] = q # B" "p = last (head # xs)" "q = hd (ys @ [head])" "cut A p q B"
    by (rule ring_cut [OF d])
  have "new \<notin> set ((head # xs) @ (ys @ [head]))" using new by auto
  then have "new \<notin> set (A @ [p, q] @ B)" unfolding r(1,2) by auto
  then have "linked (list_add_between new p q h) (A @ p # new # q # B)"
    using linked_insert [OF r(5)] k unfolding r(1,2) by simp
  then have "linked (list_add_between new p q h) ((head # xs) @ new # (ys @ [head]))" unfolding r(1,2) by simp
  then show ?thesis using d new unfolding is_list_def r(3) [symmetric] r(4) [symmetric] by auto
qed

lemma is_list_delete:
  assumes l: "is_list h head (xs @ x # ys)"
  shows "is_list (list_del_between (prv h x) (nxt h x) h) head (xs @ ys)"
proof -
  have d: "distinct (head # xs @ ys)" "x \<notin> set (head # xs @ ys)" and k: "linked h ((head # xs) @ x # (ys @ [head]))"
    using l by (auto simp: is_list_def)
  obtain A p q B where r: "head # xs = A @ [p]" "ys @ [head] = q # B" "p = last (head # xs)" "q = hd (ys @ [head])" "cut A p q B"
    by (rule ring_cut [OF d(1)])
  have k1: "linked h (A @ p # x # q # B)" using k unfolding r(1,2) by simp
  then have "prv h x = p" "nxt h x = q" using linked_append [THEN iffD1, OF k1] by simp_all
  moreover have "x \<notin> set ((head # xs) @ (ys @ [head]))" using d(2) by auto
  then have "x \<notin> set (A @ [p, q] @ B)" unfolding r(1,2) by auto
  then have "linked (list_del_between p q h) ((head # xs) @ (ys @ [head]))"
    using linked_delete [OF r(5) _ k1] unfolding r(1,2) by simp
  ultimately show ?thesis using d(1) unfolding is_list_def by simp
qed

section \<open>What the operations do to the list\<close>

lemma is_list_ends: "is_list h head xs \<Longrightarrow> nxt h head = hd (xs @ [head]) \<and> prv h head = last (head # xs)"
  unfolding is_list_def using linked_Cons [of h head "xs @ [head]"] linked_snoc [of h "head # xs" head] by auto

lemma is_list_init: "is_list (INIT_LIST_HEAD l h) l []"
  by (simp add: is_list_def INIT_LIST_HEAD_def)

lemma list_add_ok: "is_list h head xs \<Longrightarrow> new \<notin> set (head # xs) \<Longrightarrow> is_list (list_add new head h) head (new # xs)"
  using is_list_insert [of h head "[]" xs new] is_list_ends by (simp add: list_add_def)

lemma list_add_tail_ok: "is_list h head xs \<Longrightarrow> new \<notin> set (head # xs) \<Longrightarrow> is_list (list_add_tail new head h) head (xs @ [new])"
  using is_list_insert [of h head xs "[]" new] is_list_ends by (simp add: list_add_tail_def)

lemma list_del_ok:
  assumes "is_list h head (xs @ x # ys)" shows "is_list (list_del x h) head (xs @ ys)"
proof -
  have "x \<notin> set (head # xs @ ys)" using assms by (auto simp: is_list_def)
  then show ?thesis using is_list_delete [OF assms] by (simp add: list_del_def Let_def is_list_other)
qed

lemma list_empty_ok:
  assumes "is_list h head xs" shows "list_empty head h \<longleftrightarrow> xs = []"
proof -
  have "nxt h head = hd (xs @ [head])" "head \<notin> set xs" using is_list_ends [OF assms] assms by (simp_all add: is_list_def)
  then show ?thesis unfolding list_empty_def by (cases xs) auto
qed

text \<open>\<open>list_add_tail\<close> with another entry as the head puts the new one before that entry.\<close>

lemma list_add_before_ok:
  assumes l: "is_list h head (xs @ y # ys)" and new: "new \<notin> set (head # xs @ y # ys)"
  shows "is_list (list_add_tail new y h) head (xs @ new # y # ys)"
proof -
  have e: "head # (xs @ y # ys) @ [head] = (head # xs) @ y # (ys @ [head])" by simp
  have "linked h ((head # xs) @ y # (ys @ [head]))" using l unfolding is_list_def e by (rule conjunct2)
  then have "linked h ((head # xs) @ [y])" by (rule linked_append [THEN iffD1, THEN conjunct1])
  then have p: "prv h y = last (head # xs)" by (metis linked_snoc list.distinct(1))
  have i: "is_list (list_add_between new (last (head # xs)) (hd ((y # ys) @ [head])) h) head (xs @ new # y # ys)"
    by (rule is_list_insert [OF l new])
  have "list_add_tail new y h = list_add_between new (last (head # xs)) (hd ((y # ys) @ [head])) h"
    by (simp only: list_add_tail_def p append_Cons list.sel)
  then show ?thesis using i by (simp only:)
qed

lemma list_move_ok:
  assumes "is_list h head (xs @ x # ys)"
  shows "is_list (list_move x head h) head (x # xs @ ys)" "is_list (list_move_tail x head h) head (xs @ ys @ [x])"
proof -
  have "x \<notin> set (head # xs @ ys)" using assms by (auto simp: is_list_def)
  then show "is_list (list_move x head h) head (x # xs @ ys)" "is_list (list_move_tail x head h) head (xs @ ys @ [x])"
    using list_add_ok [OF is_list_delete [OF assms]] list_add_tail_ok [OF is_list_delete [OF assms]]
    by (simp_all add: list_move_def list_move_tail_def)
qed

text \<open>A loop whose body leaves the lists alone visits the structs of the entries in order.\<close>

definition collect_entry :: "addr \<Rightarrow> list_store \<times> addr list \<Rightarrow> list_store \<times> addr list" where
  "collect_entry p st = (fst st, snd st @ [p])"

lemma list_loop_visits:
  "linked h (zs @ [head]) \<Longrightarrow> head \<notin> set zs \<Longrightarrow> length zs < n \<Longrightarrow>
   list_loop n nxt off head collect_entry (list_entry off (hd (zs @ [head]))) (h, as) = Some (h, as @ map (list_entry off) zs)"
proof (induction zs arbitrary: n as)
  case Nil
  then show ?case by (cases n) (simp_all add: list_entry_def)
next
  case (Cons z zs)
  then obtain m where m: "n = Suc m" by (cases n) auto
  have "nxt h z = hd (zs @ [head])" "linked h (zs @ [head])" using Cons.prems(1) by (cases zs; simp)+
  moreover have "z \<noteq> head" "head \<notin> set zs" "length zs < m" using Cons.prems m by auto
  ultimately show ?case using Cons.IH [of m "as @ [z - off]"] m by (simp add: collect_entry_def list_entry_def)
qed

lemma list_for_each_entry_ok:
  assumes l: "is_list h head xs" and n: "length xs < n"
  shows "list_for_each_entry n off head collect_entry (h, []) = Some (h, map (list_entry off) xs)"
proof -
  have "linked h (xs @ [head])" "head \<notin> set xs" using l by (cases xs; auto simp: is_list_def)+
  then show ?thesis using list_loop_visits [of h xs head n off "[]"] n is_list_ends [OF l] by (simp add: list_for_each_entry_def)
qed

text \<open>\<open>list_add_sort\<close> finds the first entry that is not less than the new one.\<close>

lemma find_insert_ok:
  "linked h (zs @ [head]) \<Longrightarrow> head \<notin> set zs \<Longrightarrow> length zs < n \<Longrightarrow>
   find_insert n lt new head (hd (zs @ [head])) h = Some (hd (dropWhile (\<lambda>x. lt x new) zs @ [head]))"
proof (induction zs arbitrary: n)
  case Nil
  then show ?case by (cases n) simp_all
next
  case (Cons z zs)
  then obtain m where m: "n = Suc m" by (cases n) auto
  have "nxt h z = hd (zs @ [head])" "linked h (zs @ [head])" using Cons.prems(1) by (cases zs; simp)+
  moreover have "z \<noteq> head" "head \<notin> set zs" "length zs < m" using Cons.prems m by auto
  ultimately show ?case using Cons.IH [of m] m by simp
qed

lemma list_add_sort_ok:
  assumes l: "is_list h head xs" and new: "new \<notin> set (head # xs)" and n: "length xs < n"
  shows "\<exists>h'. list_add_sort n lt new head h = Some h' \<and>
    is_list h' head (takeWhile (\<lambda>x. lt x new) xs @ new # dropWhile (\<lambda>x. lt x new) xs)"
proof -
  let ?a = "takeWhile (\<lambda>x. lt x new) xs" and ?b = "dropWhile (\<lambda>x. lt x new) xs"
  have "linked h (xs @ [head])" "head \<notin> set xs" using l by (cases xs; auto simp: is_list_def)+
  then have f: "find_insert n lt new head (nxt h head) h = Some (hd (?b @ [head]))"
    using find_insert_ok n is_list_ends [OF l] by simp
  have "is_list (list_add_tail new (hd (?b @ [head])) h) head (?a @ new # ?b)"
  proof (cases ?b)
    case Nil
    then have "?a = xs" by (metis append_Nil2 takeWhile_dropWhile_id)
    then show ?thesis using list_add_tail_ok [OF l new] unfolding Nil \<open>?a = xs\<close> by simp
  next
    case (Cons y ys)
    have xs: "xs = ?a @ y # ys" using Cons by (metis takeWhile_dropWhile_id)
    show ?thesis using list_add_before_ok [of h head ?a y ys new] l new xs Cons by (metis append_Cons list.sel(1))
  qed
  then show ?thesis using f by (simp add: list_add_sort_def)
qed

section \<open>Queues\<close>

text \<open>What the parser relies on: a list that is built by appending has the entries in the order of the calls.\<close>

locale queue =
  fixes rep :: "'h \<Rightarrow> 'a \<Rightarrow> 'a list \<Rightarrow> bool" and init :: "'a \<Rightarrow> 'h \<Rightarrow> 'h" and add :: "'a \<Rightarrow> 'a \<Rightarrow> 'h \<Rightarrow> 'h"
  assumes rep_init: "rep (init l h) l []"
    and rep_add: "rep h l xs \<Longrightarrow> x \<notin> set (l # xs) \<Longrightarrow> rep (add x l h) l (xs @ [x])"
begin

lemma built: "distinct (l # xs) \<Longrightarrow> rep (fold (\<lambda>x. add x l) xs (init l h)) l xs"
proof (induction xs rule: rev_induct)
  case (snoc x xs)
  then have "rep (fold (\<lambda>x. add x l) xs (init l h)) l xs" "x \<notin> set (l # xs)" by auto
  then show ?case using rep_add by simp
qed (simp add: rep_init)

end

interpretation tails: queue is_list INIT_LIST_HEAD list_add_tail
  by unfold_locales (simp_all add: is_list_init list_add_tail_ok)

text \<open>
  C36: the circular lists of pointers implement lists. One that is built by \<open>list_add_tail\<close> has the entries in
  the order of the calls, and \<open>list_for_each_entry\<close> visits the structs of exactly these entries in that order and
  ends; \<open>list_add\<close> adds an entry at the front, \<open>list_add_tail\<close> at the end, \<open>list_add_sort\<close> before the first one
  that is not less, \<open>list_del\<close> removes one, and \<open>list_empty\<close> holds of the empty list only.
\<close>

theorem list_head_refines:
  assumes "distinct (head # xs)" and "new \<notin> set (head # xs)" and "length xs < n"
  shows "let h = fold (\<lambda>x. list_add_tail x head) xs (INIT_LIST_HEAD head h0) in
    list_for_each_entry n off head collect_entry (h, []) = Some (h, map (list_entry off) xs) \<and>
    (list_empty head h \<longleftrightarrow> xs = []) \<and>
    is_list (list_add new head h) head (new # xs) \<and> is_list (list_add_tail new head h) head (xs @ [new]) \<and>
    (\<exists>h'. list_add_sort n lt new head h = Some h' \<and>
      is_list h' head (takeWhile (\<lambda>x. lt x new) xs @ new # dropWhile (\<lambda>x. lt x new) xs)) \<and>
    (\<forall>x \<in> set xs. is_list (list_del x h) head (remove1 x xs))"
proof -
  let ?h = "fold (\<lambda>x. list_add_tail x head) xs (INIT_LIST_HEAD head h0)"
  have l: "is_list ?h head xs" by (rule tails.built [OF assms(1)])
  have "is_list (list_del x ?h) head (remove1 x xs)" if x: "x \<in> set xs" for x
  proof -
    obtain as bs where xs: "xs = as @ x # bs" "x \<notin> set as" using split_list_first [OF x] by blast
    then have "remove1 x xs = as @ bs" by (simp add: remove1_append)
    then show ?thesis using list_del_ok [of ?h head as x bs] l xs(1) by simp
  qed
  then show ?thesis
    unfolding Let_def
    using list_for_each_entry_ok [OF l assms(3)] list_empty_ok [OF l] list_add_ok [OF l assms(2)]
      list_add_tail_ok [OF l assms(2)] list_add_sort_ok [OF l assms(2,3)] by blast
qed

lemma list_head_refines_witness:
  "let h = fold (\<lambda>x. list_add_tail x 100) [208, 308] (INIT_LIST_HEAD 100 \<lparr>nxt = (\<lambda>_. 0), prv = (\<lambda>_. 0)\<rparr>) in
     list_for_each_entry 3 8 100 collect_entry (h, []) = Some (h, [200, 300]) \<and>
     (\<exists>h'. list_add_sort 3 (<) 250 100 h = Some h' \<and> is_list h' 100 [208, 250, 308])"
  using list_head_refines [of 100 "[208, 308]" 250 3 "\<lparr>nxt = (\<lambda>_. 0), prv = (\<lambda>_. 0)\<rparr>" 8 "(<)"]
  by (simp add: list_entry_def Let_def)

end
