(* ===== verification/Spec2Isabelle.thy ===== *)
theory Spec2Isabelle
  imports Limits ListHead
begin

text \<open>
  \<^bold>\<open>A verification development for genimage.\<close> genimage makes file system and disk images from a configuration
  file. This development translates its sources, \<^verbatim>\<open>src/*.c\<close> and \<^verbatim>\<open>src/*.h\<close>, into executable definitions that
  keep the names of the C functions, and proves what makes them correct. This header is the guide to it.

  \<^bold>\<open>The program.\<close> \<open>main\<close> in \<^verbatim>\<open>genimage.c\<close> reads the options (\<^verbatim>\<open>config.c\<close>) and the configuration, makes a list of
  images with their partitions, adds an implicit image for every file that a partition names and no section
  describes, and sets all images up: \<open>image_setup\<close> calls itself for the images of the partitions, resolves sizes
  in per cent and calls the \<open>setup\<close> function of the handler. It then collects the mountpoints and generates all
  images in the same manner with \<open>image_generate\<close>. The field \<open>seen\<close> of an image records how far either recursion is
  with it, and shows a cycle. A handler is one file \<^verbatim>\<open>image-*.c\<close>. Those of disks (\<^verbatim>\<open>image-hd.c\<close>), flash
  (\<^verbatim>\<open>image-flash.c\<close>), sparse images and RAID members write their files with the functions of \<^verbatim>\<open>util.c\<close>; the
  others put a shell command together and run it.

  \<^bold>\<open>How it is modelled.\<close> Machine integers are words of their width, so that every sum wraps as in C. A function
  that may fail returns \<open>error + 'a\<close>; the error \<open>Undefined\<close> stands for behaviour that C leaves undefined (an index out
  of range, a division by 0, a value that is not initialised). A function with effects is a function on a \<open>world\<close>:
  the files, \<open>errno\<close>, the commands that were run, the random numbers, and a \<open>script\<close> with the fate of every
  system call, which may fail or transfer fewer bytes than asked for. A theorem about all worlds is therefore a
  theorem about all faults. Structs are records, string pointers that may be NULL are \<open>string option\<close>, packed structs
  that are written to disk are byte strings. The lists of \<^verbatim>\<open>list.h\<close> are HOL lists, which \<open>ListHead\<close> justifies.

  \<^bold>\<open>The theories and the code.\<close>

  \<^item> \<open>Prelude\<close>: words, errors, bytes, the rule collection \<open>io_ok\<close>.
  \<^item> \<open>Arith\<close>, \<open>CString\<close>: rounding, sizes with suffixes, UUIDs, holes (\<^verbatim>\<open>util.c\<close>, \<^verbatim>\<open>config.c\<close>).
  \<^item> \<open>Crc32\<close>, \<open>Random32\<close>: \<^verbatim>\<open>crc32.c\<close>, \<^verbatim>\<open>random32.c\<close>.
  \<^item> \<open>Files\<close>: files, system calls and the script. \<open>FileOps\<close>, \<open>FileProps\<close>, \<open>FileRuns\<close>: the file operations of
    \<^verbatim>\<open>util.c\<close>, what each does to the bytes, and runs of several of them.
  \<^item> \<open>Image\<close>: the data of \<^verbatim>\<open>genimage.h\<close>. \<open>ListHead\<close>: \<^verbatim>\<open>list.h\<close>.
  \<^item> \<open>HdTables\<close>, \<open>GptTypes\<close>, \<open>HdSetup\<close>, \<open>HdGenerate\<close>: \<^verbatim>\<open>image-hd.c\<close>, the tables, the layout, the generation.
    \<open>HdTableProps\<close>, \<open>HdLayout\<close>, \<open>HdSetupProps\<close>, \<open>HdWrites\<close>, \<open>HdImages\<close>: their properties.
  \<^item> \<open>Flash\<close>: \<^verbatim>\<open>image-flash.c\<close>. \<open>Config\<close>: \<^verbatim>\<open>config.c\<close>.
  \<^item> \<open>System\<close>, \<open>Project\<close>, \<open>Mounts\<close>, \<open>Genimage\<close>: shell commands and environment; from the configuration to the list of
    images; directories and mountpoints; the state and phases of \<open>main\<close> (\<^verbatim>\<open>genimage.c\<close>, \<^verbatim>\<open>util.c\<close>).
  \<^item> \<open>Tools\<close>, \<open>Bundles\<close>, \<open>Verity\<close>: the handlers that call a tool: cpio, cramfs, tar, iso, jffs2, f2fs, btrfs, ubifs,
    erofs, squashfs, custom, ext2 to ext4, vfat; qemu, ubi, fit, fip, rauc; verity and its signature.
  \<^item> \<open>AndroidSparse\<close>, \<open>SparseFormat\<close>, \<open>SparseWriter\<close>, \<open>SparseProps\<close>: \<^verbatim>\<open>image-android-sparse.c\<close>, a reader of the format,
    and the proof that the one inverts the other.
  \<^item> \<open>Mdraid\<close>, \<open>MdraidProps\<close>: \<^verbatim>\<open>image-mdraid.c\<close>.
  \<^item> \<open>Handlers\<close>: the table \<open>handlers\<close>, with \<^verbatim>\<open>image-file.c\<close>.
  \<^item> \<open>Walk\<close>, \<open>HandlerProps\<close>, \<open>Runs\<close>, \<open>Contract\<close>, \<open>Typing\<close>, \<open>Acyclic\<close>: the recursions over the images, what the handlers
    promise to them, and what holds of the whole program.
  \<^item> \<open>Limits\<close>: configurations that the program accepts and does not handle.

  \<^bold>\<open>What is shown.\<close>

  \<^item> Disk images. A layout that \<open>hdimage_setup\<close> accepts has no two partitions that destroy each other, all of them
    within the image, aligned, with room for the tables. The tables that are written are read back. The
    generation refines a list of writes to an empty file. Together: every byte of every image is at its place
    in the output, and the tables are too.
  \<^item> Flash images: whole erase blocks one after the other, and the bytes of the output, all of them.
  \<^item> Android sparse images: a reader of the format returns the input. RAID members: superblock, bitmap and data.
  \<^item> File operations: \<open>insert_image\<close> copies exactly, whatever extents the kernel reports; \<open>insert_data\<close>,
    \<open>extend_file\<close>, with faults.
  \<^item> Checksum and random numbers: the table-driven CRC is the bitwise one, the generator is never stuck.
  \<^item> The whole program: it ends for every configuration; a setup that succeeds has found an order of the images
    without a cycle, and one without a cycle is not refused; every image fits where it is placed; the private
    data of an image has the type its handler casts it to; everything is generated.
  \<^item> Where the code does something else than it means to, the theorem states what it does.

  \<^bold>\<open>Interfaces.\<close> \<open>byte_store\<close> (\<open>Files\<close>): reading back what was written; interpreted on the files as \<open>disk\<close>.
  \<open>run_relation\<close> (\<open>FileRuns\<close>): a relation of worlds that every system call keeps, and so every operation;
  interpreted as \<open>scr\<close>, the script does not change, and \<open>wff\<close>, files stay well formed. \<open>image_walk\<close> (\<open>Walk\<close>): a
  recursion over the images with any two operations that leave graph and marks alone; interpreted as \<open>walk_setup\<close> and
  \<open>walk_gen\<close> on the two recursions of the program. \<open>image_contract\<close> extends it by a promise of an operation
  that later ones keep; interpreted as \<open>fitting\<close> (images fit) and \<open>typing\<close> (private data). \<open>queue\<close> (\<open>ListHead\<close>): what a
  list that grows at its end promises; interpreted as \<open>tails\<close> on the pointers.

  \<^bold>\<open>Fuel and bounds.\<close> The recursions over the images have fuel, one more than there are images; it is enough because
  every call that goes deeper marks an image that was not marked, so None is never the result (\<open>genimage_terminates\<close>).
  The loops of the list macros have fuel too, and return when it is more than the length of the list. All other
  loops are proved to end, by the bytes that are left. The bytes of disk images are shown for offsets, sizes and
  alignments up to \<open>2 ^ 62\<close>, so that no sum wraps, the bytes of sparse images for fewer than \<open>2 ^ 31\<close> blocks, those of
  RAID members for up to 1920 devices. \<open>Limits\<close> has what happens beyond some of these bounds.

  \<^bold>\<open>Parameters.\<close> What is not in \<^verbatim>\<open>src\<close> is an argument of the definitions: the effect of shell commands (the wait
  status and any change of the world), the extents that the kernel reports, the contents of directories, the
  environment, the parsed configuration and command line, the clock and the seed.

  \<^bold>\<open>Not modelled.\<close> Messages, \<open>xvasprintf\<close> and the help text, which have no state. The libconfuse tables, \<open>getopt_long\<close>
  and the start of \<open>main\<close> that calls them: the model begins with the options that were read. The redirection of
  the output of \<open>systemp\<close>. The hash lists of \<^verbatim>\<open>list.h\<close>, which nothing uses. The RAID functions are modelled but
  are not in the table of handlers of the model: they change the private data of another image, and the record of
  a handler there sees its own image only; the layout of \<open>struct mdp_superblock_1\<close> is that of the kernel header.
\<close>

end
